(* ===== verification/JsValue.thy ===== *)
theory JsValue
  imports Prelude
begin

text \<open>
  The JavaScript values the client code handles at run time.  The TypeScript
  interfaces of \<open>src/services/api.ts\<close> (\<open>UserInfo\<close>,
  \<open>GenerateDocumentsResponse\<close>, ...) are erased at run time: what a page
  receives as \<open>response.data\<close> is whatever value axios produced from the
  body, so the model keeps the untyped value and the three operations the pages
  apply to it: property access (\<open>response.message\<close>), truthiness
  (\<open>{message && ...}\<close>, \<open>results ? ... : ...\<close>) and conversion to a
  string in template literals (\<open>`/download/${filename}`\<close>).
  Numbers are modelled by their integral values (the JSON the service sends
  carries no fractional numbers the client reads); objects are association
  lists in property order, as \<open>JSON.parse\<close> builds them; a \<open>Blob\<close> is
  a byte list.
\<close>

datatype jsval =
    JUndefined
  | JNull
  | JBool bool
  | JNum int
  | JStr string
  | JArr "jsval list"
  | JObj "(string \<times> jsval) list"
  | JBlob blob

text \<open>The exception a property read of \<open>null\<close> or \<open>undefined\<close> throws.\<close>

datatype js_exn = TypeError

section \<open>Property access\<close>

text \<open>
  \<open>v.k\<close> for a key that is not an array index and not a member of a
  prototype (all keys the program reads are of this kind): \<open>null\<close> and
  \<open>undefined\<close> throw, an object yields its own property or \<open>undefined\<close>,
  strings and arrays have \<open>length\<close>, a \<open>Blob\<close> has \<open>size\<close>, and any
  other primitive has no such property.
\<close>

fun get_prop :: "jsval \<Rightarrow> string \<Rightarrow> js_exn + jsval" where
  "get_prop JUndefined k = Inl TypeError"
| "get_prop JNull k = Inl TypeError"
| "get_prop (JObj kvs) k = Inr (case map_of kvs k of None \<Rightarrow> JUndefined | Some v \<Rightarrow> v)"
| "get_prop (JStr s) k = Inr (if k = ''length'' then JNum (int (length s)) else JUndefined)"
| "get_prop (JArr vs) k = Inr (if k = ''length'' then JNum (int (length vs)) else JUndefined)"
| "get_prop (JBlob b) k = Inr (if k = ''size'' then JNum (int (length b)) else JUndefined)"
| "get_prop (JBool b) k = Inr JUndefined"
| "get_prop (JNum n) k = Inr JUndefined"

section \<open>Truthiness\<close>

fun truthy :: "jsval \<Rightarrow> bool" where
  "truthy JUndefined = False"
| "truthy JNull = False"
| "truthy (JBool b) = b"
| "truthy (JNum n) = (n \<noteq> 0)"
| "truthy (JStr s) = (s \<noteq> [])"
| "truthy (JArr vs) = True"
| "truthy (JObj kvs) = True"
| "truthy (JBlob b) = True"

section \<open>Conversion to a string\<close>

text \<open>An ASCII decimal digit.\<close>

definition is_digit :: "char \<Rightarrow> bool" where
  "is_digit c \<longleftrightarrow> 48 \<le> (of_char c :: nat) \<and> (of_char c :: nat) \<le> 57"

text \<open>Decimal notation of an integral number, as \<open>Number.prototype.toString\<close> prints it.\<close>

text \<open>An ASCII letter.\<close>

definition is_alpha :: "char \<Rightarrow> bool" where
  "is_alpha c \<longleftrightarrow> (let n = (of_char c :: nat) in (65 \<le> n \<and> n \<le> 90) \<or> (97 \<le> n \<and> n \<le> 122))"

fun dec_nat :: "nat \<Rightarrow> string" where
  "dec_nat n =
     (if n < 10 then [char_of (48 + n)]
      else dec_nat (n div 10) @ [char_of (48 + n mod 10)])"

declare dec_nat.simps [simp del]

definition dec_int :: "int \<Rightarrow> string" where
  "dec_int i = (if i < 0 then CHR ''-'' # dec_nat (nat (- i)) else dec_nat (nat i))"

text \<open>\<open>Array.prototype.join\<close> on strings.\<close>

fun join_strs :: "string \<Rightarrow> string list \<Rightarrow> string" where
  "join_strs sep [] = []"
| "join_strs sep [s] = s"
| "join_strs sep (s # ss) = s @ sep @ join_strs sep ss"

text \<open>
  \<open>String(v)\<close> and \<open>`${v}`\<close>: arrays are joined with commas, their
  \<open>null\<close> and \<open>undefined\<close> elements printing as the empty string.
\<close>

fun js_to_string :: "jsval \<Rightarrow> string" where
  "js_to_string JUndefined = ''undefined''"
| "js_to_string JNull = ''null''"
| "js_to_string (JBool b) = (if b then ''true'' else ''false'')"
| "js_to_string (JNum n) = dec_int n"
| "js_to_string (JStr s) = s"
| "js_to_string (JArr vs) =
     join_strs '','' (map (\<lambda>v. if v = JUndefined \<or> v = JNull then [] else js_to_string v) vs)"
| "js_to_string (JObj kvs) = ''[object Object]''"
| "js_to_string (JBlob b) = ''[object Blob]''"

section \<open>Lemmas\<close>

lemma get_prop_obj_Some [simp]:
  "map_of kvs k = Some v \<Longrightarrow> get_prop (JObj kvs) k = Inr v"
  by simp

lemma get_prop_obj_None [simp]:
  "map_of kvs k = None \<Longrightarrow> get_prop (JObj kvs) k = Inr JUndefined"
  by simp

lemma get_prop_throws_iff:
  "(\<exists>e. get_prop v k = Inl e) \<longleftrightarrow> v = JUndefined \<or> v = JNull"
  by (cases v) auto

lemma is_digit_char_of [simp]: "(m::nat) < 10 \<Longrightarrow> is_digit (char_of (48 + m))"
  by (simp add: is_digit_def take_bit_nat_eq_self)

lemma dec_nat_digits: "\<forall>c \<in> set (dec_nat n). is_digit c"
proof (induction n rule: dec_nat.induct)
  case (1 n)
  then show ?case by (subst dec_nat.simps) auto
qed

lemma dec_nat_nonempty [simp]: "dec_nat n \<noteq> []"
  by (subst dec_nat.simps) simp

end
