(* ===== verification/Json.thy ===== *)
theory Json
  imports JsValue
begin

text \<open>
  The JSON text format on the wire.  Every request body the client sends is
  \<open>JSON.stringify\<close> of the object \<open>src/services/api.ts\<close> passes to
  \<open>api.post\<close> (axios serialises plain objects when the instance's
  \<open>Content-Type\<close> is \<open>application/json\<close>), and every response body that
  is not a \<open>Blob\<close> goes through \<open>JSON.parse\<close> in axios's response
  transformation.  Both are functions of the JavaScript runtime, modelled here
  from ECMA-262 (\<open>SerializeJSONProperty\<close>, \<open>QuoteJSONString\<close>) and the
  JSON grammar of RFC 8259:
  \<^item> characters are bytes, so a \<open>\u\<close> escape is accepted for code points
    below 256 only;
  \<^item> numbers are integers: a number with a fraction or an exponent is outside
    the model and parses as a syntax error;
  \<^item> a repeated key keeps its first position and its last value, as
    \<open>JSON.parse\<close> does (\<open>AList.update\<close>).
  The parser carries fuel; \<open>json_parse\<close> gives it enough for any input, and
  the roundtrip theorem below shows what enough means.
\<close>

section \<open>Serialisation\<close>

definition hex_digit :: "nat \<Rightarrow> char" where
  "hex_digit n = char_of (if n < 10 then 48 + n else 87 + n)"

text \<open>\<open>QuoteJSONString\<close>, one character at a time.\<close>

definition json_esc :: "char \<Rightarrow> string" where
  "json_esc c =
     (let n = (of_char c :: nat) in
      if n = 0x22 then [CHR 0x5C, CHR 0x22]
      else if n = 0x5C then [CHR 0x5C, CHR 0x5C]
      else if n = 0x08 then [CHR 0x5C, CHR ''b'']
      else if n = 0x0C then [CHR 0x5C, CHR ''f'']
      else if n = 0x0A then [CHR 0x5C, CHR ''n'']
      else if n = 0x0D then [CHR 0x5C, CHR ''r'']
      else if n = 0x09 then [CHR 0x5C, CHR ''t'']
      else if n < 0x20 then [CHR 0x5C, CHR ''u'', CHR ''0'', CHR ''0'', hex_digit (n div 16), hex_digit (n mod 16)]
      else [c])"

definition json_quote :: "string \<Rightarrow> string" where
  "json_quote s = CHR 0x22 # concat (map json_esc s) @ [CHR 0x22]"

text \<open>
  \<open>SerializeJSONProperty\<close>: \<open>undefined\<close> inside an array prints as
  \<open>null\<close>, an object property whose value is \<open>undefined\<close> is left out,
  and a \<open>Blob\<close> has no enumerable own property.
\<close>

fun json_ser :: "jsval \<Rightarrow> string" where
  "json_ser JUndefined = ''null''"
| "json_ser JNull = ''null''"
| "json_ser (JBool b) = (if b then ''true'' else ''false'')"
| "json_ser (JNum n) = dec_int n"
| "json_ser (JStr s) = json_quote s"
| "json_ser (JArr vs) = ''['' @ join_strs '','' (map json_ser vs) @ '']''"
| "json_ser (JObj kvs) =
     ''{'' @ join_strs '','' (map (\<lambda>kv. json_quote (fst kv) @ '':'' @ json_ser (snd kv))
                               (filter (\<lambda>kv. snd kv \<noteq> JUndefined) kvs)) @ ''}''"
| "json_ser (JBlob b) = ''{}''"

text \<open>\<open>JSON.stringify v\<close>: \<open>undefined\<close> has no JSON text.\<close>

definition json_stringify :: "jsval \<Rightarrow> string option" where
  "json_stringify v = (if v = JUndefined then None else Some (json_ser v))"

section \<open>Parsing\<close>

definition is_ws :: "char \<Rightarrow> bool" where
  "is_ws c \<longleftrightarrow> c = CHR 0x20 \<or> c = CHR 0x09 \<or> c = CHR 0x0A \<or> c = CHR 0x0D"

definition skip_ws :: "string \<Rightarrow> string" where
  "skip_ws s = dropWhile is_ws s"

definition hex_val :: "char \<Rightarrow> nat option" where
  "hex_val c =
     (let n = (of_char c :: nat) in
      if 48 \<le> n \<and> n \<le> 57 then Some (n - 48)
      else if 97 \<le> n \<and> n \<le> 102 then Some (n - 87)
      else if 65 \<le> n \<and> n \<le> 70 then Some (n - 55)
      else None)"

definition hex4_val :: "char \<Rightarrow> char \<Rightarrow> char \<Rightarrow> char \<Rightarrow> nat option" where
  "hex4_val a b c d =
     (case (hex_val a, hex_val b, hex_val c, hex_val d) of
        (Some w, Some x, Some y, Some z) \<Rightarrow> Some (((w * 16 + x) * 16 + y) * 16 + z)
      | _ \<Rightarrow> None)"

text \<open>The single-character escapes of JSON, by the character after the backslash.\<close>

definition short_unescape :: "char \<Rightarrow> char option" where
  "short_unescape e =
     (if e = CHR 0x22 then Some (CHR 0x22)
      else if e = CHR 0x5C then Some (CHR 0x5C)
      else if e = CHR ''/'' then Some (CHR ''/'')
      else if e = CHR ''b'' then Some (CHR 0x08)
      else if e = CHR ''f'' then Some (CHR 0x0C)
      else if e = CHR ''n'' then Some (CHR 0x0A)
      else if e = CHR ''r'' then Some (CHR 0x0D)
      else if e = CHR ''t'' then Some (CHR 0x09)
      else None)"

definition cons_fst :: "'a \<Rightarrow> ('a list \<times> 'b) option \<Rightarrow> ('a list \<times> 'b) option" where
  "cons_fst x r = map_option (\<lambda>(xs, rest). (x # xs, rest)) r"

text \<open>The characters of a string literal after its opening quote, up to and without the closing one.\<close>

fun parse_chars :: "string \<Rightarrow> (string \<times> string) option" where
  "parse_chars [] = None"
| "parse_chars (c # cs) =
     (if c = CHR 0x22 then Some ([], cs)
      else if c = CHR 0x5C then
        (case cs of
           [] \<Rightarrow> None
         | e # cs' \<Rightarrow>
             (if e = CHR ''u'' then
                (case cs' of
                   a # b # c' # d # cs'' \<Rightarrow>
                     (case hex4_val a b c' d of
                        Some n \<Rightarrow> if n < 256 then cons_fst (char_of n) (parse_chars cs'') else None
                      | None \<Rightarrow> None)
                 | _ \<Rightarrow> None)
              else
                (case short_unescape e of
                   Some x \<Rightarrow> cons_fst x (parse_chars cs')
                 | None \<Rightarrow> None)))
      else if (of_char c :: nat) < 0x20 then None
      else cons_fst c (parse_chars cs))"

definition read_dec :: "string \<Rightarrow> nat" where
  "read_dec ds = foldl (\<lambda>acc d. 10 * acc + (of_char d - 48)) 0 ds"

text \<open>
  An integer: an optional minus sign, then \<open>0\<close> or a digit sequence that
  does not start with \<open>0\<close>.  A fraction or exponent is rejected (see above).
\<close>

definition parse_number :: "string \<Rightarrow> (jsval \<times> string) option" where
  "parse_number s =
     (let (neg, t) = (case s of c # cs \<Rightarrow> if c = CHR ''-'' then (True, cs) else (False, s) | [] \<Rightarrow> (False, s));
          (ds, rest) = (case t of
                          c # cs \<Rightarrow> if c = CHR ''0'' then ([c], cs) else (takeWhile is_digit t, dropWhile is_digit t)
                        | [] \<Rightarrow> ([], []))
      in if ds = [] \<or> \<not> is_digit (hd ds) then None
         else if rest \<noteq> [] \<and> hd rest \<in> {CHR ''.'', CHR ''e'', CHR ''E''} then None
         else Some (JNum (if neg then - int (read_dec ds) else int (read_dec ds)), rest))"

text \<open>
  Recursive descent.  \<open>parse_elems\<close> parses the elements of an array after
  its \<open>[\<close>, \<open>parse_members\<close> the members of an object after its
  \<open>{\<close>; each accumulates what it has read.  Every call spends one unit of fuel.
\<close>

fun parse_value :: "nat \<Rightarrow> string \<Rightarrow> (jsval \<times> string) option"
and parse_elems :: "nat \<Rightarrow> jsval list \<Rightarrow> string \<Rightarrow> (jsval \<times> string) option"
and parse_members :: "nat \<Rightarrow> (string \<times> jsval) list \<Rightarrow> string \<Rightarrow> (jsval \<times> string) option"
where
  "parse_value 0 s = None"
| "parse_value (Suc f) s =
     (case skip_ws s of
        [] \<Rightarrow> None
      | c # cs \<Rightarrow>
          if c = CHR ''['' then
            (case skip_ws cs of
               d # ds \<Rightarrow> if d = CHR '']'' then Some (JArr [], ds) else parse_elems f [] cs
             | [] \<Rightarrow> None)
          else if c = CHR ''{'' then
            (case skip_ws cs of
               d # ds \<Rightarrow> if d = CHR ''}'' then Some (JObj [], ds) else parse_members f [] cs
             | [] \<Rightarrow> None)
          else if c = CHR 0x22 then
            map_option (\<lambda>(str, rest). (JStr str, rest)) (parse_chars cs)
          else if take 4 (c # cs) = ''null'' then Some (JNull, drop 4 (c # cs))
          else if take 4 (c # cs) = ''true'' then Some (JBool True, drop 4 (c # cs))
          else if take 5 (c # cs) = ''false'' then Some (JBool False, drop 5 (c # cs))
          else parse_number (c # cs))"
| "parse_elems 0 acc s = None"
| "parse_elems (Suc f) acc s =
     (case parse_value f s of
        None \<Rightarrow> None
      | Some (v, r) \<Rightarrow>
          (case skip_ws r of
             e # es \<Rightarrow>
               if e = CHR '','' then parse_elems f (acc @ [v]) es
               else if e = CHR '']'' then Some (JArr (acc @ [v]), es)
               else None
           | [] \<Rightarrow> None))"
| "parse_members 0 kvs s = None"
| "parse_members (Suc f) kvs s =
     (case skip_ws s of
        c # cs \<Rightarrow>
          if c = CHR 0x22 then
            (case parse_chars cs of
               None \<Rightarrow> None
             | Some (k, r) \<Rightarrow>
                 (case skip_ws r of
                    d # ds \<Rightarrow>
                      if d = CHR '':'' then
                        (case parse_value f ds of
                           None \<Rightarrow> None
                         | Some (v, r2) \<Rightarrow>
                             (case skip_ws r2 of
                                e # es \<Rightarrow>
                                  if e = CHR '','' then parse_members f (AList.update k v kvs) es
                                  else if e = CHR ''}'' then Some (JObj (AList.update k v kvs), es)
                                  else None
                              | [] \<Rightarrow> None))
                      else None
                  | [] \<Rightarrow> None))
          else None
      | [] \<Rightarrow> None)"

text \<open>\<open>JSON.parse s\<close>: a value followed by white space only; \<open>None\<close> is a \<open>SyntaxError\<close>.\<close>

definition json_parse :: "string \<Rightarrow> jsval option" where
  "json_parse s =
     (case parse_value (2 * length s + 2) s of
        Some (v, r) \<Rightarrow> if skip_ws r = [] then Some v else None
      | None \<Rightarrow> None)"

section \<open>Roundtrip vocabulary\<close>

text \<open>Values \<open>JSON.stringify\<close> prints and \<open>JSON.parse\<close> reads back unchanged:
  no \<open>undefined\<close> and no \<open>Blob\<close> anywhere, and no repeated key.\<close>

fun json_wf :: "jsval \<Rightarrow> bool" where
  "json_wf JUndefined = False"
| "json_wf (JBlob b) = False"
| "json_wf (JArr vs) = list_all json_wf vs"
| "json_wf (JObj kvs) = (distinct (map fst kvs) \<and> list_all (\<lambda>kv. json_wf (snd kv)) kvs)"
| "json_wf v = True"

text \<open>The fuel a serialised value needs, and what may follow a value or a
  number in the text.\<close>

fun jw :: "jsval \<Rightarrow> nat" where
  "jw (JArr vs) = Suc (sum_list (map (\<lambda>v. Suc (jw v)) vs))"
| "jw (JObj kvs) = Suc (sum_list (map (\<lambda>kv. Suc (jw (snd kv))) kvs))"
| "jw v = 1"

definition num_delim :: "string \<Rightarrow> bool" where
  "num_delim r \<longleftrightarrow> r = [] \<or> (\<not> is_digit (hd r) \<and> hd r \<notin> {CHR ''.'', CHR ''e'', CHR ''E''})"

definition val_delim :: "string \<Rightarrow> bool" where
  "val_delim r \<longleftrightarrow> r = [] \<or> hd r \<in> {CHR '','', CHR '']'', CHR ''}''}"

text \<open>A value reads back from its text with any enough fuel and any legal continuation.\<close>

definition ser_ok :: "jsval \<Rightarrow> bool" where
  "ser_ok v \<longleftrightarrow> (\<forall>f r. jw v \<le> f \<longrightarrow> val_delim r \<longrightarrow> parse_value f (json_ser v @ r) = Some (v, r))"

definition member_ser :: "string \<times> jsval \<Rightarrow> string" where
  "member_ser kv = json_quote (fst kv) @ '':'' @ json_ser (snd kv)"

section \<open>Lemmas\<close>

lemma char_eq_of_char: "c = d \<longleftrightarrow> (of_char c :: nat) = of_char d"
  by (metis char_of_char)

lemma hex_val_hex_digit: "k < 16 \<Longrightarrow> hex_val (hex_digit k) = Some k"
  by (auto simp: hex_val_def hex_digit_def Let_def take_bit_nat_eq_self)

lemma char_of_escape_codes:
  "char_of (34::nat) = CHR 0x22" "char_of (92::nat) = CHR 0x5C" "char_of (8::nat) = CHR 0x08"
  "char_of (12::nat) = CHR 0x0C" "char_of (10::nat) = CHR 0x0A" "char_of (13::nat) = CHR 0x0D"
  "char_of (9::nat) = CHR 0x09"
  by code_simp+

lemma parse_chars_esc_code:
  assumes lt: "(n::nat) < 256"
  shows "parse_chars (json_esc (char_of n) @ r) = cons_fst (char_of n) (parse_chars r)"
proof (cases "n < 0x20 \<or> n = 0x22 \<or> n = 0x5C")
  case False
  with lt show ?thesis
    by (auto simp: json_esc_def Let_def char_eq_of_char take_bit_nat_eq_self)
next
  case True
  then consider "n = 0x22" | "n = 0x5C" | "n = 8" | "n = 12" | "n = 10" | "n = 13" | "n = 9"
    | "n < 0x20 \<and> n \<notin> {8, 9, 10, 12, 13}" by auto
  then show ?thesis
  proof cases
    case 8
    have d1: "hex_val (hex_digit (n div 16)) = Some (n div 16)"
      using 8 by (intro hex_val_hex_digit) linarith
    have d2: "hex_val (hex_digit (n mod 16)) = Some (n mod 16)"
      by (intro hex_val_hex_digit) simp
    have h: "hex4_val (CHR ''0'') (CHR ''0'') (hex_digit (n div 16)) (hex_digit (n mod 16)) = Some n"
      by (simp add: hex4_val_def d1 d2) (simp add: hex_val_def)
    from 8 show ?thesis
      by (auto simp: json_esc_def Let_def h char_eq_of_char take_bit_nat_eq_self)
  qed (simp_all add: json_esc_def Let_def short_unescape_def char_of_escape_codes)
qed

lemma parse_chars_esc: "parse_chars (json_esc c @ r) = cons_fst c (parse_chars r)"
  using parse_chars_esc_code [of "of_char c" r] by simp

lemma parse_chars_quote_body:
  "parse_chars (concat (map json_esc s) @ CHR 0x22 # r) = Some (s, r)"
  by (induction s) (simp_all add: parse_chars_esc cons_fst_def)


lemma dec_nat_zero: "dec_nat 0 = ''0''"
  by code_simp

lemma of_char_digit: "(k::nat) < 10 \<Longrightarrow> of_char (char_of (48 + k)) = 48 + k"
  by (simp add: take_bit_nat_eq_self)

lemma read_dec_snoc: "read_dec (xs @ [d]) = 10 * read_dec xs + (of_char d - 48)"
  by (simp add: read_dec_def)

lemma read_dec_dec_nat: "read_dec (dec_nat n) = n"
proof (induction n rule: dec_nat.induct)
  case (1 n)
  show ?case
  proof (cases "n < 10")
    case True
    then show ?thesis by (subst dec_nat.simps) (simp add: read_dec_def of_char_digit)
  next
    case False
    with "1" have "read_dec (dec_nat (n div 10)) = n div 10" by simp
    with False show ?thesis
      by (subst dec_nat.simps) (simp add: read_dec_snoc of_char_digit)
  qed
qed

lemma dec_nat_hd_digit: "is_digit (hd (dec_nat n))"
  using dec_nat_digits [of n] dec_nat_nonempty [of n] by (simp add: hd_in_set)

lemma dec_nat_hd_zero: "hd (dec_nat n) = CHR ''0'' \<Longrightarrow> n = 0"
proof (induction n rule: dec_nat.induct)
  case (1 n)
  show ?case
  proof (cases "n < 10")
    case True
    with "1.prems" show ?thesis
      by (subst (asm) dec_nat.simps) (auto simp: char_eq_of_char of_char_digit)
  next
    case False
    with "1.prems" have "hd (dec_nat (n div 10)) = CHR ''0''"
      by (subst (asm) dec_nat.simps) simp
    with "1.IH" False have "n div 10 = 0" by simp
    with False show ?thesis by simp
  qed
qed


lemma digits_span:
  assumes "num_delim r"
  shows "takeWhile is_digit (dec_nat m @ r) = dec_nat m \<and> dropWhile is_digit (dec_nat m @ r) = r"
proof -
  have "takeWhile is_digit r = [] \<and> dropWhile is_digit r = r"
    using assms by (cases r) (auto simp: num_delim_def)
  then show ?thesis using dec_nat_digits [of m]
    by (simp add: takeWhile_append2 dropWhile_append2)
qed

lemma minus_not_digit: "\<not> is_digit (CHR ''-'')"
  by (simp add: is_digit_def)

lemma parse_number_nat:
  assumes "num_delim r"
  shows "parse_number (dec_nat m @ r) = Some (JNum (int m), r)"
proof -
  obtain c cs where dc: "dec_nat m @ r = c # cs" and hc: "c = hd (dec_nat m)"
    by (cases "dec_nat m") auto
  have dig: "is_digit c" using hc dec_nat_hd_digit by simp
  then have nm: "c \<noteq> CHR ''-''" using minus_not_digit by blast
  show ?thesis
  proof (cases "c = CHR ''0''")
    case True
    then have "m = 0" using hc dec_nat_hd_zero by simp
    then show ?thesis using assms dc True
      by (auto simp: parse_number_def dec_nat_zero num_delim_def read_dec_def is_digit_def)
  next
    case False
    have sp: "takeWhile is_digit (c # cs) = dec_nat m" "dropWhile is_digit (c # cs) = r"
      using digits_span [OF assms, of m] dc by simp_all
    have hd_d: "is_digit (hd (dec_nat m))" by (rule dec_nat_hd_digit)
    show ?thesis unfolding dc using False nm sp hd_d assms
      by (simp add: parse_number_def read_dec_dec_nat num_delim_def) blast
  qed
qed

lemma digits_of_dec_nat:
  assumes "num_delim r"
  shows "(case dec_nat m @ r of
            c # cs \<Rightarrow> if c = CHR ''0'' then ([c], cs)
                      else (takeWhile is_digit (dec_nat m @ r), dropWhile is_digit (dec_nat m @ r))
          | [] \<Rightarrow> ([], [])) = (dec_nat m, r)"
proof -
  obtain c cs where dc: "dec_nat m @ r = c # cs" and hc: "c = hd (dec_nat m)"
    by (cases "dec_nat m") auto
  show ?thesis
  proof (cases "c = CHR ''0''")
    case True
    then have "m = 0" using hc dec_nat_hd_zero by simp
    with dc True show ?thesis by (simp add: dec_nat_zero)
  next
    case False
    with dc show ?thesis using digits_span [OF assms, of m] by simp
  qed
qed

lemma parse_number_dec_int:
  assumes r: "num_delim r"
  shows "parse_number (dec_int n @ r) = Some (JNum n, r)"
proof (cases "n < 0")
  case True
  have ne: "dec_nat (nat (- n)) \<noteq> [] \<and> is_digit (hd (dec_nat (nat (- n))))"
    by (simp add: dec_nat_hd_digit)
  have "dec_int n @ r = CHR ''-'' # (dec_nat (nat (- n)) @ r)" using True by (simp add: dec_int_def)
  with True ne show ?thesis
    using r by (simp add: parse_number_def digits_of_dec_nat [OF r] read_dec_dec_nat num_delim_def) blast
next
  case False
  then have "dec_int n = dec_nat (nat n)" by (simp add: dec_int_def)
  with False show ?thesis using parse_number_nat [OF r, of "nat n"] by simp
qed





lemma val_delim_num: "val_delim r \<Longrightarrow> num_delim r"
  by (auto simp: val_delim_def num_delim_def is_digit_def)

lemma val_delim_cons [simp]:
  "val_delim (CHR '','' # r)" "val_delim (CHR '']'' # r)" "val_delim (CHR ''}'' # r)"
  by (simp_all add: val_delim_def)

lemma json_ser_start:
  "json_ser v \<noteq> [] \<and> \<not> is_ws (hd (json_ser v)) \<and> hd (json_ser v) \<noteq> CHR '']'' \<and> hd (json_ser v) \<noteq> CHR ''}''"
proof (cases v)
  case (JNum n)
  have d: "is_digit (hd (dec_nat m))" for m by (rule dec_nat_hd_digit)
  have "\<not> is_ws c \<and> c \<noteq> CHR '']'' \<and> c \<noteq> CHR ''}''" if "is_digit c" for c
    using that by (auto simp: is_digit_def is_ws_def)
  with d JNum show ?thesis by (simp add: dec_int_def is_ws_def)
qed (simp_all add: json_quote_def is_ws_def)

lemma skip_ws_ser [simp]: "skip_ws (json_ser v @ r) = json_ser v @ r"
  using json_ser_start [of v] by (cases "json_ser v") (simp_all add: skip_ws_def)

lemma skip_ws_cons_nonws [simp]:
  "skip_ws (CHR '','' # r) = CHR '','' # r" "skip_ws (CHR '']'' # r) = CHR '']'' # r"
  "skip_ws (CHR ''}'' # r) = CHR ''}'' # r" "skip_ws (CHR '':'' # r) = CHR '':'' # r"
  "skip_ws (CHR 0x22 # r) = CHR 0x22 # r" "skip_ws (CHR ''['' # r) = CHR ''['' # r"
  "skip_ws (CHR ''{'' # r) = CHR ''{'' # r"
  by (simp_all add: skip_ws_def is_ws_def)

lemma update_fresh: "k \<notin> set (map fst acc) \<Longrightarrow> AList.update k v acc = acc @ [(k, v)]"
  by (induction acc) auto

lemma join_strs_cons2: "ss \<noteq> [] \<Longrightarrow> join_strs sep (s # ss) = s @ sep @ join_strs sep ss"
  by (cases ss) simp_all



lemma parse_elems_ser:
  assumes "\<forall>v \<in> set vs. ser_ok v" and "vs \<noteq> []" and "sum_list (map (\<lambda>v. Suc (jw v)) vs) \<le> g"
  shows "parse_elems g acc (join_strs '','' (map json_ser vs) @ CHR '']'' # r) = Some (JArr (acc @ vs), r)"
  using assms
proof (induction vs arbitrary: acc g)
  case Nil
  then show ?case by simp
next
  case (Cons v vs)
  then obtain g' where g: "g = Suc g'" and jv: "jw v \<le> g'" and rest: "sum_list (map (\<lambda>v. Suc (jw v)) vs) \<le> g'"
    by (cases g) auto
  have ok: "ser_ok v" using Cons.prems(1) by simp
  show ?case
  proof (cases "vs = []")
    case True
    have "parse_value g' (json_ser v @ CHR '']'' # r) = Some (v, CHR '']'' # r)"
      using ok jv by (simp add: ser_ok_def)
    with True g show ?thesis by simp
  next
    case False
    have pv: "parse_value g' (json_ser v @ CHR '','' # join_strs '','' (map json_ser vs) @ CHR '']'' # r) =
              Some (v, CHR '','' # join_strs '','' (map json_ser vs) @ CHR '']'' # r)"
      using ok jv by (simp add: ser_ok_def)
    have "parse_elems g' (acc @ [v]) (join_strs '','' (map json_ser vs) @ CHR '']'' # r) =
            Some (JArr ((acc @ [v]) @ vs), r)"
      using Cons.IH [of g' "acc @ [v]"] Cons.prems(1) False rest by simp
    with False g pv show ?thesis by (simp add: join_strs_cons2)
  qed
qed


lemma member_ser_pair:
  "member_ser (k, v) = CHR 0x22 # concat (map json_esc k) @ CHR 0x22 # CHR '':'' # json_ser v"
  by (simp add: member_ser_def json_quote_def)

lemma parse_member_key:
  "parse_chars (concat (map json_esc k) @ CHR 0x22 # CHR '':'' # s) = Some (k, CHR '':'' # s)"
  by (rule parse_chars_quote_body)

lemma parse_members_ser:
  assumes "\<forall>kv \<in> set kvs. ser_ok (snd kv)" and "kvs \<noteq> []" and "distinct (map fst (acc @ kvs))"
    and "sum_list (map (\<lambda>kv. Suc (jw (snd kv))) kvs) \<le> g"
  shows "parse_members g acc (join_strs '','' (map member_ser kvs) @ CHR ''}'' # r) = Some (JObj (acc @ kvs), r)"
  using assms
proof (induction kvs arbitrary: acc g)
  case Nil
  then show ?case by simp
next
  case (Cons kv kvs)
  obtain k v where kv: "kv = (k, v)" by fastforce
  from Cons.prems(4) kv obtain g' where g: "g = Suc g'" and jv: "jw v \<le> g'"
      and rest: "sum_list (map (\<lambda>kv. Suc (jw (snd kv))) kvs) \<le> g'"
    by (cases g) auto
  have ok: "ser_ok v" using Cons.prems(1) kv by simp
  have fresh: "AList.update k v acc = acc @ [(k, v)]"
    using Cons.prems(3) kv by (intro update_fresh) auto
  show ?case
  proof (cases "kvs = []")
    case True
    have "parse_value g' (json_ser v @ CHR ''}'' # r) = Some (v, CHR ''}'' # r)"
      using ok jv by (simp add: ser_ok_def)
    with True g kv fresh show ?thesis
      by (simp add: member_ser_pair parse_member_key)
  next
    case False
    let ?t = "join_strs '','' (map member_ser kvs) @ CHR ''}'' # r"
    have pv: "parse_value g' (json_ser v @ CHR '','' # ?t) = Some (v, CHR '','' # ?t)"
      using ok jv by (simp add: ser_ok_def)
    have "parse_members g' (acc @ [(k, v)]) ?t = Some (JObj ((acc @ [(k, v)]) @ kvs), r)"
      using Cons.IH [of "acc @ [(k, v)]" g'] Cons.prems(1,3) False rest kv by simp
    with False g pv kv fresh show ?thesis
      by (simp add: join_strs_cons2 member_ser_pair parse_member_key)
  qed
qed

lemma join_strs_head: "\<exists>y. join_strs sep (x # xs) = x @ y"
  by (cases xs) auto

lemma dec_int_start: "\<exists>c cs. dec_int n @ r = c # cs \<and> (c = CHR ''-'' \<or> is_digit c)"
proof (cases "n < 0")
  case True
  then show ?thesis by (simp add: dec_int_def)
next
  case False
  have "is_digit (hd (dec_nat (nat n)))" by (rule dec_nat_hd_digit)
  with False show ?thesis by (cases "dec_nat (nat n)") (auto simp: dec_int_def)
qed

lemma wf_filter_defined: "list_all (\<lambda>kv. json_wf (snd kv)) kvs \<Longrightarrow> filter (\<lambda>kv. snd kv \<noteq> JUndefined) kvs = kvs"
  by (induction kvs) auto

lemma json_wf_ser_ok: "json_wf v \<Longrightarrow> ser_ok v"
proof (induction v rule: json_ser.induct)
  case 2
  then show ?case by (auto simp: ser_ok_def skip_ws_def is_ws_def dest!: Suc_le_D)
next
  case (3 b)
  then show ?case by (auto simp: ser_ok_def skip_ws_def is_ws_def dest!: Suc_le_D)
next
  case (4 n)
  show ?case unfolding ser_ok_def
  proof (intro allI impI)
    fix f r assume f: "jw (JNum n) \<le> f" and r: "val_delim r"
    obtain f' where f': "f = Suc f'" using f by (cases f) auto
    obtain c cs where dc: "dec_int n @ r = c # cs" and c: "c = CHR ''-'' \<or> is_digit c"
      using dec_int_start by blast
    have nb: "c \<noteq> CHR ''['' \<and> c \<noteq> CHR ''{'' \<and> c \<noteq> CHR 0x22 \<and> c \<noteq> CHR ''n'' \<and> c \<noteq> CHR ''t'' \<and> c \<noteq> CHR ''f''"
      using c by (auto simp: is_digit_def)
    have sw: "skip_ws (dec_int n @ r) = dec_int n @ r" using skip_ws_ser [of "JNum n" r] by simp
    have "parse_number (dec_int n @ r) = Some (JNum n, r)"
      by (rule parse_number_dec_int [OF val_delim_num [OF r]])
    with nb sw dc f' show "parse_value f (json_ser (JNum n) @ r) = Some (JNum n, r)" by auto
  qed
next
  case (5 s)
  then show ?case
    by (auto simp: ser_ok_def json_quote_def parse_chars_quote_body dest!: Suc_le_D)
next
  case (6 vs)
  show ?case unfolding ser_ok_def
  proof (intro allI impI)
    fix f r assume f: "jw (JArr vs) \<le> f" and r: "val_delim r"
    obtain f' where f': "f = Suc f'" and sum: "sum_list (map (\<lambda>v. Suc (jw v)) vs) \<le> f'"
      using f by (cases f) auto
    have oks: "\<forall>v \<in> set vs. ser_ok v" using 6 by (simp add: list_all_iff)
    show "parse_value f (json_ser (JArr vs) @ r) = Some (JArr vs, r)"
    proof (cases vs)
      case Nil
      with f' show ?thesis by simp
    next
      case (Cons v vs')
      obtain y where y: "join_strs '','' (map json_ser vs) = json_ser v @ y"
        using join_strs_head [of "'',''" "json_ser v" "map json_ser vs'"] Cons by auto
      have st: "skip_ws (join_strs '','' (map json_ser vs) @ CHR '']'' # r) =
                join_strs '','' (map json_ser vs) @ CHR '']'' # r"
           "hd (join_strs '','' (map json_ser vs) @ CHR '']'' # r) \<noteq> CHR '']''"
        using y json_ser_start [of v] by (simp_all add: hd_append)
      have "parse_elems f' [] (join_strs '','' (map json_ser vs) @ CHR '']'' # r) = Some (JArr vs, r)"
        using parse_elems_ser [OF oks _ sum, of "[]" r] Cons by simp
      with f' st Cons show ?thesis
        by (cases "join_strs '','' (map json_ser vs) @ CHR '']'' # r") simp_all
    qed
  qed
next
  case (7 kvs)
  have wf: "distinct (map fst kvs)" "list_all (\<lambda>kv. json_wf (snd kv)) kvs" using "7.prems" by simp_all
  have flt: "filter (\<lambda>kv. snd kv \<noteq> JUndefined) kvs = kvs" by (rule wf_filter_defined [OF wf(2)])
  have oks: "\<forall>kv \<in> set kvs. ser_ok (snd kv)" using "7.IH" wf(2) flt by (simp add: list_all_iff)
  have se: "json_ser (JObj kvs) = CHR ''{'' # join_strs '','' (map member_ser kvs) @ ''}''"
    by (simp add: flt member_ser_def [abs_def])
  show ?case unfolding ser_ok_def
  proof (intro allI impI)
    fix f r assume f: "jw (JObj kvs) \<le> f" and r: "val_delim r"
    obtain f' where f': "f = Suc f'" and sum: "sum_list (map (\<lambda>kv. Suc (jw (snd kv))) kvs) \<le> f'"
      using f by (cases f) auto
    show "parse_value f (json_ser (JObj kvs) @ r) = Some (JObj kvs, r)"
    proof (cases kvs)
      case Nil
      with f' show ?thesis unfolding se by simp
    next
      case (Cons kv kvs')
      obtain y where y: "join_strs '','' (map member_ser kvs) = member_ser kv @ y"
        using join_strs_head [of "'',''" "member_ser kv" "map member_ser kvs'"] Cons by auto
      obtain k v where kv: "kv = (k, v)" by fastforce
      have st: "join_strs '','' (map member_ser kvs) @ CHR ''}'' # r = CHR 0x22 # (tl (member_ser kv) @ y @ CHR ''}'' # r)"
        using y kv by (simp add: member_ser_pair)
      have "parse_members f' [] (join_strs '','' (map member_ser kvs) @ CHR ''}'' # r) = Some (JObj kvs, r)"
        using parse_members_ser [OF oks _ _ sum, of "[]" r] Cons wf(1) by simp
      with f' st show ?thesis unfolding se by simp
    qed
  qed
qed simp_all

lemma length_join_strs:
  "length (join_strs sep xs) = sum_list (map length xs) + (length xs - 1) * length sep"
  by (induction sep xs rule: join_strs.induct) simp_all

lemma sum_list_map_Suc: "sum_list (map (\<lambda>x. Suc (f x)) xs) = sum_list (map f xs) + length xs"
  by (induction xs) simp_all

lemma jw_le_length: "json_wf v \<Longrightarrow> jw v \<le> length (json_ser v)"
proof (induction v rule: json_ser.induct)
  case (4 n)
  have "dec_int n \<noteq> []" by (simp add: dec_int_def)
  then show ?case by (cases "dec_int n") simp_all
next
  case (6 vs)
  have le: "sum_list (map jw vs) \<le> sum_list (map (\<lambda>v. length (json_ser v)) vs)"
    using "6" by (intro sum_list_mono) (simp add: list_all_iff)
  show ?case
    using le by (cases vs) (simp_all add: length_join_strs sum_list_map_Suc o_def)
next
  case (7 kvs)
  have wf: "list_all (\<lambda>kv. json_wf (snd kv)) kvs" using "7.prems" by simp
  have flt: "filter (\<lambda>kv. snd kv \<noteq> JUndefined) kvs = kvs" by (rule wf_filter_defined [OF wf])
  have le: "sum_list (map (\<lambda>kv. jw (snd kv)) kvs) \<le>
            sum_list (map (\<lambda>kv. length (json_quote (fst kv) @ '':'' @ json_ser (snd kv))) kvs)"
    using "7.IH" wf flt by (intro sum_list_mono) (fastforce simp: list_all_iff)
  show ?case
    using le flt by (cases kvs) (simp_all add: length_join_strs sum_list_map_Suc o_def)
qed (simp_all add: json_quote_def)

lemma json_parse_json_ser: "json_wf v \<Longrightarrow> json_parse (json_ser v) = Some v"
proof -
  assume wf: "json_wf v"
  have "jw v \<le> 2 * length (json_ser v) + 2" using jw_le_length [OF wf] by simp
  moreover have "val_delim []" by (simp add: val_delim_def)
  ultimately have "parse_value (2 * length (json_ser v) + 2) (json_ser v @ []) = Some (v, [])"
    using json_wf_ser_ok [OF wf] unfolding ser_ok_def by blast
  then have "parse_value (2 * length (json_ser v) + 2) (json_ser v) = Some (v, [])" by simp
  then show ?thesis by (simp add: json_parse_def skip_ws_def del: parse_value.simps)
qed

end
