(* ===== verification/JsonFuel.thy ===== *)
theory JsonFuel
  imports Json
begin

text \<open>
  What \<open>JSON.parse\<close> (\<open>json_parse\<close> of \<open>Json\<close>) returns, for every input:
  every call of the parser consumes input (\<open>parse_shorter\<close>), so fuel beyond
  twice the length of the text never changes its result
  (\<open>parse_fuel_stable\<close>, \<open>json_parse_fuel\<close>): the fuel bound of
  \<open>json_parse\<close> is never the reason it fails.  What it returns is a JSON
  value: no \<open>undefined\<close>, no blob, no repeated key (\<open>json_parse_wf\<close>).
\<close>

section \<open>Every call consumes input\<close>

lemma length_skip_ws: "length (skip_ws s) \<le> length s"
  by (simp add: skip_ws_def length_dropWhile_le)

lemma skip_ws_Cons_shorter: "skip_ws s = c # cs \<Longrightarrow> length cs < length s"
  using length_skip_ws [of s] by simp

lemma parse_chars_shorter: "parse_chars cs = Some (k, r) \<Longrightarrow> length r < length cs"
proof (induction cs arbitrary: k rule: parse_chars.induct)
  case (2 c cs)
  then show ?case
    by (fastforce simp: cons_fst_def split: if_splits list.splits option.splits)
qed simp

lemma parse_number_shorter: "parse_number s = Some (v, r) \<Longrightarrow> length r < length s"
  by (auto simp: parse_number_def Let_def split: list.splits if_splits prod.splits
      intro: le_less_trans [OF length_dropWhile_le])

lemma parse_shorter:
  "parse_value n s = Some (v, r) \<Longrightarrow> length r < length s"
  "parse_elems n acc s = Some (v, r) \<Longrightarrow> length r < length s"
  "parse_members n kvs s = Some (v, r) \<Longrightarrow> length r < length s"
proof (induction n s and n acc s and n kvs s arbitrary: v r and v r and v r rule: parse_value_parse_elems_parse_members.induct)
  case (2 f s)
  then show ?case
    by (auto split: list.splits if_splits option.splits prod.splits
        dest!: skip_ws_Cons_shorter parse_chars_shorter parse_number_shorter) (metis less_trans)+
next
  case (4 f acc s)
  then show ?case
    by (fastforce split: list.splits if_splits option.splits prod.splits dest!: skip_ws_Cons_shorter)
next
  case (6 f kvs s)
  then show ?case
    by (fastforce split: list.splits if_splits option.splits prod.splits
        dest!: skip_ws_Cons_shorter parse_chars_shorter)
qed simp_all

lemmas parse_case_simps = option.case prod.case list.case if_True if_False

section \<open>Fuel beyond the bound changes nothing\<close>

lemma parse_fuel_stable:
  "(2 * length s + 1 \<le> n \<longrightarrow> parse_value (Suc n) s = parse_value n s) \<and>
   (2 * length s + 2 \<le> n \<longrightarrow> parse_elems (Suc n) acc s = parse_elems n acc s) \<and>
   (2 * length s + 1 \<le> n \<longrightarrow> parse_members (Suc n) kvs s = parse_members n kvs s)"
proof (induction n arbitrary: s acc kvs)
  case 0
  show ?case by simp
next
  case (Suc m)
  have V: "parse_value (Suc m) t = parse_value m t" if "2 * length t + 1 \<le> m" for t
    using Suc.IH [of t] that by blast
  have E: "parse_elems (Suc m) a t = parse_elems m a t" if "2 * length t + 2 \<le> m" for a t
    using Suc.IH [of t a] that by blast
  have M: "parse_members (Suc m) a t = parse_members m a t" if "2 * length t + 1 \<le> m" for a t
    using Suc.IH [of t _ a] that by blast
  show ?case
  proof (intro conjI impI)
    assume h: "2 * length s + 1 \<le> Suc m"
    show "parse_value (Suc (Suc m)) s = parse_value (Suc m) s"
    proof (cases "skip_ws s")
      case Nil
      then show ?thesis by simp
    next
      case (Cons c cs)
      then have "length cs < length s" by (rule skip_ws_Cons_shorter)
      then have e: "parse_elems (Suc m) [] cs = parse_elems m [] cs"
        and mm: "parse_members (Suc m) [] cs = parse_members m [] cs"
        using h by (intro E M; arith)+
      show ?thesis
        by (simp only: parse_value.simps(2) [of "Suc m" s] parse_value.simps(2) [of m s] Cons list.case e mm)
    qed
  next
    assume h: "2 * length s + 2 \<le> Suc m"
    have pv: "parse_value (Suc m) s = parse_value m s" using h by (intro V) arith
    note unf = parse_elems.simps(2) [of "Suc m" acc s] parse_elems.simps(2) [of m acc s] pv
    show "parse_elems (Suc (Suc m)) acc s = parse_elems (Suc m) acc s"
    proof (cases "parse_value m s")
      case (Some p)
      obtain v r where p: "p = (v, r)" by (cases p)
      have lr: "length r < length s" using Some p parse_shorter(1) by blast
      show ?thesis
      proof (cases "skip_ws r")
        case (Cons e es)
        then have "length es < length r" by (rule skip_ws_Cons_shorter)
        then have "parse_elems (Suc m) (acc @ [v]) es = parse_elems m (acc @ [v]) es"
          using h lr by (intro E) arith
        then show ?thesis by (simp only: unf Some p Cons parse_case_simps)
      qed (simp only: unf Some p parse_case_simps)
    qed (simp only: unf parse_case_simps)
  next
    assume h: "2 * length s + 1 \<le> Suc m"
    note unf = parse_members.simps(2) [of "Suc m" kvs s] parse_members.simps(2) [of m kvs s]
    show "parse_members (Suc (Suc m)) kvs s = parse_members (Suc m) kvs s"
    proof (cases "skip_ws s")
      case (Cons c cs)
      have lc: "length cs < length s" using Cons by (rule skip_ws_Cons_shorter)
      show ?thesis
      proof (cases "parse_chars cs")
        case (Some q)
        obtain k r where q: "q = (k, r)" by (cases q)
        have lr: "length r < length cs" using Some q parse_chars_shorter by blast
        show ?thesis
        proof (cases "skip_ws r")
          case (Cons d ds)
          have ld: "length ds < length r" using Cons by (rule skip_ws_Cons_shorter)
          have pv: "parse_value (Suc m) ds = parse_value m ds" using h lc lr ld by (intro V) arith
          show ?thesis
          proof (cases "parse_value m ds")
            case (Some p2)
            obtain v r2 where p2: "p2 = (v, r2)" by (cases p2)
            have l2: "length r2 < length ds" using Some p2 parse_shorter(1) by blast
            show ?thesis
            proof (cases "skip_ws r2")
              case (Cons e es)
              have "length es < length r2" using Cons by (rule skip_ws_Cons_shorter)
              then have "parse_members (Suc m) (AList.update k v kvs) es = parse_members m (AList.update k v kvs) es"
                using h lc lr ld l2 by (intro M) arith
              then show ?thesis
                by (simp only: unf \<open>skip_ws s = c # cs\<close> \<open>parse_chars cs = Some q\<close> q
                    \<open>skip_ws r = d # ds\<close> pv Some p2 Cons parse_case_simps)
            qed (simp only: unf \<open>skip_ws s = c # cs\<close> \<open>parse_chars cs = Some q\<close> q
                    \<open>skip_ws r = d # ds\<close> pv Some p2 parse_case_simps)
          qed (simp only: unf \<open>skip_ws s = c # cs\<close> \<open>parse_chars cs = Some q\<close> q
                    \<open>skip_ws r = d # ds\<close> pv parse_case_simps)
        qed (simp only: unf \<open>skip_ws s = c # cs\<close> \<open>parse_chars cs = Some q\<close> q parse_case_simps)
      qed (simp only: unf \<open>skip_ws s = c # cs\<close> parse_case_simps)
    qed (simp only: unf parse_case_simps)
  qed
qed

lemma parse_number_num: "parse_number s = Some (v, r) \<Longrightarrow> json_wf v"
  by (auto simp: parse_number_def Let_def split: if_splits prod.splits)

section \<open>The parser returns JSON values\<close>

lemma json_wf_update:
  "json_wf (JObj kvs) \<Longrightarrow> json_wf v \<Longrightarrow> json_wf (JObj (AList.update k v kvs))"
  using set_update_subset [of k v kvs] by (fastforce simp: distinct_update list_all_iff)

lemma parse_wf:
  "parse_value n s = Some (v, r) \<Longrightarrow> json_wf v"
  "parse_elems n acc s = Some (v, r) \<Longrightarrow> list_all json_wf acc \<Longrightarrow> json_wf v"
  "parse_members n kvs s = Some (v, r) \<Longrightarrow> json_wf (JObj kvs) \<Longrightarrow> json_wf v"
proof (induction n s and n acc s and n kvs s arbitrary: v r and v r and v r rule: parse_value_parse_elems_parse_members.induct)
  case (2 f s)
  then show ?case
    by (auto split: list.splits if_splits option.splits prod.splits dest: parse_number_num)
next
  case (4 f acc s)
  obtain v0 r0 where pv: "parse_value f s = Some (v0, r0)"
    using "4.prems"(1) by (auto split: option.splits)
  have w0: "json_wf v0" using "4.IH"(1) pv by blast
  show ?case
  proof (cases "skip_ws r0")
    case Nil
    then show ?thesis using "4.prems"(1) pv by simp
  next
    case (Cons e es)
    show ?thesis
    proof (cases "e = CHR '',''")
      case True
      then have "parse_elems f (acc @ [v0]) es = Some (v, r)" using "4.prems"(1) pv Cons by simp
      moreover have "list_all json_wf (acc @ [v0])" using "4.prems"(2) w0 by simp
      ultimately show ?thesis using "4.IH"(2) pv Cons True by blast
    next
      case False
      then show ?thesis using "4.prems" pv Cons w0 by (auto split: if_splits)
    qed
  qed
next
  case (6 f kvs s)
  obtain c cs k r1 ds v0 r2 e es where
    s: "skip_ws s = c # cs" "c = CHR 0x22" "parse_chars cs = Some (k, r1)" "skip_ws r1 = CHR '':'' # ds"
      "parse_value f ds = Some (v0, r2)" "skip_ws r2 = e # es"
    using "6.prems"(1) by (auto split: list.splits if_splits option.splits)
  have w0: "json_wf v0" using "6.IH"(1) s by blast
  have wu: "json_wf (JObj (AList.update k v0 kvs))" using "6.prems"(2) w0 by (rule json_wf_update)
  show ?case
  proof (cases "e = CHR '',''")
    case True
    then have "parse_members f (AList.update k v0 kvs) es = Some (v, r)" using "6.prems"(1) s by simp
    then show ?thesis using "6.IH"(2) s True wu by blast
  next
    case False
    then show ?thesis using "6.prems"(1) s wu by (auto split: if_splits)
  qed
qed simp_all

lemma json_parse_SomeD: "json_parse s = Some v \<Longrightarrow> \<exists>r. parse_value (2 * length s + 2) s = Some (v, r)"
  unfolding json_parse_def by (auto split: option.splits if_splits simp del: parse_value.simps)

lemma json_parse_wf: "json_parse s = Some v \<Longrightarrow> json_wf v"
  using json_parse_SomeD parse_wf(1) by blast

lemma parse_value_fuel_add: "2 * length s + 1 \<le> n \<Longrightarrow> parse_value (n + k) s = parse_value n s"
proof (induction k)
  case (Suc k)
  then show ?case using parse_fuel_stable [of s "n + k"] by simp
qed simp

lemma json_parse_fuel:
  "json_parse s =
     (case parse_value (2 * length s + 2 + k) s of
        Some (v, r) \<Rightarrow> if skip_ws r = [] then Some v else None
      | None \<Rightarrow> None)"
proof -
  have "parse_value (2 * length s + 2 + k) s = parse_value (2 * length s + 2) s"
    by (rule parse_value_fuel_add) simp
  then show ?thesis by (simp only: json_parse_def)
qed

end
