(* ===== verification/Transport.thy ===== *)
theory Transport
  imports JsonFuel
begin

text \<open>
  The transport adapter: \<open>src/services/api.ts\<close>.  The file creates one axios
  instance (\<open>api\<close>, base URL \<open>http://localhost:8080\<close>, JSON content type) and
  four request functions over it.  An asynchronous request function is split
  at its \<open>await\<close>: the request it dispatches (\<open>*_req\<close>, what happens
  before the network) and the settlement of the promise from the network's
  answer (\<open>axios_settle\<close>, what happens after).  Their composition over a
  network function \<open>net\<close> is the whole call (\<open>generateDocuments net d\<close>).
  The parts of axios the file relies on are modelled from axios's documented
  behaviour: \<open>buildFullPath\<close>/\<open>combineURLs\<close>, the JSON request
  transformation, \<open>validateStatus\<close> (2xx resolves) and the default response
  transformation (silent JSON parsing).
\<close>

section \<open>HTTP requests and outcomes\<close>

datatype http_method = GET | POST

text \<open>\<open>responseType\<close>: unset (the default) or \<open>'blob'\<close>.\<close>

datatype response_type = RT_default | RT_blob

record http_request =
  req_method :: http_method
  req_url :: string
  req_headers :: "(string \<times> string) list"
  req_body :: "blob option"
  req_response_type :: response_type

text \<open>What the network gives back for a request: nothing (connection refused,
  CORS, abort) or a status and a body.\<close>

datatype http_outcome = NoResponse | Response nat blob

text \<open>The rejection reasons of an axios promise.\<close>

datatype axios_error = NetworkError | HttpError nat blob

section \<open>The axios instance of api.ts\<close>

record axios_instance =
  baseURL :: string
  inst_headers :: "(string \<times> string) list"

definition API_BASE_URL :: string where
  "API_BASE_URL = ''http://localhost:8080''"

definition api :: axios_instance where
  "api = \<lparr>baseURL = API_BASE_URL, inst_headers = [(''Content-Type'', ''application/json'')]\<rparr>"

section \<open>Request construction (axios)\<close>

text \<open>\<open>isAbsoluteURL\<close>: \<open>/^([a-z][a-z\d+\-.]*:)?\/\//i\<close>.\<close>

definition is_scheme_char :: "char \<Rightarrow> bool" where
  "is_scheme_char c \<longleftrightarrow> is_alpha c \<or> is_digit c \<or> c \<in> {CHR ''+'', CHR ''-'', CHR ''.''}"

definition is_absolute_url :: "string \<Rightarrow> bool" where
  "is_absolute_url u \<longleftrightarrow>
     take 2 u = ''//'' \<or>
     (u \<noteq> [] \<and> is_alpha (hd u) \<and>
      (let rest = dropWhile is_scheme_char (tl u) in take 3 rest = '':://''))"

text \<open>\<open>combineURLs\<close>: \<open>base.replace(/\/?\/$/, '') + '/' + rel.replace(/^\/+/, '')\<close>.\<close>

definition strip_trailing_slashes :: "string \<Rightarrow> string" where
  "strip_trailing_slashes b =
     (if rev (take 2 (rev b)) = ''//'' then butlast (butlast b)
      else if b \<noteq> [] \<and> last b = CHR ''/'' then butlast b else b)"

definition combine_urls :: "string \<Rightarrow> string \<Rightarrow> string" where
  "combine_urls base rel =
     (if rel = [] then base
      else strip_trailing_slashes base @ ''/'' @ dropWhile (\<lambda>c. c = CHR ''/'') rel)"

definition build_full_path :: "string \<Rightarrow> string \<Rightarrow> string" where
  "build_full_path base url =
     (if base \<noteq> [] \<and> \<not> is_absolute_url url then combine_urls base url else url)"

text \<open>
  A request through an instance: headers are axios's default \<open>Accept\<close>
  followed by the instance's; the data is serialised by \<open>JSON.stringify\<close>;
  without a body the \<open>Content-Type\<close> header is removed (xhr adapter).
  Characters go on the wire as bytes.
\<close>

definition axios_request ::
  "axios_instance \<Rightarrow> http_method \<Rightarrow> string \<Rightarrow> jsval \<Rightarrow> response_type \<Rightarrow> http_request" where
  "axios_request inst m url data rt =
     (let body = json_stringify data;
          hs = (''Accept'', ''application/json, text/plain, */*'') # inst_headers inst
      in \<lparr>req_method = m,
          req_url = build_full_path (baseURL inst) url,
          req_headers = (if body = None then filter (\<lambda>h. fst h \<noteq> ''Content-Type'') hs else hs),
          req_body = map_option (map byte_of_char) body,
          req_response_type = rt\<rparr>)"

section \<open>Settlement (axios)\<close>

text \<open>
  Default response transformation: the body is read as text; a non-empty text
  is run through \<open>JSON.parse\<close>, and when that fails the text itself is the
  data (\<open>silentJSONParsing\<close>); an empty text stays the empty string.  With
  \<open>responseType: 'blob'\<close> the data is the body as a \<open>Blob\<close>.
\<close>

definition transform_response :: "response_type \<Rightarrow> blob \<Rightarrow> jsval" where
  "transform_response rt body =
     (case rt of
        RT_blob \<Rightarrow> JBlob body
      | RT_default \<Rightarrow>
          (let text = map char_of_byte body in
           if text = [] then JStr []
           else (case json_parse text of Some v \<Rightarrow> v | None \<Rightarrow> JStr text)))"

text \<open>\<open>validateStatus\<close>: \<open>status >= 200 && status < 300\<close>.\<close>

definition axios_settle :: "response_type \<Rightarrow> http_outcome \<Rightarrow> axios_error + jsval" where
  "axios_settle rt out =
     (case out of
        NoResponse \<Rightarrow> Inl NetworkError
      | Response st body \<Rightarrow>
          if 200 \<le> st \<and> st < 300 then Inr (transform_response rt body)
          else Inl (HttpError st body))"

section \<open>The request functions of api.ts\<close>

record UserInfo =
  name :: string
  email :: string
  phone :: string
  skills :: string
  experience :: string
  education :: string
  job_description :: string
  linkedin_profile_url :: "string option"

text \<open>The object \<open>data\<close> at run time; an absent optional property is \<open>undefined\<close>.\<close>

definition userinfo_js :: "UserInfo \<Rightarrow> jsval" where
  "userinfo_js d = JObj
     [(''name'', JStr (name d)), (''email'', JStr (email d)), (''phone'', JStr (phone d)),
      (''skills'', JStr (skills d)), (''experience'', JStr (experience d)),
      (''education'', JStr (education d)), (''job_description'', JStr (job_description d)),
      (''linkedin_profile_url'', case linkedin_profile_url d of None \<Rightarrow> JUndefined | Some u \<Rightarrow> JStr u)]"

text \<open>The response interfaces the request functions declare as their
  result type.  TypeScript checks them at compile time only: the run-time
  value is whatever \<open>response.data\<close> is, so each interface is a predicate on
  values, an object carrying each declared property as a string (further
  properties are allowed, as with structural typing).\<close>

definition has_string_prop :: "jsval \<Rightarrow> string \<Rightarrow> bool" where
  "has_string_prop v k \<longleftrightarrow> (case get_prop v k of Inr (JStr s) \<Rightarrow> True | _ \<Rightarrow> False)"

definition is_GenerateDocumentsResponse :: "jsval \<Rightarrow> bool" where
  "is_GenerateDocumentsResponse v \<longleftrightarrow>
     list_all (has_string_prop v) [''cv_path'', ''cover_letter_path'', ''cv_preview'', ''cover_letter_preview'']"

definition is_ApplyJobResponse :: "jsval \<Rightarrow> bool" where
  "is_ApplyJobResponse v \<longleftrightarrow> has_string_prop v ''message''"

definition is_UpdateProfileResponse :: "jsval \<Rightarrow> bool" where
  "is_UpdateProfileResponse v \<longleftrightarrow> has_string_prop v ''message'' \<and> has_string_prop v ''profile_suggestions''"

definition generateDocuments_req :: "UserInfo \<Rightarrow> http_request" where
  "generateDocuments_req data = axios_request api POST ''/generate-documents'' (userinfo_js data) RT_default"

definition applyJob_req :: "string \<Rightarrow> http_request" where
  "applyJob_req jobUrl = axios_request api POST ''/apply-job'' (JObj [(''job_url'', JStr jobUrl)]) RT_default"

definition updateProfile_req :: "string \<Rightarrow> http_request" where
  "updateProfile_req profileUrl =
     axios_request api POST ''/update-profile'' (JObj [(''profile_url'', JStr profileUrl)]) RT_default"

text \<open>The template literal converts the file name with \<open>String\<close>; nothing encodes it.\<close>

definition downloadFile_req :: "jsval \<Rightarrow> http_request" where
  "downloadFile_req filename = axios_request api GET (''/download/'' @ js_to_string filename) JUndefined RT_blob"

text \<open>The whole asynchronous calls, over a network that answers each request.\<close>

definition generateDocuments :: "(http_request \<Rightarrow> http_outcome) \<Rightarrow> UserInfo \<Rightarrow> axios_error + jsval" where
  "generateDocuments net data = axios_settle RT_default (net (generateDocuments_req data))"

definition applyJob :: "(http_request \<Rightarrow> http_outcome) \<Rightarrow> string \<Rightarrow> axios_error + jsval" where
  "applyJob net jobUrl = axios_settle RT_default (net (applyJob_req jobUrl))"

definition updateProfile :: "(http_request \<Rightarrow> http_outcome) \<Rightarrow> string \<Rightarrow> axios_error + jsval" where
  "updateProfile net profileUrl = axios_settle RT_default (net (updateProfile_req profileUrl))"

definition downloadFile :: "(http_request \<Rightarrow> http_outcome) \<Rightarrow> jsval \<Rightarrow> axios_error + jsval" where
  "downloadFile net filename = axios_settle RT_blob (net (downloadFile_req filename))"

section \<open>Lemmas\<close>

lemma is_absolute_url_slash_path:
  "take 2 u \<noteq> ''//'' \<Longrightarrow> u \<noteq> [] \<Longrightarrow> hd u = CHR ''/'' \<Longrightarrow> \<not> is_absolute_url u"
  by (simp add: is_absolute_url_def is_alpha_def)

text \<open>A path of api.ts (one leading slash) is appended to the base URL.\<close>

lemma build_full_path_api:
  assumes "take 2 u \<noteq> ''//''" and "u \<noteq> []" and "hd u = CHR ''/''"
  shows "build_full_path API_BASE_URL u = API_BASE_URL @ u"
proof -
  obtain r where u: "u = CHR ''/'' # r" and r: "r = [] \<or> hd r \<noteq> CHR ''/''"
    using assms by (cases u; cases "tl u") auto
  from r have "dropWhile (\<lambda>c. c = CHR ''/'') r = r" by (cases r) auto
  with assms u show ?thesis
    by (simp add: build_full_path_def is_absolute_url_slash_path combine_urls_def
        strip_trailing_slashes_def API_BASE_URL_def)
qed

lemmas request_shape_simps [transport_simps] =
  axios_request_def build_full_path_api json_stringify_def api_def

lemma req_body_obj:
  "v = JObj kvs \<Longrightarrow> req_body (axios_request inst m p v rt) = Some (map byte_of_char (json_ser v))"
  by (simp add: axios_request_def json_stringify_def Let_def)

lemma json_ser_obj_defined:
  "json_ser (JObj kvs) = json_ser (JObj (filter (\<lambda>kv. snd kv \<noteq> JUndefined) kvs))"
  by simp

lemma json_ser_nonempty: "json_ser v \<noteq> []"
  using json_ser_start [of v] by simp

lemma transform_response_default_wf: "json_wf (transform_response RT_default b)"
  by (auto simp: transform_response_def Let_def json_parse_wf split: option.splits)

lemma settle_default_wf: "(case axios_settle RT_default out of Inr v \<Rightarrow> json_wf v | Inl e \<Rightarrow> True)"
  by (simp add: axios_settle_def transform_response_default_wf split: http_outcome.splits)

lemma has_string_propE:
  assumes "has_string_prop v k"
  obtains t where "get_prop v k = Inr (JStr t)"
  using assms by (auto simp: has_string_prop_def split: sum.splits jsval.splits)

lemma generateDocuments_req_rt [simp]: "req_response_type (generateDocuments_req d) = RT_default"
  by (simp add: generateDocuments_req_def axios_request_def Let_def)

lemma downloadFile_req_rt [simp]: "req_response_type (downloadFile_req f) = RT_blob"
  by (simp add: downloadFile_req_def axios_request_def Let_def)

lemma axios_settle_non_2xx:
  "\<not> (200 \<le> st \<and> st < 300) \<Longrightarrow> axios_settle rt (Response st b) = Inl (HttpError st b)"
  by (simp add: axios_settle_def)

lemma json_parse_Nil [simp]: "json_parse [] = None"
  by code_simp

section \<open>Properties\<close>

text \<open>C17: the three operations POST a JSON body, with a JSON content type,
  to their fixed paths under the base endpoint; the body is the serialisation
  of exactly the object the function builds.\<close>

theorem post_requests_shape:
  "req_method (applyJob_req u) = POST \<and>
   req_url (applyJob_req u) = ''http://localhost:8080/apply-job'' \<and>
   req_body (applyJob_req u) = Some (map byte_of_char (json_ser (JObj [(''job_url'', JStr u)]))) \<and>
   (''Content-Type'', ''application/json'') \<in> set (req_headers (applyJob_req u)) \<and>
   req_method (updateProfile_req u) = POST \<and>
   req_url (updateProfile_req u) = ''http://localhost:8080/update-profile'' \<and>
   req_body (updateProfile_req u) = Some (map byte_of_char (json_ser (JObj [(''profile_url'', JStr u)]))) \<and>
   (''Content-Type'', ''application/json'') \<in> set (req_headers (updateProfile_req u)) \<and>
   req_method (generateDocuments_req d) = POST \<and>
   req_url (generateDocuments_req d) = ''http://localhost:8080/generate-documents'' \<and>
   req_body (generateDocuments_req d) = Some (map byte_of_char (json_ser (userinfo_js d))) \<and>
   (''Content-Type'', ''application/json'') \<in> set (req_headers (generateDocuments_req d))"
  by (simp add: applyJob_req_def updateProfile_req_def generateDocuments_req_def transport_simps
      userinfo_js_def) (simp add: API_BASE_URL_def)

text \<open>A download is a GET of the base endpoint's \<open>/download/\<close>
  followed by the file name as \<open>String\<close> prints it, with no body and no
  \<open>Content-Type\<close>, read as a \<open>Blob\<close>; nothing encodes the file name.\<close>

theorem downloadFile_req_shape:
  "req_method (downloadFile_req f) = GET \<and>
   req_url (downloadFile_req f) = ''http://localhost:8080/download/'' @ js_to_string f \<and>
   req_body (downloadFile_req f) = None \<and>
   filter (\<lambda>h. fst h = ''Content-Type'') (req_headers (downloadFile_req f)) = [] \<and>
   req_response_type (downloadFile_req f) = RT_blob"
  by (simp add: downloadFile_req_def transport_simps) (simp add: API_BASE_URL_def)

text \<open>C15: each of the three operations resolves exactly when its request
  is answered with a 2xx status, whatever the body: \<open>api.ts\<close> returns
  \<open>response.data\<close> with no decode step, so no answer of the wrong shape
  is ever a failure; no response and a non-2xx status reject.\<close>

theorem axios_settle_resolves_iff:
  "((\<exists>v. applyJob net u = Inr v) \<longleftrightarrow> (\<exists>st b. net (applyJob_req u) = Response st b \<and> 200 \<le> st \<and> st < 300)) \<and>
   ((\<exists>v. updateProfile net u = Inr v) \<longleftrightarrow> (\<exists>st b. net (updateProfile_req u) = Response st b \<and> 200 \<le> st \<and> st < 300)) \<and>
   ((\<exists>v. generateDocuments net d = Inr v) \<longleftrightarrow>
      (\<exists>st b. net (generateDocuments_req d) = Response st b \<and> 200 \<le> st \<and> st < 300))"
  by (auto simp: applyJob_def updateProfile_def generateDocuments_def axios_settle_def split: http_outcome.splits)

text \<open>C16: a download resolves exactly on a 2xx response, and then to a
  \<open>Blob\<close> holding exactly the bytes of the response body.\<close>

theorem downloadFile_blob:
  "downloadFile net f = Inr d \<longleftrightarrow>
   (\<exists>st b. net (downloadFile_req f) = Response st b \<and> 200 \<le> st \<and> st < 300 \<and> d = JBlob b)"
  by (auto simp: downloadFile_def axios_settle_def transform_response_def split: http_outcome.splits)

text \<open>C25: what the service receives for an application is exactly the job
  URL the user entered: the request body parses back to \<open>{job_url}\<close> for
  every string.\<close>

theorem applyJob_wire_roundtrip:
  "json_parse (map char_of_byte (the (req_body (applyJob_req u)))) = Some (JObj [(''job_url'', JStr u)])"
  using json_parse_json_ser [of "JObj [(''job_url'', JStr u)]"]
  by (simp add: applyJob_req_def req_body_obj del: json_ser.simps)

text \<open>C26: what the service receives for a generation carries every field of
  the form exactly, and the optional LinkedIn URL only when it is present.\<close>

theorem generateDocuments_wire_roundtrip:
  "\<exists>kvs. json_parse (map char_of_byte (the (req_body (generateDocuments_req d)))) = Some (JObj kvs) \<and>
     map_of kvs ''name'' = Some (JStr (name d)) \<and> map_of kvs ''email'' = Some (JStr (email d)) \<and>
     map_of kvs ''phone'' = Some (JStr (phone d)) \<and> map_of kvs ''skills'' = Some (JStr (skills d)) \<and>
     map_of kvs ''experience'' = Some (JStr (experience d)) \<and>
     map_of kvs ''education'' = Some (JStr (education d)) \<and>
     map_of kvs ''job_description'' = Some (JStr (job_description d)) \<and>
     map_of kvs ''linkedin_profile_url'' = map_option JStr (linkedin_profile_url d)"
proof -
  let ?kvs = "filter (\<lambda>kv. snd kv \<noteq> JUndefined)
     (case userinfo_js d of JObj kvs \<Rightarrow> kvs | _ \<Rightarrow> [])"
  have obj: "userinfo_js d = JObj (case userinfo_js d of JObj kvs \<Rightarrow> kvs | _ \<Rightarrow> [])"
    by (simp add: userinfo_js_def)
  have wf: "json_wf (JObj ?kvs)"
    by (cases "linkedin_profile_url d") (simp_all add: userinfo_js_def)
  have "json_parse (json_ser (userinfo_js d)) = Some (JObj ?kvs)"
    using json_parse_json_ser [OF wf] obj json_ser_obj_defined by metis
  moreover have "req_body (generateDocuments_req d) = Some (map byte_of_char (json_ser (userinfo_js d)))"
    unfolding generateDocuments_req_def by (rule req_body_obj [OF obj])
  ultimately show ?thesis
    by (cases "linkedin_profile_url d") (simp_all add: userinfo_js_def)
qed

text \<open>The specification's mocked round trip, for every job URL and every
  message: a transport that answers \<open>{message}\<close> with status 200 makes
  \<open>applyJob\<close> resolve to exactly that object.\<close>

theorem applyJob_mock_echo:
  "applyJob (\<lambda>rq. Response 200 (map byte_of_char (json_ser (JObj [(''message'', JStr m)])))) u =
     Inr (JObj [(''message'', JStr m)])"
  using json_parse_json_ser [of "JObj [(''message'', JStr m)]"] json_ser_nonempty [of "JObj [(''message'', JStr m)]"]
  by (simp add: applyJob_def axios_settle_def transform_response_def)

end
