(* ===== verification/Browser.thy ===== *)
theory Browser
  imports JsValue
begin

text \<open>
  The parts of the browser and of the UI kit that the pages' code relies on:
  \<^item> the notification sink \<open>toast({title, description, variant})\<close> of
    \<open>@/hooks/use-toast\<close>, modelled as a log of the calls;
  \<^item> HTML form semantics for the JSX attributes the pages set: value
    sanitisation of \<open><input></\<close> and \<open><textarea></\<close> (what
    \<open>e.target.value\<close> is), constraint validation of \<open>required\<close> and
    \<open>type="email"\<close> (whether \<open>onSubmit\<close> fires at all);
  \<^item> the host objects \<open>handleDownload\<close> uses: blob URLs
    (\<open>URL.createObjectURL\<close>/\<open>revokeObjectURL\<close>), the children of
    \<open>document.body\<close>, and the save-as a click on an anchor with a
    \<open>download\<close> attribute starts;
  \<^item> React's rendering of a value as a child (\<open>render_child\<close>).
\<close>

section \<open>Notifications\<close>

datatype toast_variant = ToastDefault | ToastDestructive

record toast =
  title :: string
  description :: jsval
  variant :: toast_variant

definition success_toast :: "string \<Rightarrow> jsval \<Rightarrow> toast" where
  "success_toast t d = \<lparr>title = t, description = d, variant = ToastDefault\<rparr>"

definition error_toast :: "string \<Rightarrow> toast" where
  "error_toast d = \<lparr>title = ''Error'', description = JStr d, variant = ToastDestructive\<rparr>"

section \<open>Form controls\<close>

definition LF :: char where "LF = CHR 0x0A"
definition CR :: char where "CR = CHR 0x0D"

definition is_ascii_ws :: "char \<Rightarrow> bool" where
  "is_ascii_ws c \<longleftrightarrow> c \<in> {CHR 0x09, CHR 0x0A, CHR 0x0C, CHR 0x0D, CHR 0x20}"

text \<open>Value sanitisation of \<open><input type="text"></\<close>: strip newlines.\<close>

definition strip_newlines :: "string \<Rightarrow> string" where
  "strip_newlines v = filter (\<lambda>c. c \<noteq> LF \<and> c \<noteq> CR) v"

text \<open>Value sanitisation of \<open><input type="email"></\<close>: strip newlines, then
  leading and trailing ASCII white space.\<close>

definition strip_ascii_ws :: "string \<Rightarrow> string" where
  "strip_ascii_ws v = rev (dropWhile is_ascii_ws (rev (dropWhile is_ascii_ws v)))"

definition sanitize_email :: "string \<Rightarrow> string" where
  "sanitize_email v = strip_ascii_ws (strip_newlines v)"

text \<open>The API value of a \<open><textarea></\<close>: CR LF and lone CR become LF.\<close>

fun normalize_newlines :: "string \<Rightarrow> string" where
  "normalize_newlines [] = []"
| "normalize_newlines (c # cs) =
     (if c = CR then LF # normalize_newlines (if cs \<noteq> [] \<and> hd cs = LF then tl cs else cs)
      else c # normalize_newlines cs)"

text \<open>The kinds of control the pages use, and what \<open>e.target.value\<close> is
  after the user has entered \<open>v\<close>.\<close>

datatype control = TextInput | EmailInput | TextArea

fun control_value :: "control \<Rightarrow> string \<Rightarrow> string" where
  "control_value TextInput v = strip_newlines v"
| "control_value EmailInput v = sanitize_email v"
| "control_value TextArea v = normalize_newlines v"

subsection \<open>Constraint validation\<close>

text \<open>\<open>required\<close> on a text control: the value is missing when it is empty.\<close>

definition value_missing :: "string \<Rightarrow> bool" where
  "value_missing v \<longleftrightarrow> v = []"

fun split_on :: "char \<Rightarrow> string \<Rightarrow> string list" where
  "split_on d [] = [[]]"
| "split_on d (c # cs) =
     (if c = d then [] # split_on d cs
      else (let ws = split_on d cs in (c # hd ws) # tl ws))"

definition is_atext :: "char \<Rightarrow> bool" where
  "is_atext c \<longleftrightarrow> is_alpha c \<or> is_digit c \<or> c \<in> set ''.!#$%&'*+/=?^_`{|}~-''"

definition is_let_dig :: "char \<Rightarrow> bool" where
  "is_let_dig c \<longleftrightarrow> is_alpha c \<or> is_digit c"

definition valid_label :: "string \<Rightarrow> bool" where
  "valid_label l \<longleftrightarrow>
     l \<noteq> [] \<and> length l \<le> 63 \<and> (\<forall>c \<in> set l. is_let_dig c \<or> c = CHR ''-'') \<and>
     is_let_dig (hd l) \<and> is_let_dig (last l)"

text \<open>A \<^emph>\<open>valid e-mail address\<close> of the HTML standard.\<close>

definition valid_email_address :: "string \<Rightarrow> bool" where
  "valid_email_address s \<longleftrightarrow>
     (let lp = takeWhile (\<lambda>c. c \<noteq> CHR ''@'') s; rest = dropWhile (\<lambda>c. c \<noteq> CHR ''@'') s
      in lp \<noteq> [] \<and> (\<forall>c \<in> set lp. is_atext c) \<and> rest \<noteq> [] \<and>
         list_all valid_label (split_on (CHR ''.'') (tl rest)))"

text \<open>\<open>type="email"\<close> suffers a type mismatch when a non-empty value is not an address.\<close>

definition type_mismatch_email :: "string \<Rightarrow> bool" where
  "type_mismatch_email v \<longleftrightarrow> v \<noteq> [] \<and> \<not> valid_email_address v"

section \<open>Values as React children\<close>

text \<open>
  What React renders for a value placed in JSX (\<open>{v}\<close>): strings and
  numbers as their text, \<open>null\<close>, \<open>undefined\<close> and booleans as nothing,
  an array as its elements one after the other; any other object throws
  \<open>Objects are not valid as a React child\<close>, and with no error boundary the
  whole page is unmounted.  \<open>{c && (<el/>)}\<close> renders the element when
  \<open>c\<close> is truthy and otherwise renders \<open>c\<close> itself: \<open>0\<close> shows as text.
  An exception thrown while the JSX expression is evaluated (a property read
  of \<open>null\<close>) unmounts the page the same way (\<open>RenderThrew\<close>).
\<close>

datatype react_exn = ObjectsNotValidChild | RenderThrew js_exn

fun join_rendered :: "(react_exn + string) list \<Rightarrow> react_exn + string" where
  "join_rendered [] = Inr []"
| "join_rendered (Inl e # rs) = Inl e"
| "join_rendered (Inr t # rs) = (case join_rendered rs of Inl e \<Rightarrow> Inl e | Inr u \<Rightarrow> Inr (t @ u))"

fun render_child :: "jsval \<Rightarrow> react_exn + string" where
  "render_child JUndefined = Inr []"
| "render_child JNull = Inr []"
| "render_child (JBool b) = Inr []"
| "render_child (JNum n) = Inr (dec_int n)"
| "render_child (JStr s) = Inr s"
| "render_child (JArr vs) = join_rendered (map render_child vs)"
| "render_child (JObj kvs) = Inl ObjectsNotValidChild"
| "render_child (JBlob b) = Inl ObjectsNotValidChild"

datatype rendered = NothingShown | FalsyText string | Shown string

definition render_and :: "jsval \<Rightarrow> (react_exn + string) \<Rightarrow> react_exn + rendered" where
  "render_and c el =
     (if truthy c then (case el of Inl e \<Rightarrow> Inl e | Inr t \<Rightarrow> Inr (Shown t))
      else (case render_child c of
              Inl e \<Rightarrow> Inl e
            | Inr t \<Rightarrow> Inr (if t = [] then NothingShown else FalsyText t)))"

text \<open>\<open>{v.k}\<close>: the property read, then the value rendered as a child.\<close>

definition render_prop :: "jsval \<Rightarrow> string \<Rightarrow> react_exn + string" where
  "render_prop v k = (case get_prop v k of Inl e \<Rightarrow> Inl (RenderThrew e) | Inr x \<Rightarrow> render_child x)"

section \<open>Host objects used by downloads\<close>

text \<open>
  Blob URLs alive in the document, the ids of the children of
  \<open>document.body\<close>, the files handed to the browser's save-as, and the
  counters that give fresh URLs and elements.
\<close>

record host =
  object_urls :: "(nat \<times> blob) list"
  next_url :: nat
  body_children :: "nat list"
  next_elem :: nat
  saves :: "(string \<times> blob) list"

definition host0 :: host where
  "host0 = \<lparr>object_urls = [], next_url = 0, body_children = [], next_elem = 0, saves = []\<rparr>"

datatype dom_exn = NotFoundError

definition create_object_url :: "blob \<Rightarrow> host \<Rightarrow> nat \<times> host" where
  "create_object_url b h =
     (next_url h, h\<lparr>object_urls := object_urls h @ [(next_url h, b)], next_url := Suc (next_url h)\<rparr>)"

definition revoke_object_url :: "nat \<Rightarrow> host \<Rightarrow> host" where
  "revoke_object_url u h = h\<lparr>object_urls := filter (\<lambda>p. fst p \<noteq> u) (object_urls h)\<rparr>"

definition create_anchor :: "host \<Rightarrow> nat \<times> host" where
  "create_anchor h = (next_elem h, h\<lparr>next_elem := Suc (next_elem h)\<rparr>)"

definition append_child :: "nat \<Rightarrow> host \<Rightarrow> host" where
  "append_child e h = h\<lparr>body_children := body_children h @ [e]\<rparr>"

text \<open>\<open>removeChild\<close> of a node that is not a child throws.\<close>

definition remove_child :: "nat \<Rightarrow> host \<Rightarrow> dom_exn + host" where
  "remove_child e h =
     (if e \<in> set (body_children h) then Inr (h\<lparr>body_children := remove1 e (body_children h)\<rparr>)
      else Inl NotFoundError)"

text \<open>
  \<open>a.click()\<close> on an anchor whose \<open>href\<close> is the blob URL \<open>u\<close> and
  whose \<open>download\<close> attribute is \<open>name\<close>: the URL is resolved when the
  click is dispatched, and the blob it names is handed to save-as under
  \<open>name\<close>; a URL that is not alive resolves to nothing and saves nothing.
\<close>

definition click_download :: "nat \<Rightarrow> string \<Rightarrow> host \<Rightarrow> host" where
  "click_download u name h =
     (case map_of (object_urls h) u of
        Some b \<Rightarrow> h\<lparr>saves := saves h @ [(name, b)]\<rparr>
      | None \<Rightarrow> h)"

section \<open>Lemmas\<close>

text \<open>\<open>{c && <el>{c}</el>}\<close> throws exactly when \<open>c\<close> cannot be rendered.\<close>

lemma render_and_isl [simp]: "isl (render_and c (render_child c)) = isl (render_child c)"
  by (simp add: render_and_def split: sum.split)

end
