(* ===== verification/Lifecycle.thy ===== *)
theory Lifecycle
  imports Browser
begin

text \<open>
  The operation lifecycle the specification asks of every operation view
  (spec section 4.3): \<open>idle\<close>, \<open>pending\<close>, \<open>success\<close> carrying the
  result, \<open>failure\<close>; a submission moves any non-pending state to
  \<open>pending\<close> and is rejected while pending; a resolution ends the pending
  attempt and is reported once.  The pages refine this machine
  (theorems \<open>*_refines_op_spec\<close> in the page theories), and the helpers on
  the set of outstanding requests that all pages share live here too.
\<close>

section \<open>Abstract operation state machine\<close>

datatype 'a op_state = Idle | Pending | Success 'a | Failure

datatype 'a op_event = OpStutter | OpSubmit | OpResolve "'a option"

fun op_step :: "'a op_state \<Rightarrow> 'a op_event \<Rightarrow> 'a op_state" where
  "op_step s OpStutter = s"
| "op_step s OpSubmit = Pending"
| "op_step Pending (OpResolve r) = (case r of Some a \<Rightarrow> Success a | None \<Rightarrow> Failure)"
| "op_step s (OpResolve r) = s"

fun op_run :: "'a op_state \<Rightarrow> 'a op_event list \<Rightarrow> 'a op_state" where
  "op_run s [] = s"
| "op_run s (e # es) = op_run (op_step s e) es"

text \<open>What the abstract machine reports: one notification per resolution of a pending attempt.\<close>

fun op_reports :: "'a op_state \<Rightarrow> 'a op_event \<Rightarrow> nat" where
  "op_reports Pending (OpResolve r) = 1"
| "op_reports s e = 0"

section \<open>Outstanding requests\<close>

text \<open>A settled promise leaves the list of outstanding requests.\<close>

definition remove_nth :: "nat \<Rightarrow> 'a list \<Rightarrow> 'a list" where
  "remove_nth i xs = take i xs @ drop (Suc i) xs"

section \<open>Lemmas\<close>

lemma length_remove_nth_lt [simp]:
  "i < length xs \<Longrightarrow> length (remove_nth i xs) = length xs - 1"
  by (simp add: remove_nth_def)

lemma remove_nth_snoc [simp]: "remove_nth (length xs) (xs @ [x]) = xs"
  by (simp add: remove_nth_def)

lemma remove_nth_single [simp]: "remove_nth 0 [x] = []"
  by (simp add: remove_nth_def)

lemma remove_nth_length_le1:
  "length xs \<le> 1 \<Longrightarrow> i < length xs \<Longrightarrow> remove_nth i xs = []"
  by (cases xs) (auto simp: remove_nth_def)


lemma length_filter_remove_nth:
  assumes i: "i < length xs"
  shows "length (filter P (remove_nth i xs)) = length (filter P xs) - (if P (xs ! i) then 1 else 0)"
proof -
  have "filter P xs = filter P (take i xs) @ filter P [xs ! i] @ filter P (drop (Suc i) xs)"
    using i by (metis append_Cons append_self_conv2 filter_append id_take_nth_drop)
  then show ?thesis by (simp add: remove_nth_def)
qed

lemma remove_nth_map: "map f (remove_nth i xs) = remove_nth i (map f xs)"
  by (simp add: remove_nth_def take_map drop_map)

lemma distinct_remove_nth: "distinct xs \<Longrightarrow> distinct (remove_nth i xs)"
  by (simp add: remove_nth_def set_take_disj_set_drop_if_distinct)

lemma set_remove_nth:
  assumes d: "distinct xs" and i: "i < length xs"
  shows "set (remove_nth i xs) = set xs - {xs ! i}"
proof -
  have xs: "xs = take i xs @ xs ! i # drop (Suc i) xs" using i by (rule id_take_nth_drop)
  have "distinct (take i xs @ xs ! i # drop (Suc i) xs)" using d xs by metis
  then have n: "xs ! i \<notin> set (take i xs) \<union> set (drop (Suc i) xs)" by auto
  have "set xs = insert (xs ! i) (set (take i xs) \<union> set (drop (Suc i) xs))"
    using arg_cong [OF xs, of set] by simp
  then show ?thesis using n by (auto simp: remove_nth_def)
qed

lemma set_remove_nth_fst:
  "distinct (map fst xs) \<Longrightarrow> i < length xs \<Longrightarrow>
   set (map fst (remove_nth i xs)) = set (map fst xs) - {fst (xs ! i)}"
  using set_remove_nth [of "map fst xs" i] by (simp add: remove_nth_map)

lemma set_remove_nth_subset: "set (remove_nth i xs) \<subseteq> set xs"
  by (auto simp: remove_nth_def dest: in_set_takeD in_set_dropD)

end
