(* ===== verification/ApplyJob.thy ===== *)
theory ApplyJob
  imports Transport Lifecycle
begin

text \<open>
  The job-application view, \<open>src/pages/ApplyJob.tsx\<close>.  Its React state
  (\<open>loading\<close>, \<open>jobUrl\<close>, \<open>message\<close>) is the record \<open>applyjob\<close>.
  The view runs in a system \<open>aj_sys\<close> that also holds the requests still
  outstanding on the network, every request the view has dispatched, and the
  toasts it has issued.  Events are the user's input, the form's submission
  (which the browser only dispatches when the button is enabled and the
  \<open>required\<close> field is filled), and the settlement of an outstanding request
  with whatever the network answered; \<open>aj_step\<close> runs one event,
  \<open>aj_run\<close> a schedule of them.
  \<open>handleSubmit\<close> is split at its \<open>await\<close>: \<open>aj_handleSubmit\<close> is the
  synchronous part up to the dispatch of the request, \<open>aj_resume\<close> the
  \<open>try\<close>/\<open>catch\<close>/\<open>finally\<close> that runs when the promise settles.
  \<open>aj_render_banner\<close> is what the page shows for its \<open>message\<close>.
\<close>

section \<open>State and handlers\<close>

record applyjob =
  aj_loading :: bool
  aj_jobUrl :: string
  aj_message :: jsval

definition applyjob_init :: applyjob where
  "applyjob_init = \<lparr>aj_loading = False, aj_jobUrl = [], aj_message = JStr []\<rparr>"

text \<open>\<open>onSubmit\<close> fires only when the submit button is not \<open>disabled={loading}\<close>
  and the \<open>required\<close> job URL is not empty.\<close>

definition aj_can_submit :: "applyjob \<Rightarrow> bool" where
  "aj_can_submit p \<longleftrightarrow> \<not> aj_loading p \<and> \<not> value_missing (aj_jobUrl p)"

text \<open>\<open>setLoading(true); setMessage(''); applyJob(jobUrl)\<close> up to the \<open>await\<close>.\<close>

definition aj_handleSubmit :: "applyjob \<Rightarrow> applyjob \<times> http_request" where
  "aj_handleSubmit p = (p\<lparr>aj_loading := True, aj_message := JStr []\<rparr>, applyJob_req (aj_jobUrl p))"

definition aj_error_text :: string where
  "aj_error_text = ''Failed to process job application. Please try again.''"

text \<open>After the \<open>await\<close>: \<open>response.message\<close> is read (and throws on a
  \<open>null\<close> body), then \<open>setMessage\<close> and the success toast; any rejection or
  exception goes to \<open>catch\<close>; \<open>finally\<close> clears \<open>loading\<close>.\<close>

definition aj_resume :: "axios_error + jsval \<Rightarrow> applyjob \<Rightarrow> applyjob \<times> toast" where
  "aj_resume r p =
     (case r of
        Inl e \<Rightarrow> (p\<lparr>aj_loading := False\<rparr>, error_toast aj_error_text)
      | Inr response \<Rightarrow>
          (case get_prop response ''message'' of
             Inl exn \<Rightarrow> (p\<lparr>aj_loading := False\<rparr>, error_toast aj_error_text)
           | Inr m \<Rightarrow> (p\<lparr>aj_message := m, aj_loading := False\<rparr>, success_toast ''Success!'' m)))"

section \<open>The view among its requests\<close>

record aj_sys =
  aj_page :: applyjob
  aj_inflight :: "http_request list"
  aj_sent :: "http_request list"
  aj_toasts :: "toast list"

definition aj_init :: aj_sys where
  "aj_init = \<lparr>aj_page = applyjob_init, aj_inflight = [], aj_sent = [], aj_toasts = []\<rparr>"

datatype aj_event = AjInput string | AjSubmit | AjSettle nat http_outcome

fun aj_step :: "aj_sys \<Rightarrow> aj_event \<Rightarrow> aj_sys" where
  "aj_step s (AjInput v) =
     s\<lparr>aj_page := (aj_page s)\<lparr>aj_jobUrl := control_value TextInput v\<rparr>\<rparr>"
| "aj_step s AjSubmit =
     (if aj_can_submit (aj_page s) then
        (let (p', rq) = aj_handleSubmit (aj_page s)
         in s\<lparr>aj_page := p', aj_inflight := aj_inflight s @ [rq], aj_sent := aj_sent s @ [rq]\<rparr>)
      else s)"
| "aj_step s (AjSettle i out) =
     (if i < length (aj_inflight s) then
        (let rq = aj_inflight s ! i;
             (p', t) = aj_resume (axios_settle (req_response_type rq) out) (aj_page s)
         in s\<lparr>aj_page := p', aj_inflight := remove_nth i (aj_inflight s), aj_toasts := aj_toasts s @ [t]\<rparr>)
      else s)"

fun aj_run :: "aj_sys \<Rightarrow> aj_event list \<Rightarrow> aj_sys" where
  "aj_run s [] = s"
| "aj_run s (e # es) = aj_run (aj_step s e) es"

section \<open>Rendering\<close>

text \<open>\<open>{message && (...)}\<close>: a truthy message shows the
  \<open>Application Started\<close> banner with the message rendered as a child of
  its paragraph (\<open>Shown\<close>, which throws for an object); a falsy one
  renders nothing, except the number \<open>0\<close>, which React renders as the
  text \<open>0\<close>.\<close>

definition aj_render_banner :: "jsval \<Rightarrow> react_exn + rendered" where
  "aj_render_banner m = render_and m (render_child m)"

section \<open>Abstraction to the operation lifecycle\<close>

text \<open>The result the attempt delivers, if it succeeds: the message read from the response.\<close>

definition aj_outcome :: "axios_error + jsval \<Rightarrow> jsval option" where
  "aj_outcome r =
     (case r of
        Inl e \<Rightarrow> None
      | Inr response \<Rightarrow> (case get_prop response ''message'' of Inl exn \<Rightarrow> None | Inr m \<Rightarrow> Some m))"

text \<open>
  The lifecycle state a user sees: pending while the button shows
  \<open>Processing...\<close>, otherwise what the last toast reported, or idle before
  any.  User events map to abstract ones: a dispatched submission is
  \<open>OpSubmit\<close>, a settlement is \<open>OpResolve\<close> of its outcome, anything
  else stutters.
\<close>

definition aj_abs :: "aj_sys \<Rightarrow> jsval op_state" where
  "aj_abs s =
     (if aj_loading (aj_page s) then Pending
      else if aj_toasts s = [] then Idle
      else if variant (last (aj_toasts s)) = ToastDefault then Success (description (last (aj_toasts s)))
      else Failure)"

fun aj_abs_event :: "aj_sys \<Rightarrow> aj_event \<Rightarrow> jsval op_event" where
  "aj_abs_event s (AjInput v) = OpStutter"
| "aj_abs_event s AjSubmit = (if aj_can_submit (aj_page s) then OpSubmit else OpStutter)"
| "aj_abs_event s (AjSettle i out) =
     (if i < length (aj_inflight s)
      then OpResolve (aj_outcome (axios_settle (req_response_type (aj_inflight s ! i)) out))
      else OpStutter)"

fun aj_abs_trace :: "aj_sys \<Rightarrow> aj_event list \<Rightarrow> jsval op_event list" where
  "aj_abs_trace s [] = []"
| "aj_abs_trace s (e # es) = aj_abs_event s e # aj_abs_trace (aj_step s e) es"

section \<open>Invariant\<close>

text \<open>
  \<open>loading\<close> is set exactly while a request is outstanding, at most one
  is, and every dispatched request is outstanding or has been reported by
  exactly one toast.
\<close>

definition aj_inv :: "aj_sys \<Rightarrow> bool" where
  "aj_inv s \<longleftrightarrow>
     (aj_loading (aj_page s) \<longleftrightarrow> aj_inflight s \<noteq> []) \<and> length (aj_inflight s) \<le> 1 \<and>
     length (aj_sent s) = length (aj_toasts s) + length (aj_inflight s)"

text \<open>The message shown is the result of the last attempt when it
  succeeded, and empty otherwise.\<close>

definition aj_msg_inv :: "aj_sys \<Rightarrow> bool" where
  "aj_msg_inv s \<longleftrightarrow> aj_message (aj_page s) = (case aj_abs s of Success m \<Rightarrow> m | _ \<Rightarrow> JStr [])"

section \<open>Lemmas\<close>

text \<open>The facts that evaluate a concrete schedule from the initial state.\<close>

lemmas aj_eval = aj_init_def applyjob_init_def aj_can_submit_def value_missing_def
  aj_handleSubmit_def strip_newlines_def LF_def CR_def

lemma aj_resume_loading: "aj_resume r p = (p', t) \<Longrightarrow> \<not> aj_loading p'"
  by (auto simp: aj_resume_def split: sum.splits)

lemma aj_init_inv: "aj_inv aj_init"
  by (simp add: aj_inv_def aj_init_def applyjob_init_def)

lemma aj_step_inv:
  assumes inv: "aj_inv s"
  shows "aj_inv (aj_step s e)"
proof (cases e)
  case (AjInput v)
  with inv show ?thesis by (simp add: aj_inv_def)
next
  case AjSubmit
  with inv show ?thesis
    by (auto simp: aj_inv_def aj_can_submit_def aj_handleSubmit_def)
next
  case (AjSettle i out)
  with inv show ?thesis
    by (auto simp: aj_inv_def remove_nth_length_le1 aj_resume_loading split: prod.splits)
qed

lemma aj_run_inv: "aj_inv s \<Longrightarrow> aj_inv (aj_run s es)"
  by (induction es arbitrary: s) (simp_all add: aj_step_inv)

lemma aj_reachable_inv: "aj_inv (aj_run aj_init es)"
  by (rule aj_run_inv [OF aj_init_inv])

lemma aj_step_refines:
  assumes inv: "aj_inv s"
  shows "aj_abs (aj_step s e) = op_step (aj_abs s) (aj_abs_event s e)"
proof (cases e)
  case (AjInput v)
  then show ?thesis by (simp add: aj_abs_def)
next
  case AjSubmit
  then show ?thesis
    by (auto simp: aj_abs_def aj_can_submit_def aj_handleSubmit_def)
next
  case (AjSettle i out)
  show ?thesis
  proof (cases "i < length (aj_inflight s)")
    case True
    with inv have "aj_loading (aj_page s)" by (auto simp: aj_inv_def)
    with True AjSettle show ?thesis
      by (auto simp: aj_abs_def aj_resume_def aj_outcome_def success_toast_def error_toast_def
          split: prod.splits sum.splits)
  next
    case False
    with AjSettle show ?thesis by simp
  qed
qed

lemma aj_run_refines:
  "aj_inv s \<Longrightarrow> aj_abs (aj_run s es) = op_run (aj_abs s) (aj_abs_trace s es)"
  by (induction es arbitrary: s) (simp_all add: aj_step_refines aj_step_inv)

lemma aj_step_msg_inv:
  assumes inv: "aj_inv s" and msg: "aj_msg_inv s"
  shows "aj_msg_inv (aj_step s e)"
proof (cases e)
  case (AjInput v)
  with msg show ?thesis by (simp add: aj_msg_inv_def aj_abs_def)
next
  case AjSubmit
  with msg show ?thesis
    by (auto simp: aj_msg_inv_def aj_abs_def aj_can_submit_def aj_handleSubmit_def)
next
  case (AjSettle i out)
  show ?thesis
  proof (cases "i < length (aj_inflight s)")
    case True
    then have "aj_loading (aj_page s)" using inv by (auto simp: aj_inv_def)
    then have "aj_message (aj_page s) = JStr []" using msg by (simp add: aj_msg_inv_def aj_abs_def)
    then show ?thesis using AjSettle True
      by (auto simp: aj_msg_inv_def aj_abs_def aj_resume_def success_toast_def error_toast_def
          split: sum.splits prod.splits)
  next
    case False
    then show ?thesis using AjSettle msg by simp
  qed
qed

lemma aj_run_msg_inv: "aj_inv s \<Longrightarrow> aj_msg_inv s \<Longrightarrow> aj_msg_inv (aj_run s es)"
  by (induction es arbitrary: s) (simp_all add: aj_step_msg_inv aj_step_inv)

lemma aj_reachable_msg_inv: "aj_msg_inv (aj_run aj_init es)"
  by (rule aj_run_msg_inv [OF aj_init_inv]) (simp add: aj_msg_inv_def aj_abs_def aj_init_def applyjob_init_def)

lemma aj_run_idle:
  assumes "aj_inflight s = []" and "AjSubmit \<notin> set es"
  shows "aj_inflight (aj_run s es) = [] \<and> aj_sent (aj_run s es) = aj_sent s \<and> aj_toasts (aj_run s es) = aj_toasts s \<and>
         aj_loading (aj_page (aj_run s es)) = aj_loading (aj_page s) \<and>
         aj_message (aj_page (aj_run s es)) = aj_message (aj_page s)"
  using assms
proof (induction es arbitrary: s)
  case (Cons e es)
  have "aj_inflight (aj_step s e) = [] \<and> aj_sent (aj_step s e) = aj_sent s \<and> aj_toasts (aj_step s e) = aj_toasts s \<and>
        aj_loading (aj_page (aj_step s e)) = aj_loading (aj_page s) \<and>
        aj_message (aj_page (aj_step s e)) = aj_message (aj_page s)"
    using Cons.prems by (cases e) auto
  with Cons.IH [of "aj_step s e"] Cons.prems show ?case by simp
qed simp

lemma aj_terminal_stable:
  assumes "aj_abs s \<noteq> Pending" and "aj_inv s" and "AjSubmit \<notin> set es"
  shows "aj_abs (aj_run s es) = aj_abs s \<and> aj_sent (aj_run s es) = aj_sent s \<and>
         aj_message (aj_page (aj_run s es)) = aj_message (aj_page s)"
proof -
  have "\<not> aj_loading (aj_page s)" using assms(1) by (auto simp: aj_abs_def)
  then have "aj_inflight s = []" using assms(2) by (simp add: aj_inv_def)
  from aj_run_idle [OF this assms(3)] show ?thesis by (simp add: aj_abs_def)
qed

section \<open>Properties\<close>

text \<open>C2: single flight.  In every state the view reaches, at most one
  application request is outstanding, and the button is disabled
  (\<open>loading\<close>) exactly while one is.\<close>

theorem aj_single_flight:
  "length (aj_inflight (aj_run aj_init es)) \<le> 1 \<and>
   (aj_loading (aj_page (aj_run aj_init es)) \<longleftrightarrow> aj_inflight (aj_run aj_init es) \<noteq> [])"
  using aj_reachable_inv [of es] by (simp add: aj_inv_def)

text \<open>Every request the view dispatches is either still outstanding or
  has been reported by exactly one toast.\<close>

theorem aj_reports_once:
  "length (aj_sent (aj_run aj_init es)) =
   length (aj_toasts (aj_run aj_init es)) + length (aj_inflight (aj_run aj_init es))"
  using aj_reachable_inv [of es] by (simp add: aj_inv_def)

text \<open>C13: the view implements the specified operation lifecycle: the state
  it shows after any schedule of events is the abstract state machine's state
  after the corresponding abstract events.\<close>

theorem aj_refines_op_spec:
  "aj_abs (aj_run aj_init es) = op_run Idle (aj_abs_trace aj_init es)"
proof -
  have "aj_abs aj_init = Idle" by (simp add: aj_abs_def aj_init_def applyjob_init_def)
  then show ?thesis using aj_run_refines [OF aj_init_inv, of es] by simp
qed

text \<open>C6: a submission while a request is outstanding changes nothing: no
  second request is dispatched.\<close>

theorem aj_submit_while_pending:
  "aj_loading (aj_page s) \<Longrightarrow> aj_step s AjSubmit = s"
  by (simp add: aj_can_submit_def)

theorem aj_submit_while_pending_witness:
  "aj_loading (aj_page (aj_run aj_init [AjInput ''u'', AjSubmit])) \<and>
   aj_step (aj_run aj_init [AjInput ''u'', AjSubmit]) AjSubmit = aj_run aj_init [AjInput ''u'', AjSubmit]"
proof -
  have h: "aj_loading (aj_page (aj_run aj_init [AjInput ''u'', AjSubmit]))"
    by (simp add: aj_eval)
  show ?thesis using h aj_submit_while_pending [OF h] by simp
qed

text \<open>C4: when the outstanding request settles, whatever the network
  answered, the view leaves the pending state, no request remains
  outstanding, and exactly one toast is issued.\<close>

theorem aj_settle_ends_pending:
  assumes "s = aj_run aj_init es" and "i < length (aj_inflight s)"
  shows "\<not> aj_loading (aj_page (aj_step s (AjSettle i out))) \<and>
         aj_inflight (aj_step s (AjSettle i out)) = [] \<and>
         length (aj_toasts (aj_step s (AjSettle i out))) = Suc (length (aj_toasts s))"
proof -
  have inv: "aj_inv s" using assms(1) aj_reachable_inv by simp
  then have "length (aj_inflight s) \<le> 1" by (simp add: aj_inv_def)
  with assms(2) show ?thesis
    by (auto simp: remove_nth_length_le1 aj_resume_loading split: prod.splits)
qed

theorem aj_settle_ends_pending_witness:
  "0 < length (aj_inflight (aj_run aj_init [AjInput ''u'', AjSubmit])) \<and>
   \<not> aj_loading (aj_page (aj_step (aj_run aj_init [AjInput ''u'', AjSubmit]) (AjSettle 0 NoResponse)))"
proof -
  have h: "0 < length (aj_inflight (aj_run aj_init [AjInput ''u'', AjSubmit]))"
    by (simp add: aj_eval)
  show ?thesis using h aj_settle_ends_pending [OF refl h, of NoResponse] by simp
qed

text \<open>A 2xx answer whose body is a JSON object carrying \<open>message\<close>
  shows that message, ends loading, and issues the success toast carrying it.\<close>

theorem aj_settle_success:
  assumes "200 \<le> st" and "st < 300"
    and "json_parse (map char_of_byte body) = Some (JObj kvs)" and "map_of kvs ''message'' = Some m"
  shows "aj_resume (axios_settle RT_default (Response st body)) p =
           (p\<lparr>aj_message := m, aj_loading := False\<rparr>, success_toast ''Success!'' m)"
proof -
  have "map char_of_byte body \<noteq> []" using assms(3) by (auto simp: json_parse_def skip_ws_def)
  with assms show ?thesis
    by (simp add: axios_settle_def transform_response_def aj_resume_def)
qed

theorem aj_settle_success_witness:
  \<open>aj_resume (axios_settle RT_default (Response 200 (map byte_of_char ''{"message":"ok"}''))) applyjob_init =
     (applyjob_init\<lparr>aj_message := JStr ''ok''\<rparr>, success_toast ''Success!'' (JStr ''ok''))\<close>
proof -
  have p: \<open>json_parse (map char_of_byte (map byte_of_char ''{"message":"ok"}'')) =
            Some (JObj [(''message'', JStr ''ok'')])\<close>
    by code_simp
  show ?thesis
    using aj_settle_success [OF _ _ p, of 200 "JStr ''ok''" applyjob_init]
    by (simp add: applyjob_init_def)
qed

text \<open>C19: a network failure, a non-2xx status, or a 2xx body that is JSON
  \<open>null\<close> (reading \<open>message\<close> throws) all end loading and issue the one
  error toast, leaving the message cleared by the submission.\<close>

theorem aj_settle_failure:
  "axios_settle RT_default out = Inl e \<or> axios_settle RT_default out = Inr JNull \<Longrightarrow>
   aj_resume (axios_settle RT_default out) p = (p\<lparr>aj_loading := False\<rparr>, error_toast aj_error_text)"
  by (auto simp: aj_resume_def)

theorem aj_settle_failure_witness:
  "aj_resume (axios_settle RT_default (Response 404 [])) applyjob_init =
     (applyjob_init, error_toast aj_error_text)"
proof -
  have h: "axios_settle RT_default (Response 404 []) = Inl (HttpError 404 []) \<or>
           axios_settle RT_default (Response 404 []) = Inr JNull"
    by (simp add: axios_settle_def)
  show ?thesis using aj_settle_failure [OF h, of applyjob_init] by (simp add: applyjob_init_def)
qed

text \<open>A 2xx answer whose body is not JSON is not a failure: axios hands
  the text over as the data, \<open>response.message\<close> is \<open>undefined\<close>, and
  the view reports success with an undefined description.\<close>

theorem aj_settle_non_json:
  "aj_resume (axios_settle RT_default (Response 200 (map byte_of_char ''oops''))) p =
     (p\<lparr>aj_message := JUndefined, aj_loading := False\<rparr>, success_toast ''Success!'' JUndefined)"
proof -
  have "json_parse ''oops'' = None" by code_simp
  then show ?thesis by (simp add: axios_settle_def transform_response_def aj_resume_def)
qed

text \<open>C35: what the page shows below the form follows the lifecycle: the
  \<open>Application Started\<close> banner appears only after an attempt succeeded with
  a truthy message, never while one is pending or after a failure.\<close>

theorem aj_banner_reflects_outcome:
  "aj_render_banner (aj_message (aj_page (aj_run aj_init es))) =
     (case aj_abs (aj_run aj_init es) of Success m \<Rightarrow> aj_render_banner m | _ \<Rightarrow> Inr NothingShown)"
  using aj_reachable_msg_inv [of es]
  by (auto simp: aj_msg_inv_def aj_render_banner_def render_and_def split: op_state.splits)

text \<open>C18: every 2xx answer is reported as success with its message, and
  the page then throws exactly when that message cannot be rendered as a
  React child (an object, a blob, or an array holding one): the code renders
  \<open>response.message\<close> unchecked.\<close>

theorem aj_render_object_crash:
  assumes "get_prop v ''message'' = Inr m"
  shows "snd (aj_resume (Inr v) p) = success_toast ''Success!'' m \<and>
         (isl (aj_render_banner (aj_message (fst (aj_resume (Inr v) p)))) \<longleftrightarrow> isl (render_child m))"
  using assms by (simp add: aj_resume_def aj_render_banner_def)

theorem aj_render_object_crash_witness:
  "snd (aj_resume (Inr (JObj [(''message'', JObj [(''text'', JStr ''ok'')])])) applyjob_init) =
     success_toast ''Success!'' (JObj [(''text'', JStr ''ok'')]) \<and>
   isl (aj_render_banner (aj_message (fst (aj_resume (Inr (JObj [(''message'', JObj [(''text'', JStr ''ok'')])])) applyjob_init))))"
  using aj_render_object_crash [of "JObj [(''message'', JObj [(''text'', JStr ''ok'')])]" "JObj [(''text'', JStr ''ok'')]"
      applyjob_init] by simp

end
