(* ===== verification/App.thy ===== *)
theory App
  imports ApplyJob
begin

text \<open>
  The shell of the client, \<open>src/App.tsx\<close> with \<open>components/Navbar.tsx\<close>,
  \<open>components/AppSidebar.tsx\<close> and the links of \<open>pages/Dashboard.tsx\<close> and
  \<open>pages/Landing.tsx\<close>.  \<open>AppContent\<close> renders one of two route tables
  depending on whether the path is exactly \<open>/\<close>; react-router matches a
  pattern case-insensitively and ignores trailing slashes (\<open>route_matches\<close>),
  and a \<open>NavLink\<close> is active on its own path and below it
  (\<open>navlink_active\<close>).  The second part puts the job-application view
  under navigation: leaving its route unmounts the instance, coming back
  mounts a fresh one, and a request of an unmounted instance still settles
  and still toasts, while its state updates are dropped.
\<close>

section \<open>Routing\<close>

datatype route_view = VLanding | VDashboard | VGenerate | VApply | VProfile | VSettings | VNotFound

definition lower_ascii :: "char \<Rightarrow> char" where
  "lower_ascii c =
     (if (65::nat) \<le> of_char c \<and> of_char c \<le> (90::nat) then char_of (of_char c + (32::nat)) else c)"

definition trim_slashes_end :: "string \<Rightarrow> string" where
  "trim_slashes_end s = rev (dropWhile (\<lambda>c. c = CHR ''/'') (rev s))"

text \<open>\<open>matchPath\<close> of a pattern without parameters: the compiled expression
  \<open>^pattern\/*$\<close> with flag \<open>i\<close>.\<close>

definition route_matches :: "string \<Rightarrow> string \<Rightarrow> bool" where
  "route_matches pat p \<longleftrightarrow>
     map lower_ascii (trim_slashes_end p) = map lower_ascii (trim_slashes_end pat)"

definition routes_match :: "(string \<times> route_view) list \<Rightarrow> string \<Rightarrow> route_view" where
  "routes_match rs p = (case find (\<lambda>r. route_matches (fst r) p) rs of Some r \<Rightarrow> snd r | None \<Rightarrow> VNotFound)"

definition app_routes :: "(string \<times> route_view) list" where
  "app_routes = [(''/dashboard'', VDashboard), (''/generate'', VGenerate), (''/apply'', VApply),
                 (''/profile'', VProfile), (''/settings'', VSettings)]"

definition landing_routes :: "(string \<times> route_view) list" where
  "landing_routes = [(''/'', VLanding)]"

definition is_landing_page :: "string \<Rightarrow> bool" where
  "is_landing_page p \<longleftrightarrow> p = ''/''"

definition app_content :: "string \<Rightarrow> route_view" where
  "app_content p = (if is_landing_page p then routes_match landing_routes p else routes_match app_routes p)"

section \<open>Links\<close>

text \<open>The Navbar's links: the logo, and off the landing page Dashboard and
  Settings; on the landing page its Get Started button.\<close>

definition navbar_app_links :: "string \<Rightarrow> string list" where
  "navbar_app_links p = [''/''] @ (if \<not> is_landing_page p then [''/dashboard'', ''/settings''] else [])"

definition navbar_get_started :: "string \<Rightarrow> string list" where
  "navbar_get_started p = (if is_landing_page p then [''/dashboard''] else [])"

definition sidebar_items :: "(string \<times> string) list" where
  "sidebar_items = [(''Dashboard'', ''/dashboard''), (''Generate Documents'', ''/generate''),
     (''Apply to Jobs'', ''/apply''), (''Update Profile'', ''/profile''), (''Settings'', ''/settings'')]"

definition quickActions :: "(string \<times> string) list" where
  "quickActions = [(''Generate Documents'', ''/generate''), (''Apply to Jobs'', ''/apply''),
     (''Update Profile'', ''/profile'')]"

text \<open>The landing page's links: the two hero buttons and the call to action.\<close>

definition landing_hero_links :: "string list" where
  "landing_hero_links = [''/generate'', ''/dashboard'']"

definition landing_cta_links :: "string list" where
  "landing_cta_links = [''/dashboard'']"

text \<open>The targets of every \<open>Link\<close> and \<open>NavLink\<close> on the screen at path \<open>p\<close>:
  the navbar, the sidebar outside the landing layout, and the links of the
  routed view.\<close>

definition rendered_links :: "string \<Rightarrow> string list" where
  "rendered_links p =
     navbar_app_links p @ navbar_get_started p @ (if is_landing_page p then [] else map snd sidebar_items)
     @ (case app_content p of VLanding \<Rightarrow> landing_hero_links @ landing_cta_links | VDashboard \<Rightarrow> map snd quickActions | _ \<Rightarrow> [])"

text \<open>\<open>NavLink\<close>'s \<open>isActive\<close> (\<open>end\<close> unset, \<open>caseSensitive\<close> unset): the
  lower-cased location equals the target or continues it with a \<open>/\<close>.\<close>

definition navlink_active :: "string \<Rightarrow> string \<Rightarrow> bool" where
  "navlink_active to p \<longleftrightarrow>
     (let l = map lower_ascii p; t = map lower_ascii to
      in l = t \<or> (take (length t) l = t \<and> length t < length l \<and> l ! length t = CHR ''/''))"

definition active_items :: "string \<Rightarrow> string list" where
  "active_items p = map fst (filter (\<lambda>it. navlink_active (snd it) p) sidebar_items)"

section \<open>The job-application view under navigation\<close>

text \<open>
  What the router has mounted: an instance of \<open>ApplyJob\<close>, numbered by
  mount and holding its own React state, or another view.  A view keeps its
  instance while the route element stays the same; when \<open>AppContent\<close>
  renders another element the instance is unmounted and its state is lost.
\<close>

datatype app_page = PageApply nat applyjob | PageOther route_view

definition mount_page :: "nat \<Rightarrow> route_view \<Rightarrow> app_page" where
  "mount_page k v = (if v = VApply then PageApply k applyjob_init else PageOther v)"

record app_sys =
  app_path :: string
  app_mounted :: app_page
  app_next :: nat
  app_inflight :: "(nat \<times> http_request) list"
  app_sent :: "(nat \<times> http_request) list"
  app_toasts :: "toast list"

definition app_init :: "string \<Rightarrow> app_sys" where
  "app_init p = \<lparr>app_path = p, app_mounted = mount_page 0 (app_content p), app_next = 1,
     app_inflight = [], app_sent = [], app_toasts = []\<rparr>"

datatype app_event = AppNavigate string | AppInput string | AppSubmit | AppSettle nat http_outcome

text \<open>A \<open>Link\<close> click: the path changes; the routed element is replaced, and
  a fresh instance mounted, only when the new path renders another view.\<close>

definition app_navigate :: "string \<Rightarrow> app_sys \<Rightarrow> app_sys" where
  "app_navigate p s =
     (if app_content p = app_content (app_path s) then s\<lparr>app_path := p\<rparr>
      else s\<lparr>app_path := p, app_mounted := mount_page (app_next s) (app_content p),
             app_next := Suc (app_next s)\<rparr>)"

text \<open>
  Input and submission reach the mounted \<open>ApplyJob\<close> instance, exactly as in
  \<open>aj_step\<close>, and tag the dispatched request with the instance.  When a
  request settles, its continuation runs whether or not its instance is still
  mounted: the toast is issued in both cases (\<open>toast\<close> is a module-level
  store), while \<open>setMessage\<close> and \<open>setLoading\<close> of an unmounted instance are
  dropped by React.  The toast does not depend on the instance's state, so the
  continuation of an unmounted instance is run on \<open>applyjob_init\<close>.
\<close>

fun app_step :: "app_sys \<Rightarrow> app_event \<Rightarrow> app_sys" where
  "app_step s (AppNavigate p) = app_navigate p s"
| "app_step s (AppInput v) =
     (case app_mounted s of
        PageApply k pg \<Rightarrow> s\<lparr>app_mounted := PageApply k (pg\<lparr>aj_jobUrl := control_value TextInput v\<rparr>)\<rparr>
      | PageOther w \<Rightarrow> s)"
| "app_step s AppSubmit =
     (case app_mounted s of
        PageApply k pg \<Rightarrow>
          (if aj_can_submit pg then
             (let (pg', rq) = aj_handleSubmit pg
              in s\<lparr>app_mounted := PageApply k pg', app_inflight := app_inflight s @ [(k, rq)],
                   app_sent := app_sent s @ [(k, rq)]\<rparr>)
           else s)
      | PageOther w \<Rightarrow> s)"
| "app_step s (AppSettle i out) =
     (if i < length (app_inflight s) then
        (let (k, rq) = app_inflight s ! i;
             r = axios_settle (req_response_type rq) out;
             s' = s\<lparr>app_inflight := remove_nth i (app_inflight s),
                    app_toasts := app_toasts s @ [snd (aj_resume r applyjob_init)]\<rparr>
         in (case app_mounted s of
               PageApply k' pg \<Rightarrow>
                 if k' = k then s'\<lparr>app_mounted := PageApply k (fst (aj_resume r pg))\<rparr> else s'
             | PageOther w \<Rightarrow> s'))
      else s)"

fun app_run :: "app_sys \<Rightarrow> app_event list \<Rightarrow> app_sys" where
  "app_run s [] = s"
| "app_run s (e # es) = app_run (app_step s e) es"

text \<open>Every instance has at most one request outstanding, the mounted
  instance shows \<open>loading\<close> exactly while it has one, instance numbers are
  fresh, and every dispatched request is outstanding or was reported once.\<close>

definition app_inv :: "app_sys \<Rightarrow> bool" where
  "app_inv s \<longleftrightarrow>
     list_all (\<lambda>c. fst c < app_next s) (app_inflight s) \<and> distinct (map fst (app_inflight s)) \<and>
     (case app_mounted s of
        PageApply k pg \<Rightarrow> k < app_next s \<and> (aj_loading pg \<longleftrightarrow> k \<in> set (map fst (app_inflight s)))
      | PageOther w \<Rightarrow> True) \<and>
     length (app_sent s) = length (app_toasts s) + length (app_inflight s)"

text \<open>A schedule: apply for a job, leave for the dashboard before the
  answer, come back and apply again.\<close>

definition apply_leave_reapply :: "app_event list" where
  "apply_leave_reapply =
     [AppNavigate ''/apply'', AppInput ''https://jobs.example/1'', AppSubmit,
      AppNavigate ''/dashboard'', AppNavigate ''/apply'', AppInput ''https://jobs.example/1'', AppSubmit]"

text \<open>Along a run: the number of times an \<open>ApplyJob\<close> instance was
  mounted, whether the mounted instance is idle, and that the mounted
  element is the one the path routes to.\<close>

fun app_apply_mounts :: "app_sys \<Rightarrow> app_event list \<Rightarrow> nat" where
  "app_apply_mounts s [] = 0"
| "app_apply_mounts s (e # es) =
     (if app_next (app_step s e) \<noteq> app_next s \<and> (\<exists>k pg. app_mounted (app_step s e) = PageApply k pg) then 1 else 0)
     + app_apply_mounts (app_step s e) es"

definition app_idle_apply :: "app_sys \<Rightarrow> nat" where
  "app_idle_apply s =
     (case app_mounted s of PageApply k pg \<Rightarrow> if k \<in> fst ` set (app_inflight s) then 0 else 1 | PageOther w \<Rightarrow> 0)"

definition app_view_ok :: "app_sys \<Rightarrow> bool" where
  "app_view_ok s \<longleftrightarrow>
     (case app_mounted s of PageApply k pg \<Rightarrow> app_content (app_path s) = VApply
      | PageOther w \<Rightarrow> app_content (app_path s) = w)"

section \<open>Lemmas\<close>

lemma lower_ascii_slash_all: "list_all (\<lambda>c. lower_ascii c = CHR ''/'' \<longleftrightarrow> c = CHR ''/'') Enum.enum"
  by code_simp

lemma lower_ascii_slash [simp]: "lower_ascii c = CHR ''/'' \<longleftrightarrow> c = CHR ''/''"
  using lower_ascii_slash_all by (simp add: list_all_iff enum_UNIV)

lemma map_lower_trim: "map lower_ascii (trim_slashes_end p) = trim_slashes_end (map lower_ascii p)"
  by (simp add: trim_slashes_end_def rev_map dropWhile_map o_def)

lemma trim_slashes_end_app:
  "s = trim_slashes_end s @ replicate (length s - length (trim_slashes_end s)) CHR ''/''"
proof -
  let ?P = "\<lambda>c. c = CHR ''/''"
  have "rev s = takeWhile ?P (rev s) @ dropWhile ?P (rev s)" by simp
  then have "s = rev (dropWhile ?P (rev s)) @ rev (takeWhile ?P (rev s))"
    by (metis rev_append rev_rev_ident)
  moreover have "length s = length (dropWhile ?P (rev s)) + length (takeWhile ?P (rev s))"
    by (metis add.commute length_append length_rev takeWhile_dropWhile_id)
  ultimately show ?thesis
    using takeWhile_eq_replicate [of "CHR ''/''" "rev s"]
    by (metis add_diff_cancel_left' length_rev rev_replicate trim_slashes_end_def)
qed

lemma trim_slashes_end_idem: "trim_slashes_end (trim_slashes_end s) = trim_slashes_end s"
  by (simp add: trim_slashes_end_def dropWhile_idem)

lemma trim_slashes_end_append_slashes:
  "trim_slashes_end (xs @ replicate k CHR ''/'') = trim_slashes_end xs"
  by (simp add: trim_slashes_end_def dropWhile_replicate)

lemma route_matches_slashes:
  assumes m: "route_matches a p" and a: "map lower_ascii (trim_slashes_end a) = a"
  shows "map lower_ascii p = a @ replicate (length p - length a) CHR ''/''"
proof -
  have t: "trim_slashes_end (map lower_ascii p) = a"
    using m a by (simp add: route_matches_def map_lower_trim)
  have "length (trim_slashes_end (map lower_ascii p)) = length a" by (simp add: t)
  then show ?thesis
    using trim_slashes_end_app [of "map lower_ascii p"] t by simp
qed

lemma routes_match_Some:
  assumes "routes_match rs p \<noteq> VNotFound"
  shows "\<exists>pat. (pat, routes_match rs p) \<in> set rs \<and> route_matches pat p"
  using assms by (auto simp: routes_match_def split: option.splits dest!: find_SomeD)

lemma routes_match_cases: "routes_match rs p \<in> insert VNotFound (snd ` set rs)"
  by (auto simp: routes_match_def split: option.splits dest!: find_SomeD intro: rev_image_eqI)

lemma navlink_active_prefix: "navlink_active b p \<Longrightarrow> take (length b) (map lower_ascii p) = map lower_ascii b"
  by (auto simp: navlink_active_def Let_def)

lemma sidebar_urls_lower: "list_all (\<lambda>it. map lower_ascii (snd it) = snd it) sidebar_items"
  by code_simp

lemma sidebar_urls_incomparable:
  "list_all (\<lambda>a. list_all (\<lambda>b. take (length a) b = a \<or> take (length b) a = b \<longrightarrow> a = b) (map snd sidebar_items))
     (map snd sidebar_items)"
  by code_simp

lemma app_content_root: "app_content ''/'' = VLanding"
  by code_simp

lemma app_routes_lower: "list_all (\<lambda>r. map lower_ascii (trim_slashes_end (fst r)) = fst r) app_routes"
  by code_simp

lemma navlink_active_lower:
  "map lower_ascii b = b \<Longrightarrow>
   navlink_active b p \<longleftrightarrow> map lower_ascii p = b \<or>
     (take (length b) (map lower_ascii p) = b \<and> length b < length p \<and> map lower_ascii p ! length b = CHR ''/'')"
  by (simp add: navlink_active_def Let_def)

lemma lower_ascii_id:
  assumes "\<not> ((65::nat) \<le> of_char c \<and> of_char c \<le> (90::nat))" shows "lower_ascii c = c"
  unfolding lower_ascii_def using assms by (rule if_not_P)

lemma app_content_off_root:
  "p \<noteq> ''/'' \<Longrightarrow> app_content p = routes_match app_routes p"
  by (simp add: app_content_def is_landing_page_def)

lemma app_content_not_landing: "p \<noteq> ''/'' \<Longrightarrow> app_content p \<noteq> VLanding"
  using routes_match_cases [of app_routes p] by (auto simp: app_content_off_root app_routes_def)

lemma rendered_links_targets:
  "set (rendered_links p) \<subseteq> {''/'', ''/dashboard'', ''/settings'', ''/generate'', ''/apply'', ''/profile''}"
  by (auto simp: rendered_links_def navbar_app_links_def navbar_get_started_def sidebar_items_def quickActions_def
    landing_hero_links_def landing_cta_links_def
      split: route_view.split)

lemma link_targets_resolve:
  "list_all (\<lambda>t. app_content t \<noteq> VNotFound) [''/'', ''/dashboard'', ''/settings'', ''/generate'', ''/apply'', ''/profile'']"
  by code_simp

lemma sidebar_active_exact:
  assumes it: "(t, u) \<in> set sidebar_items" and h: "map lower_ascii p = u @ replicate k CHR ''/''"
  shows "active_items p = [t]"
proof -
  have n: "length p = length u + k" using arg_cong [OF h, of length] by simp
  from it have "(t, u) \<in> {(''Dashboard'', ''/dashboard''), (''Generate Documents'', ''/generate''),
     (''Apply to Jobs'', ''/apply''), (''Update Profile'', ''/profile''), (''Settings'', ''/settings'')}"
    by (simp add: sidebar_items_def)
  then show ?thesis
    using h n
    by (elim insertE emptyE; simp only: prod.inject; elim conjE; hypsubst;
        auto simp: active_items_def sidebar_items_def navlink_active_lower nth_append lower_ascii_id)
qed

lemma app_routes_sidebar: "map fst app_routes = map snd sidebar_items"
  by (simp add: app_routes_def sidebar_items_def)

lemma app_routes_self: "list_all (\<lambda>r. app_content (fst r) = snd r) app_routes"
  by code_simp

lemma app_init_inv: "app_inv (app_init p)"
  by (simp add: app_inv_def app_init_def mount_page_def applyjob_init_def)

lemma app_inv_path [simp]: "app_inv (s\<lparr>app_path := p\<rparr>) = app_inv s"
  by (simp add: app_inv_def split: app_page.split)

lemma app_navigate_inv:
  assumes inv: "app_inv s" shows "app_inv (app_navigate p s)"
proof (cases "app_content p = app_content (app_path s)")
  case True
  then show ?thesis using inv by (simp add: app_navigate_def app_inv_path)
next
  case False
  have "app_next s \<notin> set (map fst (app_inflight s))"
    using inv by (auto simp: app_inv_def list_all_iff)
  then show ?thesis using inv False
    by (auto simp: app_navigate_def app_inv_def mount_page_def applyjob_init_def list_all_iff)
qed

lemma app_submit_inv:
  assumes inv: "app_inv s" shows "app_inv (app_step s AppSubmit)"
proof (cases "app_mounted s")
  case (PageApply k pg)
  then show ?thesis using inv
    by (auto simp: app_inv_def aj_can_submit_def aj_handleSubmit_def list_all_iff)
qed (simp add: inv)

lemma app_input_inv:
  assumes inv: "app_inv s" shows "app_inv (app_step s (AppInput v))"
  using inv by (cases "app_mounted s") (simp_all add: app_inv_def)

lemma app_settle_eq:
  assumes "i < length (app_inflight s)" "app_inflight s ! i = (k, rq)"
  shows "app_step s (AppSettle i out) =
     (let r = axios_settle (req_response_type rq) out;
          s' = s\<lparr>app_inflight := remove_nth i (app_inflight s),
                 app_toasts := app_toasts s @ [snd (aj_resume r applyjob_init)]\<rparr>
      in (case app_mounted s of
            PageApply k' pg \<Rightarrow> if k' = k then s'\<lparr>app_mounted := PageApply k (fst (aj_resume r pg))\<rparr> else s'
          | PageOther w \<Rightarrow> s'))"
  using assms by (simp add: Let_def)

lemma app_settle_inv:
  assumes inv: "app_inv s" shows "app_inv (app_step s (AppSettle i out))"
proof (cases "i < length (app_inflight s)")
  case True
  obtain k rq where c: "app_inflight s ! i = (k, rq)" by (cases "app_inflight s ! i")
  define r where "r = axios_settle (req_response_type rq) out"
  have d: "distinct (map fst (app_inflight s))" using inv by (simp add: app_inv_def)
  have ids: "set (map fst (remove_nth i (app_inflight s))) = set (map fst (app_inflight s)) - {k}"
    using set_remove_nth_fst [OF d True] c by simp
  have sub: "set (remove_nth i (app_inflight s)) \<subseteq> set (app_inflight s)"
    by (auto simp: remove_nth_def dest: in_set_takeD in_set_dropD)
  have lt: "list_all (\<lambda>c. fst c < app_next s) (remove_nth i (app_inflight s))"
    using inv sub by (auto simp: app_inv_def list_all_iff)
  have dr: "distinct (map fst (remove_nth i (app_inflight s)))"
    using d by (simp add: remove_nth_map distinct_remove_nth)
  have len: "length (app_sent s) = Suc (length (app_toasts s)) + length (remove_nth i (app_inflight s))"
    using inv True by (simp add: app_inv_def)
  note eq = app_settle_eq [OF True c, of out, folded r_def]
  show ?thesis
  proof (cases "app_mounted s")
    case (PageApply k' pg)
    show ?thesis
    proof (cases "k' = k")
      case True
      have "\<not> aj_loading (fst (aj_resume r pg))"
        using aj_resume_loading [of r pg] by (cases "aj_resume r pg") simp
      then show ?thesis using inv lt dr ids len PageApply True
        unfolding eq by (simp add: app_inv_def Let_def)
    next
      case False
      then show ?thesis using inv lt dr ids len PageApply
        unfolding eq by (simp add: app_inv_def Let_def)
    qed
  next
    case (PageOther w)
    then show ?thesis using inv lt dr len unfolding eq by (simp add: app_inv_def Let_def)
  qed
qed (simp add: inv)

lemma app_step_inv:
  assumes inv: "app_inv s" shows "app_inv (app_step s e)"
proof (cases e)
  case (AppNavigate p)
  then show ?thesis using app_navigate_inv [OF inv] by simp
next
  case (AppInput v)
  then show ?thesis using app_input_inv [OF inv] by simp
next
  case AppSubmit
  then show ?thesis using app_submit_inv [OF inv] by simp
next
  case (AppSettle i out)
  show ?thesis unfolding AppSettle by (rule app_settle_inv [OF inv])
qed

lemma app_run_inv: "app_inv s \<Longrightarrow> app_inv (app_run s es)"
  by (induction es arbitrary: s) (simp_all add: app_step_inv)

lemma app_reachable_inv: "app_inv (app_run (app_init p) es)"
  by (rule app_run_inv [OF app_init_inv])

lemma app_content_views: "app_content ''/apply'' = VApply" "app_content ''/dashboard'' = VDashboard"
  using app_routes_self by (simp_all add: app_routes_def)

lemmas app_run_eval = app_init_def app_navigate_def mount_page_def app_content_views app_content_root
  aj_eval control_value.simps

lemma apply_leave_reapply_state:
  "app_inflight (app_run (app_init ''/'') apply_leave_reapply) =
     [(1, applyJob_req ''https://jobs.example/1''), (3, applyJob_req ''https://jobs.example/1'')] \<and>
   (\<exists>pg. app_mounted (app_run (app_init ''/'') apply_leave_reapply) = PageApply 3 pg)"
  by (simp add: apply_leave_reapply_def app_run_eval)

lemma route_matches_iff:
  "route_matches pat p \<longleftrightarrow>
   (\<exists>k. map lower_ascii p = map lower_ascii (trim_slashes_end pat) @ replicate k CHR ''/'')"
proof
  assume "route_matches pat p"
  then have "trim_slashes_end (map lower_ascii p) = map lower_ascii (trim_slashes_end pat)"
    by (simp add: route_matches_def map_lower_trim)
  then show "\<exists>k. map lower_ascii p = map lower_ascii (trim_slashes_end pat) @ replicate k CHR ''/''"
    using trim_slashes_end_app [of "map lower_ascii p"] by metis
next
  assume "\<exists>k. map lower_ascii p = map lower_ascii (trim_slashes_end pat) @ replicate k CHR ''/''"
  then obtain k where "map lower_ascii p = map lower_ascii (trim_slashes_end pat) @ replicate k CHR ''/''" ..
  then have "trim_slashes_end (map lower_ascii p) = trim_slashes_end (map lower_ascii pat)"
    by (simp add: trim_slashes_end_append_slashes map_lower_trim trim_slashes_end_idem)
  then show "route_matches pat p" by (simp add: route_matches_def map_lower_trim)
qed

lemma app_run_append: "app_run s (xs @ ys) = app_run (app_run s xs) ys"
  by (induction xs arbitrary: s) simp_all

lemma app_idle_apply_le1: "app_idle_apply s \<le> 1"
  by (simp add: app_idle_apply_def split: app_page.split)

lemma app_settle_shape:
  assumes "i < length (app_inflight s)"
  shows "length (app_inflight (app_step s (AppSettle i out))) = length (app_inflight s) - 1 \<and>
         app_next (app_step s (AppSettle i out)) = app_next s"
proof -
  obtain k rq where c: "app_inflight s ! i = (k, rq)" by fastforce
  show ?thesis using assms unfolding app_settle_eq [OF assms c]
    by (simp add: Let_def split: app_page.split)
qed

lemma app_mounted_view_step:
  "app_view_ok s \<Longrightarrow> app_view_ok (app_step s e)"
  by (cases e)
     (auto simp: app_view_ok_def app_navigate_def mount_page_def Let_def split: app_page.splits prod.splits if_splits)

lemma app_mounted_view: "app_view_ok (app_run (app_init p) es)"
proof -
  have "app_view_ok s \<Longrightarrow> app_view_ok (app_run s es)" for s
    by (induction es arbitrary: s) (simp_all add: app_mounted_view_step)
  then show ?thesis by (simp add: app_view_ok_def app_init_def mount_page_def)
qed

lemma app_step_bound:
  assumes "app_inv s"
  shows "length (app_inflight (app_step s e)) + app_idle_apply (app_step s e) \<le>
         length (app_inflight s) + app_idle_apply s +
         (if app_next (app_step s e) \<noteq> app_next s \<and> (\<exists>k pg. app_mounted (app_step s e) = PageApply k pg) then 1 else 0)"
proof (cases e)
  case (AppNavigate q)
  have fresh: "app_next s \<notin> fst ` set (app_inflight s)"
    using assms by (auto simp: app_inv_def list_all_iff)
  show ?thesis using AppNavigate fresh
    by (auto simp: app_navigate_def mount_page_def app_idle_apply_def split: app_page.splits)
next
  case (AppInput v)
  then show ?thesis by (auto simp: app_idle_apply_def split: app_page.splits)
next
  case AppSubmit
  show ?thesis
  proof (cases "app_mounted s")
    case (PageApply k pg)
    with assms have "aj_loading pg \<longleftrightarrow> k \<in> fst ` set (app_inflight s)" by (simp add: app_inv_def)
    with PageApply AppSubmit show ?thesis
      by (auto simp: app_idle_apply_def aj_can_submit_def aj_handleSubmit_def)
  qed (use AppSubmit in \<open>simp add: app_idle_apply_def\<close>)
next
  case (AppSettle i out)
  show ?thesis
  proof (cases "i < length (app_inflight s)")
    case True
    have l: "1 \<le> length (app_inflight s)" using True by linarith
    note sh = app_settle_shape [OF True, of out]
    have z: "(if app_next (app_step s e) \<noteq> app_next s \<and> (\<exists>k pg. app_mounted (app_step s e) = PageApply k pg)
              then 1 else 0) = (0::nat)"
      using sh AppSettle by (simp del: app_step.simps)
    have "length (app_inflight (app_step s e)) = length (app_inflight s) - 1"
      using sh AppSettle by (simp del: app_step.simps)
    then show ?thesis using z l app_idle_apply_le1 [of "app_step s e"] by linarith
  qed (use AppSettle in simp)
qed

lemma app_run_bound:
  "app_inv s \<Longrightarrow> length (app_inflight (app_run s es)) + app_idle_apply (app_run s es) \<le>
     length (app_inflight s) + app_idle_apply s + app_apply_mounts s es"
proof (induction es arbitrary: s)
  case (Cons e es)
  have "app_inv (app_step s e)" using Cons.prems by (rule app_step_inv)
  from Cons.IH [OF this] app_step_bound [OF Cons.prems, of e] show ?case by simp
qed simp

section \<open>Properties\<close>

text \<open>C27: the landing layout is rendered exactly at \<open>/\<close>, where its
  \<open>/\<close> route always matches, so the landing table's catch-all route is never
  rendered; every other path goes to the sidebar layout.\<close>

theorem app_content_landing: "app_content p = VLanding \<longleftrightarrow> p = ''/''"
  using app_content_root app_content_not_landing by blast

text \<open>C9: no link on any screen leads to the not-found view: every target of
  the navbar, the sidebar, the dashboard's quick actions and the landing page
  is matched by a route.\<close>

theorem rendered_links_resolve: "list_all (\<lambda>t. app_content t \<noteq> VNotFound) (rendered_links p)"
  using rendered_links_targets [of p] link_targets_resolve by (auto simp: list_all_iff)

text \<open>At every location at most one sidebar entry is highlighted.\<close>

theorem sidebar_single_active: "length (active_items p) \<le> 1"
proof -
  have "length (filter (\<lambda>it. navlink_active (snd it) p) sidebar_items) \<le> 1"
  proof (rule length_filter_le1 [where f = snd])
    show "distinct (map snd sidebar_items)" by (simp add: sidebar_items_def)
  next
    fix x y assume x: "x \<in> set sidebar_items" and y: "y \<in> set sidebar_items"
      and ax: "navlink_active (snd x) p" and ay: "navlink_active (snd y) p"
    have lx: "map lower_ascii (snd x) = snd x" and ly: "map lower_ascii (snd y) = snd y"
      using x y sidebar_urls_lower by (auto simp: list_all_iff)
    have "take (length (snd x)) (snd y) = snd x \<or> take (length (snd y)) (snd x) = snd y"
      using prefix_comparable navlink_active_prefix [OF ax] navlink_active_prefix [OF ay] lx ly
      by (metis length_map)
    then show "snd x = snd y"
      using x y sidebar_urls_incomparable by (auto simp: list_all_iff)
  qed
  then show ?thesis by (simp add: active_items_def)
qed

text \<open>On every path that renders one of the sidebar's views, the
  highlighted entry is exactly one, and it links to that view.\<close>

theorem sidebar_active_view:
  assumes v: "app_content p \<noteq> VNotFound" "app_content p \<noteq> VLanding"
  shows "\<exists>t u. active_items p = [t] \<and> (t, u) \<in> set sidebar_items \<and> app_content u = app_content p"
proof -
  have "p \<noteq> ''/''" using v app_content_root by blast
  then have rm: "app_content p = routes_match app_routes p" by (rule app_content_off_root)
  obtain pat where pat: "(pat, app_content p) \<in> set app_routes" "route_matches pat p"
    using routes_match_Some [of app_routes p] v rm by auto
  then have "map lower_ascii (trim_slashes_end pat) = pat"
    using app_routes_lower by (auto simp: list_all_iff)
  then have l: "map lower_ascii p = pat @ replicate (length p - length pat) CHR ''/''"
    using route_matches_slashes pat(2) by blast
  have "pat \<in> set (map fst app_routes)" using pat(1) by force
  then obtain t where t: "(t, pat) \<in> set sidebar_items"
    unfolding app_routes_sidebar by auto
  have "app_content pat = app_content p"
    using pat(1) app_routes_self by (auto simp: list_all_iff)
  then show ?thesis
    using t sidebar_active_exact [OF t l] by blast
qed


text \<open>Within one mounted instance the job application stays single
  flight: after every schedule of navigation, input, submission and answers,
  no instance has two requests outstanding.\<close>

theorem app_instance_single_flight: "distinct (map fst (app_inflight (app_run (app_init p) es)))"
  using app_reachable_inv [of p es] by (simp add: app_inv_def)

text \<open>The instance on screen shows \<open>Processing...\<close> exactly while one of
  its own requests is outstanding, also after leaving and returning.\<close>

theorem app_mounted_loading:
  "(case app_mounted (app_run (app_init p) es) of
      PageApply k pg \<Rightarrow> aj_loading pg \<longleftrightarrow> k \<in> set (map fst (app_inflight (app_run (app_init p) es)))
    | PageOther w \<Rightarrow> True)"
  using app_reachable_inv [of p es] by (auto simp: app_inv_def split: app_page.splits)

text \<open>Navigation never loses a report: every dispatched application is
  still outstanding or was toasted exactly once, whether or not its view was
  left before the answer.\<close>

theorem app_reports_once:
  "length (app_sent (app_run (app_init p) es)) =
   length (app_toasts (app_run (app_init p) es)) + length (app_inflight (app_run (app_init p) es))"
  using app_reachable_inv [of p es] by (simp add: app_inv_def)

text \<open>C30: the single-flight guard is per mounted instance, not per operation:
  whenever the mounted job-application view has an application pending,
  leaving it for another view and coming back gives a fresh form, and
  submitting a URL there sends a second application while the first is still
  outstanding.\<close>

theorem app_remount_double_flight:
  assumes "app_mounted (app_run (app_init p) es) = PageApply k pg" and "aj_loading pg"
    and "app_content q \<noteq> VApply" and "\<not> value_missing (control_value TextInput u)"
  shows "app_inflight (app_run (app_init p) (es @ [AppNavigate q, AppNavigate ''/apply'', AppInput u, AppSubmit])) =
           app_inflight (app_run (app_init p) es) @
             [(Suc (app_next (app_run (app_init p) es)), applyJob_req (control_value TextInput u))] \<and>
         k \<in> fst ` set (app_inflight (app_run (app_init p) es))"
proof -
  let ?s = "app_run (app_init p) es"
  have v: "app_content (app_path ?s) = VApply" using app_mounted_view [of p es] assms(1) by (simp add: app_view_ok_def)
  have inv: "app_inv ?s" by (rule app_reachable_inv)
  then have "k \<in> fst ` set (app_inflight ?s)" using assms(1,2) by (simp add: app_inv_def)
  moreover have "app_content ''/apply'' = VApply" by (rule app_content_views(1))
  ultimately show ?thesis using assms v
    by (simp add: app_run_append app_navigate_def mount_page_def applyjob_init_def aj_can_submit_def
        aj_handleSubmit_def)
qed

theorem app_remount_double_flight_witness:
  "app_inflight (app_run (app_init ''/'') ([AppNavigate ''/apply'', AppInput ''https://jobs.example/1'', AppSubmit] @
      [AppNavigate ''/dashboard'', AppNavigate ''/apply'', AppInput ''https://jobs.example/1'', AppSubmit])) =
   app_inflight (app_run (app_init ''/'') [AppNavigate ''/apply'', AppInput ''https://jobs.example/1'', AppSubmit]) @
     [(Suc (app_next (app_run (app_init ''/'') [AppNavigate ''/apply'', AppInput ''https://jobs.example/1'', AppSubmit])),
       applyJob_req (control_value TextInput ''https://jobs.example/1''))]"
proof -
  have h: "case app_mounted (app_run (app_init ''/'') [AppNavigate ''/apply'', AppInput ''https://jobs.example/1'', AppSubmit]) of
             PageApply k pg \<Rightarrow> aj_loading pg | PageOther w \<Rightarrow> False"
    by code_simp
  then obtain k pg where m: "app_mounted (app_run (app_init ''/'') [AppNavigate ''/apply'', AppInput ''https://jobs.example/1'', AppSubmit]) = PageApply k pg"
    and l: "aj_loading pg"
    by (auto split: app_page.splits)
  have d: "app_content ''/dashboard'' \<noteq> VApply" using app_content_views by simp
  have u: "\<not> value_missing (control_value TextInput ''https://jobs.example/1'')" by code_simp
  show ?thesis using app_remount_double_flight [OF m l d u] by simp
qed

text \<open>The answer to an instance that is no longer mounted changes nothing
  on screen and is still reported by its toast.\<close>

theorem app_stale_settle:
  assumes "i < length (app_inflight s)"
    and "(case app_mounted s of PageApply k pg \<Rightarrow> k \<noteq> fst (app_inflight s ! i) | PageOther w \<Rightarrow> True)"
  shows "app_mounted (app_step s (AppSettle i out)) = app_mounted s \<and>
    app_toasts (app_step s (AppSettle i out)) =
      app_toasts s @ [snd (aj_resume (axios_settle (req_response_type (snd (app_inflight s ! i))) out) applyjob_init)]"
proof -
  obtain k rq where c: "app_inflight s ! i = (k, rq)" by (cases "app_inflight s ! i")
  show ?thesis
    using assms unfolding app_settle_eq [OF assms(1) c]
    by (simp add: c Let_def split: app_page.splits)
qed

theorem app_stale_settle_witness:
  "app_mounted (app_step (app_run (app_init ''/'') apply_leave_reapply) (AppSettle 0 NoResponse)) =
     app_mounted (app_run (app_init ''/'') apply_leave_reapply)"
proof -
  have h1: "0 < length (app_inflight (app_run (app_init ''/'') apply_leave_reapply))"
    using apply_leave_reapply_state by simp
  have h2: "(case app_mounted (app_run (app_init ''/'') apply_leave_reapply) of
      PageApply k pg \<Rightarrow> k \<noteq> fst (app_inflight (app_run (app_init ''/'') apply_leave_reapply) ! 0)
    | PageOther w \<Rightarrow> True)"
    using apply_leave_reapply_state by auto
  show ?thesis using app_stale_settle [OF h1 h2, of NoResponse] by simp
qed

theorem sidebar_active_view_witness:
  "active_items ''/Apply/'' = [''Apply to Jobs'']"
proof -
  have v: "app_content ''/Apply/'' = VApply" by code_simp
  then have h1: "app_content ''/Apply/'' \<noteq> VNotFound" and h2: "app_content ''/Apply/'' \<noteq> VLanding"
    by simp_all
  obtain t u where "active_items ''/Apply/'' = [t]" "(t, u) \<in> set sidebar_items"
      "app_content u = app_content ''/Apply/''"
    using sidebar_active_view [OF h1 h2] by blast
  then show ?thesis
    using v app_routes_self by (auto simp: sidebar_items_def app_routes_def)
qed

text \<open>C33: every outstanding application needs its own mount of the
  job-application view: after any schedule the applications outstanding at
  once are at most the number of times an \<open>ApplyJob\<close> instance was mounted
  (by the entry path or by navigation).\<close>

theorem app_inflight_bound:
  "length (app_inflight (app_run (app_init p) es)) \<le>
     (if app_content p = VApply then 1 else 0) + app_apply_mounts (app_init p) es"
  using app_run_bound [OF app_init_inv, of p es]
  by (simp add: app_idle_apply_def app_init_def mount_page_def split: if_splits)


end
