(* ===== verification/UpdateProfile.thy ===== *)
theory UpdateProfile
  imports Transport Lifecycle
begin

text \<open>
  The profile-suggestion view, \<open>src/pages/UpdateProfile.tsx\<close>, modelled like
  the job-application view: its React state (\<open>loading\<close>,
  \<open>profileUrl\<close>, \<open>suggestions\<close>, \<open>message\<close>) in \<open>updateprofile\<close>,
  \<open>handleSubmit\<close> split at its \<open>await\<close> (\<open>up_handleSubmit\<close>,
  \<open>up_resume\<close>), and \<open>handleCopy\<close>, which asks the clipboard to hold the
  suggestions and reports \<open>Copied!\<close> without waiting for the answer.  The
  system \<open>up_sys\<close> adds the outstanding and dispatched requests, the toasts
  and the clipboard writes requested.
\<close>

section \<open>State and handlers\<close>

record updateprofile =
  up_loading :: bool
  up_profileUrl :: string
  up_suggestions :: jsval
  up_message :: jsval

definition updateprofile_init :: updateprofile where
  "updateprofile_init =
     \<lparr>up_loading = False, up_profileUrl = [], up_suggestions = JStr [], up_message = JStr []\<rparr>"

definition up_can_submit :: "updateprofile \<Rightarrow> bool" where
  "up_can_submit p \<longleftrightarrow> \<not> up_loading p \<and> \<not> value_missing (up_profileUrl p)"

text \<open>\<open>setLoading(true); setSuggestions(''); setMessage(''); updateProfile(profileUrl)\<close>.\<close>

definition up_handleSubmit :: "updateprofile \<Rightarrow> updateprofile \<times> http_request" where
  "up_handleSubmit p =
     (p\<lparr>up_loading := True, up_suggestions := JStr [], up_message := JStr []\<rparr>,
      updateProfile_req (up_profileUrl p))"

definition up_error_text :: string where
  "up_error_text = ''Failed to generate suggestions. Please try again.''"

definition up_success_text :: string where
  "up_success_text = ''Profile suggestions generated successfully.''"

text \<open>After the \<open>await\<close>: \<open>setSuggestions(response.profile_suggestions)\<close>,
  then \<open>setMessage(response.message)\<close>, then the success toast; a throw at
  either read lands in \<open>catch\<close> with the updates made before it kept.\<close>

definition up_resume :: "axios_error + jsval \<Rightarrow> updateprofile \<Rightarrow> updateprofile \<times> toast" where
  "up_resume r p =
     (case r of
        Inl e \<Rightarrow> (p\<lparr>up_loading := False\<rparr>, error_toast up_error_text)
      | Inr response \<Rightarrow>
          (case get_prop response ''profile_suggestions'' of
             Inl exn \<Rightarrow> (p\<lparr>up_loading := False\<rparr>, error_toast up_error_text)
           | Inr sg \<Rightarrow>
               (case get_prop response ''message'' of
                  Inl exn \<Rightarrow> (p\<lparr>up_suggestions := sg, up_loading := False\<rparr>, error_toast up_error_text)
                | Inr m \<Rightarrow>
                    (p\<lparr>up_suggestions := sg, up_message := m, up_loading := False\<rparr>,
                     success_toast ''Success!'' (JStr up_success_text)))))"

section \<open>The view among its requests\<close>

record up_sys =
  up_page :: updateprofile
  up_inflight :: "http_request list"
  up_sent :: "http_request list"
  up_toasts :: "toast list"
  up_clipboard_writes :: "jsval list"

definition up_init :: up_sys where
  "up_init = \<lparr>up_page = updateprofile_init, up_inflight = [], up_sent = [], up_toasts = [],
              up_clipboard_writes = []\<rparr>"

datatype up_event = UpInput string | UpSubmit | UpCopy | UpSettle nat http_outcome

text \<open>\<open>handleCopy\<close>: the Copy button exists only while \<open>suggestions\<close> is
  truthy; \<open>writeText\<close>'s promise is neither awaited nor handled.\<close>

definition up_handleCopy :: "up_sys \<Rightarrow> up_sys" where
  "up_handleCopy s =
     s\<lparr>up_clipboard_writes := up_clipboard_writes s @ [up_suggestions (up_page s)],
       up_toasts := up_toasts s @ [success_toast ''Copied!'' (JStr ''Suggestions copied to clipboard.'')]\<rparr>"

fun up_step :: "up_sys \<Rightarrow> up_event \<Rightarrow> up_sys" where
  "up_step s (UpInput v) =
     s\<lparr>up_page := (up_page s)\<lparr>up_profileUrl := control_value TextInput v\<rparr>\<rparr>"
| "up_step s UpSubmit =
     (if up_can_submit (up_page s) then
        (let (p', rq) = up_handleSubmit (up_page s)
         in s\<lparr>up_page := p', up_inflight := up_inflight s @ [rq], up_sent := up_sent s @ [rq]\<rparr>)
      else s)"
| "up_step s UpCopy = (if truthy (up_suggestions (up_page s)) then up_handleCopy s else s)"
| "up_step s (UpSettle i out) =
     (if i < length (up_inflight s) then
        (let rq = up_inflight s ! i;
             (p', t) = up_resume (axios_settle (req_response_type rq) out) (up_page s)
         in s\<lparr>up_page := p', up_inflight := remove_nth i (up_inflight s), up_toasts := up_toasts s @ [t]\<rparr>)
      else s)"

fun up_run :: "up_sys \<Rightarrow> up_event list \<Rightarrow> up_sys" where
  "up_run s [] = s"
| "up_run s (e # es) = up_run (up_step s e) es"

section \<open>Rendering\<close>

text \<open>The two result areas of the page: the message line
  \<open>{message && (... <p>{message}</p> ...)}\<close> and the suggestions card
  \<open>{suggestions && (... <pre>{suggestions}</pre> ...)}\<close>, each value rendered
  as a React child; rendering either one may throw.\<close>

definition up_render :: "updateprofile \<Rightarrow> react_exn + rendered \<times> rendered" where
  "up_render p =
     (case render_and (up_message p) (render_child (up_message p)) of
        Inl e \<Rightarrow> Inl e
      | Inr m \<Rightarrow>
          (case render_and (up_suggestions p) (render_child (up_suggestions p)) of
             Inl e \<Rightarrow> Inl e
           | Inr sg \<Rightarrow> Inr (m, sg)))"

section \<open>Abstraction and invariant\<close>

text \<open>The attempt succeeds with the pair of suggestions and message when both reads succeed.\<close>

definition up_outcome :: "axios_error + jsval \<Rightarrow> (jsval \<times> jsval) option" where
  "up_outcome r =
     (case r of
        Inl e \<Rightarrow> None
      | Inr response \<Rightarrow>
          (case (get_prop response ''profile_suggestions'', get_prop response ''message'') of
             (Inr sg, Inr m) \<Rightarrow> Some (sg, m)
           | _ \<Rightarrow> None))"

text \<open>The lifecycle state shown: pending while loading; after a settlement,
  the state the last submission-outcome toast reported (toasts of the Copy
  button are not outcomes).\<close>

definition up_outcome_toasts :: "toast list \<Rightarrow> toast list" where
  "up_outcome_toasts ts = filter (\<lambda>t. title t \<noteq> ''Copied!'') ts"

definition up_abs :: "up_sys \<Rightarrow> (jsval \<times> jsval) op_state" where
  "up_abs s =
     (let ts = up_outcome_toasts (up_toasts s) in
      if up_loading (up_page s) then Pending
      else if ts = [] then Idle
      else if variant (last ts) = ToastDefault
      then Success (up_suggestions (up_page s), up_message (up_page s))
      else Failure)"

fun up_abs_event :: "up_sys \<Rightarrow> up_event \<Rightarrow> (jsval \<times> jsval) op_event" where
  "up_abs_event s UpSubmit = (if up_can_submit (up_page s) then OpSubmit else OpStutter)"
| "up_abs_event s (UpSettle i out) =
     (if i < length (up_inflight s)
      then OpResolve (up_outcome (axios_settle (req_response_type (up_inflight s ! i)) out))
      else OpStutter)"
| "up_abs_event s e = OpStutter"

fun up_abs_trace :: "up_sys \<Rightarrow> up_event list \<Rightarrow> (jsval \<times> jsval) op_event list" where
  "up_abs_trace s [] = []"
| "up_abs_trace s (e # es) = up_abs_event s e # up_abs_trace (up_step s e) es"

definition up_inv :: "up_sys \<Rightarrow> bool" where
  "up_inv s \<longleftrightarrow>
     (up_loading (up_page s) \<longleftrightarrow> up_inflight s \<noteq> []) \<and> length (up_inflight s) \<le> 1 \<and>
     length (up_sent s) = length (up_outcome_toasts (up_toasts s)) + length (up_inflight s)"

section \<open>Lemmas\<close>

lemmas up_eval = up_init_def updateprofile_init_def up_can_submit_def value_missing_def
  up_handleSubmit_def strip_newlines_def LF_def CR_def

lemma up_resume_loading: "up_resume r p = (p', t) \<Longrightarrow> \<not> up_loading p'"
  by (auto simp: up_resume_def split: sum.splits)

lemma up_resume_outcome_toast: "up_resume r p = (p', t) \<Longrightarrow> title t \<noteq> ''Copied!''"
  by (auto simp: up_resume_def success_toast_def error_toast_def split: sum.splits)

lemma up_outcome_toasts_snoc [simp]:
  "up_outcome_toasts (ts @ [t]) = up_outcome_toasts ts @ (if title t = ''Copied!'' then [] else [t])"
  by (simp add: up_outcome_toasts_def)

lemma up_copy_toast_title [simp]:
  "title (success_toast ''Copied!'' d) = ''Copied!''"
  by (simp add: success_toast_def)

lemma up_init_inv: "up_inv up_init"
  by (simp add: up_inv_def up_init_def updateprofile_init_def up_outcome_toasts_def)

lemma up_step_inv:
  assumes inv: "up_inv s"
  shows "up_inv (up_step s e)"
proof (cases e)
  case (UpInput v)
  with inv show ?thesis by (simp add: up_inv_def)
next
  case UpSubmit
  with inv show ?thesis
    by (auto simp: up_inv_def up_can_submit_def up_handleSubmit_def)
next
  case UpCopy
  with inv show ?thesis by (simp add: up_inv_def up_handleCopy_def)
next
  case (UpSettle i out)
  with inv show ?thesis
    by (auto simp: up_inv_def remove_nth_length_le1 up_resume_loading up_resume_outcome_toast
        split: prod.splits)
qed

lemma up_run_inv: "up_inv s \<Longrightarrow> up_inv (up_run s es)"
  by (induction es arbitrary: s) (simp_all add: up_step_inv)

lemma up_reachable_inv: "up_inv (up_run up_init es)"
  by (rule up_run_inv [OF up_init_inv])

lemma up_step_refines:
  assumes inv: "up_inv s"
  shows "up_abs (up_step s e) = op_step (up_abs s) (up_abs_event s e)"
proof (cases e)
  case (UpInput v)
  then show ?thesis by (simp add: up_abs_def Let_def)
next
  case UpSubmit
  then show ?thesis by (auto simp: up_abs_def Let_def up_can_submit_def up_handleSubmit_def)
next
  case UpCopy
  then show ?thesis by (simp add: up_abs_def Let_def up_handleCopy_def)
next
  case (UpSettle i out)
  show ?thesis
  proof (cases "i < length (up_inflight s)")
    case True
    with inv have "up_loading (up_page s)" by (auto simp: up_inv_def)
    with True UpSettle show ?thesis
      by (auto simp: up_abs_def Let_def up_resume_def up_outcome_def success_toast_def error_toast_def
          split: prod.splits sum.splits)
  next
    case False
    with UpSettle show ?thesis by simp
  qed
qed

lemma up_run_refines:
  "up_inv s \<Longrightarrow> up_abs (up_run s es) = op_run (up_abs s) (up_abs_trace s es)"
  by (induction es arbitrary: s) (simp_all add: up_step_refines up_step_inv)

lemma up_resume_obj:
  assumes "200 \<le> st" and "st < 300" and "json_parse (map char_of_byte body) = Some (JObj kvs)"
  shows "up_resume (axios_settle RT_default (Response st body)) p =
           (p\<lparr>up_suggestions := (case map_of kvs ''profile_suggestions'' of None \<Rightarrow> JUndefined | Some v \<Rightarrow> v),
               up_message := (case map_of kvs ''message'' of None \<Rightarrow> JUndefined | Some v \<Rightarrow> v),
               up_loading := False\<rparr>,
            success_toast ''Success!'' (JStr up_success_text))"
proof -
  have "map char_of_byte body \<noteq> []" using assms(3) by (auto simp: json_parse_def skip_ws_def)
  with assms show ?thesis
    by (simp add: axios_settle_def transform_response_def up_resume_def)
qed

lemma up_run_idle:
  assumes "up_inflight s = []" and "UpSubmit \<notin> set es"
  shows "up_inflight (up_run s es) = [] \<and> up_sent (up_run s es) = up_sent s \<and>
         up_outcome_toasts (up_toasts (up_run s es)) = up_outcome_toasts (up_toasts s) \<and>
         up_loading (up_page (up_run s es)) = up_loading (up_page s) \<and>
         up_message (up_page (up_run s es)) = up_message (up_page s) \<and>
         up_suggestions (up_page (up_run s es)) = up_suggestions (up_page s)"
  using assms
proof (induction es arbitrary: s)
  case (Cons e es)
  have "up_inflight (up_step s e) = [] \<and> up_sent (up_step s e) = up_sent s \<and>
        up_outcome_toasts (up_toasts (up_step s e)) = up_outcome_toasts (up_toasts s) \<and>
        up_loading (up_page (up_step s e)) = up_loading (up_page s) \<and>
        up_message (up_page (up_step s e)) = up_message (up_page s) \<and>
        up_suggestions (up_page (up_step s e)) = up_suggestions (up_page s)"
    using Cons.prems by (cases e) (auto simp: up_handleCopy_def)
  with Cons.IH [of "up_step s e"] Cons.prems show ?case by simp
qed simp

lemma up_terminal_stable:
  assumes "up_abs s \<noteq> Pending" and "up_inv s" and "UpSubmit \<notin> set es"
  shows "up_abs (up_run s es) = up_abs s \<and> up_sent (up_run s es) = up_sent s"
proof -
  have "\<not> up_loading (up_page s)" using assms(1) by (auto simp: up_abs_def Let_def)
  then have "up_inflight s = []" using assms(2) by (simp add: up_inv_def)
  from up_run_idle [OF this assms(3)] show ?thesis by (simp add: up_abs_def Let_def)
qed

section \<open>Properties\<close>

text \<open>C3: single flight and exactly-once reporting for the profile view: at
  most one request outstanding, \<open>loading\<close> exactly while one is, and every
  dispatched request outstanding or reported by one outcome toast.\<close>

theorem up_single_flight:
  "length (up_inflight (up_run up_init es)) \<le> 1 \<and>
   (up_loading (up_page (up_run up_init es)) \<longleftrightarrow> up_inflight (up_run up_init es) \<noteq> []) \<and>
   length (up_sent (up_run up_init es)) =
     length (up_outcome_toasts (up_toasts (up_run up_init es))) + length (up_inflight (up_run up_init es))"
  using up_reachable_inv [of es] by (simp add: up_inv_def)

text \<open>C14: the profile view implements the specified operation lifecycle, its
  success carrying the suggestions and message of the answer.\<close>

theorem up_refines_op_spec:
  "up_abs (up_run up_init es) = op_run Idle (up_abs_trace up_init es)"
proof -
  have "up_abs up_init = Idle"
    by (simp add: up_abs_def up_init_def updateprofile_init_def up_outcome_toasts_def)
  then show ?thesis using up_run_refines [OF up_init_inv, of es] by simp
qed

text \<open>A 2xx JSON object answer shows its \<open>profile_suggestions\<close> and
  \<open>message\<close> (\<open>undefined\<close> when absent) with the fixed success toast.\<close>

theorem up_settle_success:
  assumes "200 \<le> st" and "st < 300" and "json_parse (map char_of_byte body) = Some (JObj kvs)"
  shows "up_resume (axios_settle RT_default (Response st body)) p =
           (p\<lparr>up_suggestions := (case map_of kvs ''profile_suggestions'' of None \<Rightarrow> JUndefined | Some v \<Rightarrow> v),
               up_message := (case map_of kvs ''message'' of None \<Rightarrow> JUndefined | Some v \<Rightarrow> v),
               up_loading := False\<rparr>,
            success_toast ''Success!'' (JStr up_success_text))"
  using assms by (rule up_resume_obj)

theorem up_settle_success_witness:
  \<open>up_resume (axios_settle RT_default (Response 200
      (map byte_of_char ''{"message":"done","profile_suggestions":"Add a headline"}''))) updateprofile_init =
   (updateprofile_init\<lparr>up_suggestions := JStr ''Add a headline'', up_message := JStr ''done''\<rparr>,
    success_toast ''Success!'' (JStr up_success_text))\<close>
proof -
  have p: \<open>json_parse (map char_of_byte (map byte_of_char
              ''{"message":"done","profile_suggestions":"Add a headline"}'')) =
           Some (JObj [(''message'', JStr ''done''), (''profile_suggestions'', JStr ''Add a headline'')])\<close>
    by code_simp
  show ?thesis
    using up_settle_success [OF _ _ p, of 200 updateprofile_init] by (simp add: updateprofile_init_def)
qed

text \<open>An answer of the declared type \<open>UpdateProfileResponse\<close> (both
  fields strings) is shown as it is: each non-empty field in its area, an
  empty one not at all.\<close>

theorem up_render_declared_type:
  assumes "200 \<le> st" and "st < 300" and "json_parse (map char_of_byte body) = Some (JObj kvs)"
    and "map_of kvs ''message'' = Some (JStr m)" and "map_of kvs ''profile_suggestions'' = Some (JStr sg)"
  shows "up_render (fst (up_resume (axios_settle RT_default (Response st body)) p)) =
           Inr (if m = [] then NothingShown else Shown m, if sg = [] then NothingShown else Shown sg)"
  using up_resume_obj [OF assms(1-3), of p] assms(4,5)
  by (simp add: up_render_def render_and_def)

theorem up_render_declared_type_witness:
  \<open>up_render (fst (up_resume (axios_settle RT_default (Response 200
      (map byte_of_char ''{"message":"done","profile_suggestions":""}''))) updateprofile_init)) =
   Inr (Shown ''done'', NothingShown)\<close>
proof -
  have p: \<open>json_parse (map char_of_byte (map byte_of_char ''{"message":"done","profile_suggestions":""}'')) =
           Some (JObj [(''message'', JStr ''done''), (''profile_suggestions'', JStr [])])\<close>
    by code_simp
  show ?thesis
    using up_render_declared_type [OF _ _ p, of 200 "''done''" "[]" updateprofile_init] by simp
qed

text \<open>C38: every 2xx answer carrying both properties is reported as
  success, and the page then throws exactly when the message or the
  suggestions cannot be rendered as a React child (e.g. an object): an answer
  deviating from the declared type crashes the view after its success toast.\<close>

theorem up_render_object_crash:
  assumes "get_prop v ''message'' = Inr m" and "get_prop v ''profile_suggestions'' = Inr sg"
  shows "snd (up_resume (Inr v) p) = success_toast ''Success!'' (JStr up_success_text) \<and>
         (isl (up_render (fst (up_resume (Inr v) p))) \<longleftrightarrow> isl (render_child m) \<or> isl (render_child sg))"
  using assms render_and_isl [of m] render_and_isl [of sg]
  by (cases "render_and m (render_child m)"; cases "render_and sg (render_child sg)")
     (simp_all add: up_resume_def up_render_def del: render_and_isl)

theorem up_render_object_crash_witness:
  "snd (up_resume (Inr (JObj [(''message'', JStr ''ok''), (''profile_suggestions'', JObj [(''headline'', JStr ''x'')])])) updateprofile_init) =
     success_toast ''Success!'' (JStr up_success_text) \<and>
   isl (up_render (fst (up_resume (Inr (JObj [(''message'', JStr ''ok''), (''profile_suggestions'', JObj [(''headline'', JStr ''x'')])]))
     updateprofile_init)))"
  using up_render_object_crash [of "JObj [(''message'', JStr ''ok''), (''profile_suggestions'', JObj [(''headline'', JStr ''x'')])]"
      "JStr ''ok''" "JObj [(''headline'', JStr ''x'')]" updateprofile_init] by simp

end
