(* ===== verification/GenerateDocuments.thy ===== *)
theory GenerateDocuments
  imports Transport Lifecycle
begin

text \<open>
  The document-generation view, \<open>src/pages/GenerateDocuments.tsx\<close>.  Its
  React state is \<open>loading\<close>, the form (\<open>formData\<close>, a \<open>UserInfo\<close>) and
  \<open>results\<close> (\<open>null\<close> until a generation succeeds, then whatever value
  the answer was).  Besides \<open>handleSubmit\<close>, the view has
  \<open>handleDownload\<close>, started by the two Download buttons shown while
  \<open>results\<close> is truthy: it fetches the artifact as a \<open>Blob\<close>, creates a
  blob URL and an anchor, clicks it (save-as), revokes the URL and removes the
  anchor.  Downloads have no guard, so any number may be outstanding beside the
  one generation; each outstanding request remembers which continuation runs
  when it settles (\<open>gd_call\<close>).
\<close>

section \<open>The form\<close>

datatype gd_field = FName | FEmail | FPhone | FSkills | FExperience | FEducation
  | FJobDescription | FLinkedin

text \<open>The control each field is entered in: \<open><Input></\<close>, \<open><Input type="email"></\<close>
  or \<open><Textarea></\<close>.\<close>

fun field_control :: "gd_field \<Rightarrow> control" where
  "field_control FEmail = EmailInput"
| "field_control FSkills = TextArea"
| "field_control FExperience = TextArea"
| "field_control FEducation = TextArea"
| "field_control FJobDescription = TextArea"
| "field_control f = TextInput"

text \<open>\<open>onChange={(e) => setFormData({ ...formData, f: e.target.value })}\<close>.\<close>

fun set_field :: "gd_field \<Rightarrow> string \<Rightarrow> UserInfo \<Rightarrow> UserInfo" where
  "set_field FName v d = d\<lparr>name := v\<rparr>"
| "set_field FEmail v d = d\<lparr>email := v\<rparr>"
| "set_field FPhone v d = d\<lparr>phone := v\<rparr>"
| "set_field FSkills v d = d\<lparr>skills := v\<rparr>"
| "set_field FExperience v d = d\<lparr>experience := v\<rparr>"
| "set_field FEducation v d = d\<lparr>education := v\<rparr>"
| "set_field FJobDescription v d = d\<lparr>job_description := v\<rparr>"
| "set_field FLinkedin v d = d\<lparr>linkedin_profile_url := Some v\<rparr>"

definition empty_form :: UserInfo where
  "empty_form = \<lparr>name = [], email = [], phone = [], skills = [], experience = [], education = [],
                 job_description = [], linkedin_profile_url = Some []\<rparr>"

text \<open>Constraint validation of the form: the seven \<open>required\<close> fields are
  filled and the e-mail field has no type mismatch; the LinkedIn URL is optional.\<close>

definition gd_form_valid :: "UserInfo \<Rightarrow> bool" where
  "gd_form_valid d \<longleftrightarrow>
     \<not> value_missing (name d) \<and> \<not> value_missing (email d) \<and> \<not> type_mismatch_email (email d) \<and>
     \<not> value_missing (phone d) \<and> \<not> value_missing (skills d) \<and> \<not> value_missing (experience d) \<and>
     \<not> value_missing (education d) \<and> \<not> value_missing (job_description d)"

section \<open>State and handlers\<close>

record generatedocs =
  gd_loading :: bool
  gd_formData :: UserInfo
  gd_results :: jsval

definition generatedocs_init :: generatedocs where
  "generatedocs_init = \<lparr>gd_loading = False, gd_formData = empty_form, gd_results = JNull\<rparr>"

definition gd_can_submit :: "generatedocs \<Rightarrow> bool" where
  "gd_can_submit p \<longleftrightarrow> \<not> gd_loading p \<and> gd_form_valid (gd_formData p)"

text \<open>\<open>setLoading(true); generateDocuments(formData)\<close>: \<open>results\<close> is not cleared.\<close>

definition gd_handleSubmit :: "generatedocs \<Rightarrow> generatedocs \<times> http_request" where
  "gd_handleSubmit p = (p\<lparr>gd_loading := True\<rparr>, generateDocuments_req (gd_formData p))"

definition gd_error_text :: string where
  "gd_error_text = ''Failed to generate documents. Please try again.''"

text \<open>After the \<open>await\<close>: \<open>setResults(response)\<close> reads no property, so
  any resolved value becomes \<open>results\<close>; a rejection keeps the old one.\<close>

definition gd_resume :: "axios_error + jsval \<Rightarrow> generatedocs \<Rightarrow> generatedocs \<times> toast" where
  "gd_resume r p =
     (case r of
        Inl e \<Rightarrow> (p\<lparr>gd_loading := False\<rparr>, error_toast gd_error_text)
      | Inr response \<Rightarrow>
          (p\<lparr>gd_results := response, gd_loading := False\<rparr>,
           success_toast ''Success!'' (JStr ''Your documents have been generated successfully.'')))"

definition download_error_text :: string where
  "download_error_text = ''Failed to download file.''"

text \<open>\<open>handleDownload\<close> after its \<open>await\<close>, on the host: the blob URL and
  the anchor are created, the anchor appended and clicked, the URL revoked and
  the anchor removed, then the success toast; \<open>createObjectURL\<close> of a
  non-\<open>Blob\<close> and \<open>removeChild\<close> of a non-child throw into \<open>catch\<close>.\<close>

definition handleDownload_resume :: "axios_error + jsval \<Rightarrow> string \<Rightarrow> host \<Rightarrow> host \<times> toast" where
  "handleDownload_resume r displayName h =
     (case r of
        Inl e \<Rightarrow> (h, error_toast download_error_text)
      | Inr blob \<Rightarrow>
          (case blob of
             JBlob b \<Rightarrow>
               (let (url, h1) = create_object_url b h;
                    (a, h2) = create_anchor h1;
                    h3 = append_child a h2;
                    h4 = click_download url displayName h3;
                    h5 = revoke_object_url url h4
                in (case remove_child a h5 of
                      Inl exn \<Rightarrow> (h5, error_toast download_error_text)
                    | Inr h6 \<Rightarrow>
                        (h6, success_toast ''Downloaded'' (JStr (displayName @ '' downloaded successfully.'')))))
           | _ \<Rightarrow> (h, error_toast download_error_text)))"

section \<open>The view among its requests\<close>

datatype gd_call = GenCall | DlCall string

record gd_sys =
  gd_page :: generatedocs
  gd_inflight :: "(gd_call \<times> http_request) list"
  gd_sent :: "(gd_call \<times> http_request) list"
  gd_toasts :: "toast list"
  gd_host :: host

definition gd_init :: gd_sys where
  "gd_init = \<lparr>gd_page = generatedocs_init, gd_inflight = [], gd_sent = [], gd_toasts = [], gd_host = host0\<rparr>"

datatype gd_event = GdInput gd_field string | GdSubmit | GdDownloadCV | GdDownloadLetter
  | GdSettle nat http_outcome

text \<open>\<open>handleDownload(filename, displayName)\<close> up to its \<open>await\<close>.\<close>

definition gd_handleDownload :: "jsval \<Rightarrow> string \<Rightarrow> gd_sys \<Rightarrow> gd_sys" where
  "gd_handleDownload filename displayName s =
     (let c = (DlCall displayName, downloadFile_req filename)
      in s\<lparr>gd_inflight := gd_inflight s @ [c], gd_sent := gd_sent s @ [c]\<rparr>)"

text \<open>A Download button exists while \<open>results\<close> is truthy; its \<open>onClick\<close>
  reads the path property of \<open>results\<close> and calls \<open>handleDownload\<close>.\<close>

definition gd_click_download :: "string \<Rightarrow> string \<Rightarrow> gd_sys \<Rightarrow> gd_sys" where
  "gd_click_download key displayName s =
     (if truthy (gd_results (gd_page s)) then
        (case get_prop (gd_results (gd_page s)) key of
           Inl exn \<Rightarrow> s
         | Inr filename \<Rightarrow> gd_handleDownload filename displayName s)
      else s)"

fun gd_step :: "gd_sys \<Rightarrow> gd_event \<Rightarrow> gd_sys" where
  "gd_step s (GdInput f v) =
     s\<lparr>gd_page := (gd_page s)\<lparr>gd_formData := set_field f (control_value (field_control f) v) (gd_formData (gd_page s))\<rparr>\<rparr>"
| "gd_step s GdSubmit =
     (if gd_can_submit (gd_page s) then
        (let (p', rq) = gd_handleSubmit (gd_page s)
         in s\<lparr>gd_page := p', gd_inflight := gd_inflight s @ [(GenCall, rq)],
              gd_sent := gd_sent s @ [(GenCall, rq)]\<rparr>)
      else s)"
| "gd_step s GdDownloadCV = gd_click_download ''cv_path'' ''CV.docx'' s"
| "gd_step s GdDownloadLetter = gd_click_download ''cover_letter_path'' ''CoverLetter.docx'' s"
| "gd_step s (GdSettle i out) =
     (if i < length (gd_inflight s) then
        (let (c, rq) = gd_inflight s ! i;
             r = axios_settle (req_response_type rq) out;
             s' = s\<lparr>gd_inflight := remove_nth i (gd_inflight s)\<rparr>
         in case c of
              GenCall \<Rightarrow>
                (let (p', t) = gd_resume r (gd_page s) in s'\<lparr>gd_page := p', gd_toasts := gd_toasts s @ [t]\<rparr>)
            | DlCall displayName \<Rightarrow>
                (let (h', t) = handleDownload_resume r displayName (gd_host s)
                 in s'\<lparr>gd_host := h', gd_toasts := gd_toasts s @ [t]\<rparr>))
      else s)"

fun gd_run :: "gd_sys \<Rightarrow> gd_event list \<Rightarrow> gd_sys" where
  "gd_run s [] = s"
| "gd_run s (e # es) = gd_run (gd_step s e) es"

section \<open>Rendering\<close>

text \<open>The results area: while \<open>results\<close> is truthy, the two preview cards
  with \<open>results.cv_preview\<close> and \<open>results.cover_letter_preview\<close> as
  children of their \<open><pre>\<close> (and the two Download buttons); otherwise
  the placeholder card.\<close>

datatype gd_results_view = Placeholder | Previews string string

definition gd_render_results :: "jsval \<Rightarrow> react_exn + gd_results_view" where
  "gd_render_results r =
     (if truthy r then
        (case render_prop r ''cv_preview'' of
           Inl e \<Rightarrow> Inl e
         | Inr cv \<Rightarrow>
             (case render_prop r ''cover_letter_preview'' of
                Inl e \<Rightarrow> Inl e
              | Inr cl \<Rightarrow> Inr (Previews cv cl)))
      else Inr Placeholder)"

section \<open>Invariant\<close>

definition gen_calls :: "(gd_call \<times> http_request) list \<Rightarrow> nat" where
  "gen_calls cs = length (filter (\<lambda>c. fst c = GenCall) cs)"

text \<open>At most one generation outstanding, \<open>loading\<close> exactly while one is,
  every dispatched request outstanding or reported by one toast, and the host
  holds no blob URL and no anchor between events.\<close>

definition gd_inv :: "gd_sys \<Rightarrow> bool" where
  "gd_inv s \<longleftrightarrow>
     (gd_loading (gd_page s) \<longleftrightarrow> gen_calls (gd_inflight s) \<noteq> 0) \<and> gen_calls (gd_inflight s) \<le> 1 \<and>
     length (gd_sent s) = length (gd_toasts s) + length (gd_inflight s) \<and>
     object_urls (gd_host s) = [] \<and> body_children (gd_host s) = []"

text \<open>The values the view holds: every outstanding generation request reads
  its answer with the default response type, and \<open>results\<close> is a JSON value.\<close>

definition gd_vals_inv :: "gd_sys \<Rightarrow> bool" where
  "gd_vals_inv s \<longleftrightarrow>
     (\<forall>rq. (GenCall, rq) \<in> set (gd_inflight s) \<longrightarrow> req_response_type rq = RT_default) \<and>
     json_wf (gd_results (gd_page s))"

section \<open>Where artifact references come from\<close>

text \<open>The run as the list of states and the events applied to them, the
  values that answers to generation requests resolved to along it (the
  session's \<open>GeneratedDocumentSet\<close>s), the two Download buttons with the
  property each reads, and the invariant relating the requests sent to those
  answers: each download names a path property of an answer, and
  \<open>results\<close>, when truthy, is one of them.\<close>

fun gd_steps :: "gd_sys \<Rightarrow> gd_event list \<Rightarrow> (gd_sys \<times> gd_event) list" where
  "gd_steps s [] = []"
| "gd_steps s (e # es) = (s, e) # gd_steps (gd_step s e) es"

fun gd_gen_answer :: "gd_sys \<Rightarrow> gd_event \<Rightarrow> jsval option" where
  "gd_gen_answer s (GdSettle i out) =
     (if i < length (gd_inflight s) \<and> fst (gd_inflight s ! i) = GenCall then
        (case axios_settle (req_response_type (snd (gd_inflight s ! i))) out of Inl e \<Rightarrow> None | Inr r \<Rightarrow> Some r)
      else None)"
| "gd_gen_answer s e = None"

definition gd_answers :: "gd_sys \<Rightarrow> gd_event list \<Rightarrow> jsval list" where
  "gd_answers s es = List.map_filter (\<lambda>(s, e). gd_gen_answer s e) (gd_steps s es)"

definition dl_buttons :: "(string \<times> string) list" where
  "dl_buttons = [(''CV.docx'', ''cv_path''), (''CoverLetter.docx'', ''cover_letter_path'')]"

definition dl_from :: "jsval list \<Rightarrow> string \<Rightarrow> http_request \<Rightarrow> bool" where
  "dl_from A n rq \<longleftrightarrow>
     (\<exists>r \<in> set A. \<exists>key f. (n, key) \<in> set dl_buttons \<and> get_prop r key = Inr f \<and> rq = downloadFile_req f)"

definition gd_prov :: "jsval list \<Rightarrow> gd_sys \<Rightarrow> bool" where
  "gd_prov A s \<longleftrightarrow>
     (\<forall>(c, rq) \<in> set (gd_sent s). case c of GenCall \<Rightarrow> True | DlCall n \<Rightarrow> dl_from A n rq) \<and>
     (truthy (gd_results (gd_page s)) \<longrightarrow> gd_results (gd_page s) \<in> set A)"

section \<open>Scenarios of the specification\<close>

text \<open>A user filling every required field, and the answer of a successful
  generation naming the artifact \<open>CV_123.docx\<close> (spec section 8).\<close>

definition filled_form :: "gd_event list" where
  "filled_form = [GdInput FName ''Ann'', GdInput FEmail ''ann@x.org'', GdInput FPhone ''1'',
     GdInput FSkills ''Isabelle'', GdInput FExperience ''e'', GdInput FEducation ''d'',
     GdInput FJobDescription ''j'']"

definition generated_body :: blob where
  "generated_body = map byte_of_char
     [CHR ''{'', CHR 0x22, CHR ''c'', CHR ''v'', CHR ''_'', CHR ''p'', CHR ''a'', CHR ''t'', CHR ''h'',
      CHR 0x22, CHR '':'', CHR 0x22] @ map byte_of_char ''CV_123.docx'' @ map byte_of_char [CHR 0x22, CHR ''}'']"

definition generated_run :: "gd_event list" where
  "generated_run = filled_form @ [GdSubmit, GdSettle 0 (Response 200 generated_body)]"

section \<open>Lemmas\<close>

lemma handleDownload_resume_blob:
  assumes url: "next_url h \<notin> fst ` set (object_urls h)" and el: "next_elem h \<notin> set (body_children h)"
  shows "handleDownload_resume (Inr (JBlob b)) n h =
           (h\<lparr>next_url := Suc (next_url h), next_elem := Suc (next_elem h), saves := saves h @ [(n, b)]\<rparr>,
            success_toast ''Downloaded'' (JStr (n @ '' downloaded successfully.'')))"
proof -
  let ?u = "next_url h" and ?a = "next_elem h"
  have f: "filter (\<lambda>p. fst p \<noteq> ?u) (object_urls h) = object_urls h"
    using url by (force simp: filter_id_conv)
  have "map_of (object_urls h) ?u = None" using url by (simp add: map_of_eq_None_iff)
  then have m: "map_of (object_urls h @ [(?u, b)]) ?u = Some b" by (simp add: map_add_def)
  have r: "remove1 ?a (body_children h @ [?a]) = body_children h"
    using el by (simp add: remove1_append)
  show ?thesis
    using f m r by (simp add: handleDownload_resume_def create_object_url_def create_anchor_def
        append_child_def click_download_def revoke_object_url_def remove_child_def Let_def)
qed

lemma handleDownload_resume_not_blob:
  "(\<forall>b. v \<noteq> JBlob b) \<Longrightarrow> handleDownload_resume (Inr v) n h = (h, error_toast download_error_text)"
  by (cases v) (simp_all add: handleDownload_resume_def)

lemma handleDownload_resume_clean:
  assumes u: "object_urls h = []" and c: "body_children h = []"
    and eq: "handleDownload_resume r n h = (h', t)"
  shows "object_urls h' = [] \<and> body_children h' = []"
proof (cases r)
  case (Inl e)
  with eq u c show ?thesis by (simp add: handleDownload_resume_def)
next
  case (Inr v)
  show ?thesis
  proof (cases "\<exists>b. v = JBlob b")
    case True
    then obtain b where "v = JBlob b" by blast
    with Inr eq u c show ?thesis by (auto simp: handleDownload_resume_blob)
  next
    case False
    with Inr eq u c show ?thesis by (simp add: handleDownload_resume_not_blob)
  qed
qed

lemma gen_calls_snoc [simp]:
  "gen_calls (cs @ [c]) = gen_calls cs + (if fst c = GenCall then 1 else 0)"
  by (simp add: gen_calls_def)

lemma gen_calls_remove_nth:
  "i < length cs \<Longrightarrow> gen_calls (remove_nth i cs) = gen_calls cs - (if fst (cs ! i) = GenCall then 1 else 0)"
  by (simp add: gen_calls_def length_filter_remove_nth)

lemma gen_calls_pos: "i < length cs \<Longrightarrow> fst (cs ! i) = GenCall \<Longrightarrow> 0 < gen_calls cs"
  using nth_mem [of i cs] by (fastforce simp: gen_calls_def filter_empty_conv)

lemma gd_resume_loading: "gd_resume r p = (p', t) \<Longrightarrow> \<not> gd_loading p'"
  by (auto simp: gd_resume_def split: sum.splits)

lemma gd_click_download_cases:
  "gd_click_download k n s = s \<or> (\<exists>f. gd_click_download k n s = gd_handleDownload f n s)"
  by (auto simp: gd_click_download_def split: sum.splits)

lemma gd_handleDownload_inv: "gd_inv s \<Longrightarrow> gd_inv (gd_handleDownload f n s)"
  by (simp add: gd_inv_def gd_handleDownload_def Let_def)

lemma gd_click_download_inv: "gd_inv s \<Longrightarrow> gd_inv (gd_click_download k n s)"
  using gd_click_download_cases [of k n s] gd_handleDownload_inv by auto

lemma gd_settle_inv:
  assumes inv: "gd_inv s"
  shows "gd_inv (gd_step s (GdSettle i out))"
proof (cases "i < length (gd_inflight s)")
  case False
  with inv show ?thesis by simp
next
  case True
  obtain c rq where ci: "gd_inflight s ! i = (c, rq)" by fastforce
  have len: "gd_inflight s \<noteq> []" using True by auto
  show ?thesis
  proof (cases c)
    case GenCall
    then have pos: "0 < gen_calls (gd_inflight s)" using gen_calls_pos [OF True] ci by simp
    with inv True ci GenCall len show ?thesis
      by (auto simp: gd_inv_def gen_calls_remove_nth gd_resume_loading split: prod.splits)
  next
    case (DlCall n)
    with inv True ci len show ?thesis
      by (auto simp: gd_inv_def gen_calls_remove_nth dest: handleDownload_resume_clean
          split: prod.splits)
  qed
qed

lemma gd_step_inv:
  assumes inv: "gd_inv s"
  shows "gd_inv (gd_step s e)"
proof (cases e)
  case (GdInput f v)
  with inv show ?thesis by (simp add: gd_inv_def)
next
  case GdSubmit
  with inv show ?thesis by (auto simp: gd_inv_def gd_can_submit_def gd_handleSubmit_def)
next
  case GdDownloadCV
  with inv show ?thesis by (simp add: gd_click_download_inv)
next
  case GdDownloadLetter
  with inv show ?thesis by (simp add: gd_click_download_inv)
next
  case (GdSettle i out)
  with inv show ?thesis by (simp only: gd_settle_inv)
qed

lemma gd_init_inv: "gd_inv gd_init"
  by (simp add: gd_inv_def gd_init_def generatedocs_init_def gen_calls_def host0_def)

lemma gd_run_inv: "gd_inv s \<Longrightarrow> gd_inv (gd_run s es)"
  by (induction es arbitrary: s) (simp_all add: gd_step_inv)

lemma gd_reachable_inv: "gd_inv (gd_run gd_init es)"
  by (rule gd_run_inv [OF gd_init_inv])

lemma gd_answers_Cons [simp]:
  "gd_answers s (e # es) = (case gd_gen_answer s e of None \<Rightarrow> [] | Some r \<Rightarrow> [r]) @ gd_answers (gd_step s e) es"
  by (simp add: gd_answers_def map_filter_simps split: option.split)

lemma gd_answers_Nil [simp]: "gd_answers s [] = []"
  by (simp add: gd_answers_def map_filter_simps)

lemma dl_from_mono: "dl_from A n rq \<Longrightarrow> dl_from (A @ B) n rq"
  by (auto simp: dl_from_def)

lemma gd_prov_mono: "gd_prov A s \<Longrightarrow> gd_prov (A @ B) s"
  by (auto simp: gd_prov_def dl_from_mono split: gd_call.splits)

lemma gd_click_download_prov:
  assumes "gd_prov A s" and "(n, key) \<in> set dl_buttons"
  shows "gd_prov A (gd_click_download key n s)"
  using assms by (auto simp: gd_prov_def gd_click_download_def gd_handleDownload_def dl_from_def Let_def
      split: sum.splits)

lemma gd_settle_prov:
  assumes "gd_prov A s"
  shows "gd_prov (A @ (case gd_gen_answer s (GdSettle i out) of None \<Rightarrow> [] | Some r \<Rightarrow> [r]))
           (gd_step s (GdSettle i out))"
proof (cases "i < length (gd_inflight s)")
  case True
  obtain c rq where c: "gd_inflight s ! i = (c, rq)" by fastforce
  show ?thesis
  proof (cases c)
    case GenCall
    then show ?thesis using assms True c
      by (auto simp: gd_prov_def gd_resume_def Let_def dl_from_mono split: sum.splits prod.splits gd_call.splits)
  next
    case (DlCall n)
    then show ?thesis using assms True c
      by (auto simp: gd_prov_def Let_def split: prod.splits)
  qed
qed (use assms in simp)

lemma gd_step_prov:
  assumes "gd_prov A s"
  shows "gd_prov (A @ (case gd_gen_answer s e of None \<Rightarrow> [] | Some r \<Rightarrow> [r])) (gd_step s e)"
proof (cases e)
  case (GdSettle i out)
  then show ?thesis using gd_settle_prov [OF assms] by simp
next
  case GdDownloadCV
  then show ?thesis using gd_click_download_prov [OF assms] by (simp add: dl_buttons_def)
next
  case GdDownloadLetter
  then show ?thesis using gd_click_download_prov [OF assms] by (simp add: dl_buttons_def)
qed (use assms in \<open>auto simp: gd_prov_def gd_handleSubmit_def Let_def split: prod.splits\<close>)

lemma gd_run_prov: "gd_prov A s \<Longrightarrow> gd_prov (A @ gd_answers s es) (gd_run s es)"
proof (induction es arbitrary: A s)
  case (Cons e es)
  from Cons.IH [OF gd_step_prov [OF Cons.prems, of e]] show ?case by simp
qed simp

lemma gd_step_vals_inv:
  assumes "gd_vals_inv s"
  shows "gd_vals_inv (gd_step s e)"
proof (cases e)
  case (GdSettle i out)
  show ?thesis
  proof (cases "i < length (gd_inflight s)")
    case True
    obtain c rq where c: "gd_inflight s ! i = (c, rq)" by fastforce
    have sub: "set (remove_nth i (gd_inflight s)) \<subseteq> set (gd_inflight s)" by (rule set_remove_nth_subset)
    show ?thesis
    proof (cases c)
      case GenCall
      with c True have "(GenCall, rq) \<in> set (gd_inflight s)" by (metis nth_mem)
      with assms have rt: "req_response_type rq = RT_default" by (simp add: gd_vals_inv_def)
      show ?thesis using GenCall GdSettle True c assms sub rt settle_default_wf [of out]
        by (auto simp: gd_vals_inv_def gd_resume_def Let_def split: sum.splits)
    next
      case (DlCall n)
      then show ?thesis using GdSettle True c assms sub
        by (auto simp: gd_vals_inv_def Let_def split: prod.splits)
    qed
  qed (use GdSettle assms in simp)
qed (use assms in \<open>auto simp: gd_vals_inv_def gd_handleSubmit_def gd_click_download_def
       gd_handleDownload_def Let_def split: sum.splits prod.splits\<close>)

lemma gd_reachable_vals_inv: "gd_vals_inv (gd_run gd_init es)"
proof -
  have "gd_vals_inv s \<Longrightarrow> gd_vals_inv (gd_run s es)" for s
    by (induction es arbitrary: s) (simp_all add: gd_step_vals_inv)
  moreover have "gd_vals_inv gd_init" by (simp add: gd_vals_inv_def gd_init_def generatedocs_init_def)
  ultimately show ?thesis by blast
qed

lemma gd_reachable_gen_rt:
  assumes "i < length (gd_inflight (gd_run gd_init es))" and "fst (gd_inflight (gd_run gd_init es) ! i) = GenCall"
  shows "req_response_type (snd (gd_inflight (gd_run gd_init es) ! i)) = RT_default"
proof -
  have "(GenCall, snd (gd_inflight (gd_run gd_init es) ! i)) \<in> set (gd_inflight (gd_run gd_init es))"
    using assms by (metis nth_mem prod.collapse)
  with gd_reachable_vals_inv [of es] show ?thesis by (simp add: gd_vals_inv_def)
qed

section \<open>Properties\<close>

text \<open>C1: single flight of document generation: however downloads interleave,
  at most one generation request is outstanding, \<open>loading\<close> holds exactly
  while one is, and every dispatched request (generation or download) is
  outstanding or reported by exactly one toast.\<close>

theorem gd_single_flight:
  "gen_calls (gd_inflight (gd_run gd_init es)) \<le> 1 \<and>
   (gd_loading (gd_page (gd_run gd_init es)) \<longleftrightarrow> gen_calls (gd_inflight (gd_run gd_init es)) \<noteq> 0) \<and>
   length (gd_sent (gd_run gd_init es)) =
     length (gd_toasts (gd_run gd_init es)) + length (gd_inflight (gd_run gd_init es))"
  using gd_reachable_inv [of es] by (simp add: gd_inv_def)

text \<open>C7: downloads release what they acquire: between events no blob URL
  is alive and no anchor is left in the document body, on every path of
  \<open>handleDownload\<close>.\<close>

theorem gd_downloads_release_resources:
  "object_urls (gd_host (gd_run gd_init es)) = [] \<and> body_children (gd_host (gd_run gd_init es)) = []"
  using gd_reachable_inv [of es] by (simp add: gd_inv_def)

text \<open>C10: a successful download hands exactly the blob received to save-as
  under the display name, consumes one fresh URL and one fresh element, leaves
  the live URLs and the body's children as they were, and reports success.\<close>

theorem gd_download_success:
  assumes "next_url h \<notin> fst ` set (object_urls h)" and "next_elem h \<notin> set (body_children h)"
  shows "handleDownload_resume (Inr (JBlob b)) n h =
           (h\<lparr>next_url := Suc (next_url h), next_elem := Suc (next_elem h), saves := saves h @ [(n, b)]\<rparr>,
            success_toast ''Downloaded'' (JStr (n @ '' downloaded successfully.'')))"
  using assms by (rule handleDownload_resume_blob)

theorem gd_download_success_witness:
  "handleDownload_resume (Inr (JBlob [1, 2])) ''CV.docx'' host0 =
     (host0\<lparr>next_url := 1, next_elem := 1, saves := [(''CV.docx'', [1, 2])]\<rparr>,
      success_toast ''Downloaded'' (JStr ''CV.docx downloaded successfully.''))"
proof -
  have u: "next_url host0 \<notin> fst ` set (object_urls host0)" and e: "next_elem host0 \<notin> set (body_children host0)"
    by (simp_all add: host0_def)
  show ?thesis using gd_download_success [OF u e, of "[1, 2]" "''CV.docx''"] by (simp add: host0_def)
qed

text \<open>C5: a submission dispatches the generation request exactly when the
  view is not loading, the seven fields marked \<open>required\<close> (name, e-mail,
  phone, skills, experience, education, job description) are non-empty and
  the e-mail is an address; the LinkedIn URL is optional.  Otherwise nothing
  is sent (spec 4.2: empty fields never reach the network).\<close>

theorem gd_submit_requires_valid_form:
  "gd_sent (gd_step s GdSubmit) =
     (if \<not> gd_loading (gd_page s) \<and> name (gd_formData (gd_page s)) \<noteq> [] \<and> email (gd_formData (gd_page s)) \<noteq> [] \<and>
         \<not> type_mismatch_email (email (gd_formData (gd_page s))) \<and> phone (gd_formData (gd_page s)) \<noteq> [] \<and>
         skills (gd_formData (gd_page s)) \<noteq> [] \<and> experience (gd_formData (gd_page s)) \<noteq> [] \<and>
         education (gd_formData (gd_page s)) \<noteq> [] \<and> job_description (gd_formData (gd_page s)) \<noteq> []
      then gd_sent s @ [(GenCall, generateDocuments_req (gd_formData (gd_page s)))]
      else gd_sent s)"
  by (simp add: gd_can_submit_def gd_form_valid_def value_missing_def gd_handleSubmit_def)

text \<open>C12: a failed download (spec section 8, the 404 scenario, for every
  non-2xx status): in any state whose results carry a \<open>cv_path\<close>, Download
  CV requests that file; when the answer has a non-2xx status exactly one
  failure toast is issued, the host (live URLs, body, saved files) is left as
  it was, and nothing stays outstanding for it.\<close>

theorem gd_download_404:
  assumes "truthy (gd_results (gd_page s))" and "get_prop (gd_results (gd_page s)) ''cv_path'' = Inr f"
    and "\<not> (200 \<le> st \<and> st < 300)"
  shows "gd_sent (gd_step s GdDownloadCV) = gd_sent s @ [(DlCall ''CV.docx'', downloadFile_req f)] \<and>
         gd_toasts (gd_step (gd_step s GdDownloadCV) (GdSettle (length (gd_inflight s)) (Response st b))) =
           gd_toasts s @ [error_toast download_error_text] \<and>
         gd_host (gd_step (gd_step s GdDownloadCV) (GdSettle (length (gd_inflight s)) (Response st b))) = gd_host s \<and>
         gd_inflight (gd_step (gd_step s GdDownloadCV) (GdSettle (length (gd_inflight s)) (Response st b))) =
           gd_inflight s"
  using assms
  by (simp add: gd_click_download_def gd_handleDownload_def Let_def axios_settle_non_2xx
      handleDownload_resume_def)

theorem gd_download_404_witness:
  "gd_toasts (gd_step (gd_step (gd_run gd_init generated_run) GdDownloadCV) (GdSettle 0 (Response 404 []))) =
     gd_toasts (gd_run gd_init generated_run) @ [error_toast download_error_text] \<and>
   gd_host (gd_step (gd_step (gd_run gd_init generated_run) GdDownloadCV) (GdSettle 0 (Response 404 []))) =
     gd_host (gd_run gd_init generated_run)"
proof -
  have r: "gd_results (gd_page (gd_run gd_init generated_run)) = JObj [(''cv_path'', JStr ''CV_123.docx'')]"
    and i: "gd_inflight (gd_run gd_init generated_run) = []"
    by code_simp+
  show ?thesis
    using gd_download_404 [of "gd_run gd_init generated_run" "JStr ''CV_123.docx''" 404 "[]"] r i by simp
qed

text \<open>C22: \<open>results\<close> is neither cleared by a new submission nor by its
  failure: in any state, submitting keeps \<open>results\<close>, and when a
  generation request fails (no response or a non-2xx status) the view stops
  loading, reports the error, and still holds (and downloads) the previous
  \<open>results\<close>.\<close>

theorem gd_stale_results_after_failure:
  assumes "i < length (gd_inflight s)" and "fst (gd_inflight s ! i) = GenCall"
    and "out = NoResponse \<or> out = Response st b \<and> \<not> (200 \<le> st \<and> st < 300)"
  shows "gd_results (gd_page (gd_step s GdSubmit)) = gd_results (gd_page s) \<and>
         gd_results (gd_page (gd_step s (GdSettle i out))) = gd_results (gd_page s) \<and>
         \<not> gd_loading (gd_page (gd_step s (GdSettle i out))) \<and>
         last (gd_toasts (gd_step s (GdSettle i out))) = error_toast gd_error_text"
  using assms
  by (auto simp: gd_handleSubmit_def gd_resume_def axios_settle_def Let_def split: prod.splits)

theorem gd_stale_results_after_failure_witness:
  "gd_results (gd_page (gd_step (gd_run gd_init (generated_run @ [GdSubmit])) GdSubmit)) =
     gd_results (gd_page (gd_run gd_init (generated_run @ [GdSubmit]))) \<and>
   gd_results (gd_page (gd_step (gd_run gd_init (generated_run @ [GdSubmit])) (GdSettle 0 (Response 500 [])))) =
     gd_results (gd_page (gd_run gd_init (generated_run @ [GdSubmit]))) \<and>
   \<not> gd_loading (gd_page (gd_step (gd_run gd_init (generated_run @ [GdSubmit])) (GdSettle 0 (Response 500 [])))) \<and>
   last (gd_toasts (gd_step (gd_run gd_init (generated_run @ [GdSubmit])) (GdSettle 0 (Response 500 [])))) =
     error_toast gd_error_text"
  by (rule gd_stale_results_after_failure [where st = 500 and b = "[]"]; code_simp)

text \<open>C23: in every reachable state, a 2xx answer to the outstanding
  generation whose body is JSON \<open>null\<close> is reported as success, yet
  \<open>results\<close> is \<open>null\<close>: the view shows its placeholder and Download
  does nothing.\<close>

theorem gd_null_answer_success:
  assumes "i < length (gd_inflight (gd_run gd_init es))" and "fst (gd_inflight (gd_run gd_init es) ! i) = GenCall"
    and "200 \<le> st" and "st < 300" and "json_parse (map char_of_byte b) = Some JNull"
  shows "last (gd_toasts (gd_step (gd_run gd_init es) (GdSettle i (Response st b)))) =
           success_toast ''Success!'' (JStr ''Your documents have been generated successfully.'') \<and>
         gd_results (gd_page (gd_step (gd_run gd_init es) (GdSettle i (Response st b)))) = JNull \<and>
         gd_render_results (gd_results (gd_page (gd_step (gd_run gd_init es) (GdSettle i (Response st b))))) =
           Inr Placeholder \<and>
         gd_step (gd_step (gd_run gd_init es) (GdSettle i (Response st b))) GdDownloadCV =
           gd_step (gd_run gd_init es) (GdSettle i (Response st b))"
proof -
  have rt: "req_response_type (snd (gd_inflight (gd_run gd_init es) ! i)) = RT_default"
    using assms(1,2) by (rule gd_reachable_gen_rt)
  have "map char_of_byte b \<noteq> []" using assms(5) by auto
  then show ?thesis using assms rt
    by (auto simp: gd_resume_def axios_settle_def transform_response_def gd_render_results_def
        gd_click_download_def Let_def split: prod.splits)
qed

theorem gd_null_answer_success_witness:
  "last (gd_toasts (gd_step (gd_run gd_init (filled_form @ [GdSubmit])) (GdSettle 0 (Response 200 (map byte_of_char ''null''))))) =
     success_toast ''Success!'' (JStr ''Your documents have been generated successfully.'') \<and>
   gd_results (gd_page (gd_step (gd_run gd_init (filled_form @ [GdSubmit])) (GdSettle 0 (Response 200 (map byte_of_char ''null''))))) = JNull \<and>
   gd_render_results (gd_results (gd_page (gd_step (gd_run gd_init (filled_form @ [GdSubmit]))
       (GdSettle 0 (Response 200 (map byte_of_char ''null'')))))) = Inr Placeholder \<and>
   gd_step (gd_step (gd_run gd_init (filled_form @ [GdSubmit])) (GdSettle 0 (Response 200 (map byte_of_char ''null'')))) GdDownloadCV =
     gd_step (gd_run gd_init (filled_form @ [GdSubmit])) (GdSettle 0 (Response 200 (map byte_of_char ''null'')))"
  by (rule gd_null_answer_success; code_simp)



text \<open>C11: artifact references are only valid after a generation answer of
  the same session (spec section 3): every download the view requests names
  the path property its button reads in a value that an answer to a
  generation request resolved to, and nothing else.\<close>

theorem gd_downloads_name_received_artifacts:
  "(DlCall n, rq) \<in> set (gd_sent (gd_run gd_init es)) \<Longrightarrow>
   \<exists>r \<in> set (gd_answers gd_init es). \<exists>key f. (n, key) \<in> set dl_buttons \<and> get_prop r key = Inr f \<and> rq = downloadFile_req f"
  using gd_run_prov [of "[]" gd_init es]
  by (fastforce simp: gd_prov_def gd_init_def generatedocs_init_def dl_from_def)

theorem gd_downloads_name_received_artifacts_witness:
  "\<exists>r \<in> set (gd_answers gd_init (generated_run @ [GdDownloadCV])). \<exists>key f.
     (''CV.docx'', key) \<in> set dl_buttons \<and> get_prop r key = Inr f \<and>
     downloadFile_req (JStr ''CV_123.docx'') = downloadFile_req f"
proof -
  have "(DlCall ''CV.docx'', downloadFile_req (JStr ''CV_123.docx''))
          \<in> set (gd_sent (gd_run gd_init (generated_run @ [GdDownloadCV])))"
    by code_simp
  then show ?thesis by (rule gd_downloads_name_received_artifacts)
qed

text \<open>C36: \<open>results\<close> always holds a JSON value in every reachable state
  (\<open>null\<close> before the first answer; never \<open>undefined\<close> or a \<open>Blob\<close>):
  the generation request reads its answer with the default response type and
  \<open>setResults\<close> stores the resolved value.\<close>

theorem gd_results_json: "json_wf (gd_results (gd_page (gd_run gd_init es)))"
  using gd_reachable_vals_inv [of es] by (simp add: gd_vals_inv_def)

end
