(* ===== verification/Navigation.thy ===== *)
theory Navigation
  imports App UpdateProfile GenerateDocuments
begin

text \<open>
  The three views with requests, \<open>ApplyJob\<close>, \<open>UpdateProfile\<close> and
  \<open>GenerateDocuments\<close>, under the router of \<open>src/App.tsx\<close>.  Only the view
  of the current path is mounted; each mount is a fresh instance with the
  view's initial state.  The requests of every instance, and the downloads of
  the document view, run on after their instance is unmounted: their
  continuations still toast and still act on the host (blob URLs, the body's
  children, save-as), while their React state updates are dropped.  The
  handlers are those of the view theories (\<open>aj_handleSubmit\<close>,
  \<open>up_resume\<close>, \<open>gd_click_download\<close>'s reading of \<open>results\<close>, ...).
\<close>

section \<open>The mounted view and the calls in flight\<close>

datatype nav_page = NavApply nat applyjob | NavProfile nat updateprofile | NavGenerate nat generatedocs
  | NavOther route_view

definition nav_mount :: "nat \<Rightarrow> route_view \<Rightarrow> nav_page" where
  "nav_mount k v =
     (case v of
        VApply \<Rightarrow> NavApply k applyjob_init
      | VProfile \<Rightarrow> NavProfile k updateprofile_init
      | VGenerate \<Rightarrow> NavGenerate k generatedocs_init
      | _ \<Rightarrow> NavOther v)"

datatype nav_call = ApplyCall | ProfileCall | GenerateCall | DownloadCall string

fun is_op_call :: "nav_call \<Rightarrow> bool" where
  "is_op_call (DownloadCall n) = False"
| "is_op_call c = True"

record nav_sys =
  nav_path :: string
  nav_mounted :: nav_page
  nav_next :: nat
  nav_inflight :: "(nat \<times> nav_call \<times> http_request) list"
  nav_sent :: "(nat \<times> nav_call \<times> http_request) list"
  nav_toasts :: "toast list"
  nav_host :: host
  nav_clipboard :: "jsval list"

definition nav_init :: "string \<Rightarrow> nav_sys" where
  "nav_init p = \<lparr>nav_path = p, nav_mounted = nav_mount 0 (app_content p), nav_next = 1,
     nav_inflight = [], nav_sent = [], nav_toasts = [], nav_host = host0, nav_clipboard = []\<rparr>"

datatype nav_event = NavGo string | NavApplyInput string | NavProfileInput string
  | NavGenInput gd_field string | NavSubmit | NavCopy | NavDownloadCV | NavDownloadLetter
  | NavSettle nat http_outcome

section \<open>Steps\<close>

definition nav_navigate :: "string \<Rightarrow> nav_sys \<Rightarrow> nav_sys" where
  "nav_navigate p s =
     (if app_content p = app_content (nav_path s) then s\<lparr>nav_path := p\<rparr>
      else s\<lparr>nav_path := p, nav_mounted := nav_mount (nav_next s) (app_content p),
             nav_next := Suc (nav_next s)\<rparr>)"

definition nav_dispatch :: "nat \<Rightarrow> nav_call \<Rightarrow> http_request \<Rightarrow> nav_sys \<Rightarrow> nav_sys" where
  "nav_dispatch k c rq s =
     s\<lparr>nav_inflight := nav_inflight s @ [(k, c, rq)], nav_sent := nav_sent s @ [(k, c, rq)]\<rparr>"

text \<open>The submit handler of the mounted view, guarded as in its own theory.\<close>

fun nav_submit :: "nav_page \<Rightarrow> nav_sys \<Rightarrow> nav_sys" where
  "nav_submit (NavApply k pg) s =
     (if aj_can_submit pg then
        (let (pg', rq) = aj_handleSubmit pg in nav_dispatch k ApplyCall rq (s\<lparr>nav_mounted := NavApply k pg'\<rparr>))
      else s)"
| "nav_submit (NavProfile k pg) s =
     (if up_can_submit pg then
        (let (pg', rq) = up_handleSubmit pg in nav_dispatch k ProfileCall rq (s\<lparr>nav_mounted := NavProfile k pg'\<rparr>))
      else s)"
| "nav_submit (NavGenerate k pg) s =
     (if gd_can_submit pg then
        (let (pg', rq) = gd_handleSubmit pg in nav_dispatch k GenerateCall rq (s\<lparr>nav_mounted := NavGenerate k pg'\<rparr>))
      else s)"
| "nav_submit (NavOther v) s = s"

text \<open>A Download button of the mounted document view (\<open>gd_click_download\<close>).\<close>

fun nav_download :: "string \<Rightarrow> string \<Rightarrow> nav_page \<Rightarrow> nav_sys \<Rightarrow> nav_sys" where
  "nav_download key displayName (NavGenerate k pg) s =
     (if truthy (gd_results pg) then
        (case get_prop (gd_results pg) key of
           Inl exn \<Rightarrow> s
         | Inr filename \<Rightarrow> nav_dispatch k (DownloadCall displayName) (downloadFile_req filename) s)
      else s)"
| "nav_download key displayName pg s = s"

text \<open>The continuation of an operation's request: it updates the page only
  when its own instance is still mounted; its toast is issued in any case.\<close>

fun nav_resume :: "nat \<Rightarrow> nav_call \<Rightarrow> axios_error + jsval \<Rightarrow> nav_page \<Rightarrow> nav_page \<times> toast" where
  "nav_resume k ApplyCall r (NavApply k' pg) =
     (if k' = k then (let (pg', t) = aj_resume r pg in (NavApply k' pg', t))
      else (NavApply k' pg, snd (aj_resume r applyjob_init)))"
| "nav_resume k ApplyCall r pg = (pg, snd (aj_resume r applyjob_init))"
| "nav_resume k ProfileCall r (NavProfile k' pg) =
     (if k' = k then (let (pg', t) = up_resume r pg in (NavProfile k' pg', t))
      else (NavProfile k' pg, snd (up_resume r updateprofile_init)))"
| "nav_resume k ProfileCall r pg = (pg, snd (up_resume r updateprofile_init))"
| "nav_resume k GenerateCall r (NavGenerate k' pg) =
     (if k' = k then (let (pg', t) = gd_resume r pg in (NavGenerate k' pg', t))
      else (NavGenerate k' pg, snd (gd_resume r generatedocs_init)))"
| "nav_resume k GenerateCall r pg = (pg, snd (gd_resume r generatedocs_init))"
| "nav_resume k (DownloadCall n) r pg = (pg, snd (handleDownload_resume r n host0))"

fun nav_step :: "nav_sys \<Rightarrow> nav_event \<Rightarrow> nav_sys" where
  "nav_step s (NavGo p) = nav_navigate p s"
| "nav_step s (NavApplyInput v) =
     (case nav_mounted s of
        NavApply k pg \<Rightarrow> s\<lparr>nav_mounted := NavApply k (pg\<lparr>aj_jobUrl := control_value TextInput v\<rparr>)\<rparr>
      | _ \<Rightarrow> s)"
| "nav_step s (NavProfileInput v) =
     (case nav_mounted s of
        NavProfile k pg \<Rightarrow> s\<lparr>nav_mounted := NavProfile k (pg\<lparr>up_profileUrl := control_value TextInput v\<rparr>)\<rparr>
      | _ \<Rightarrow> s)"
| "nav_step s (NavGenInput f v) =
     (case nav_mounted s of
        NavGenerate k pg \<Rightarrow>
          s\<lparr>nav_mounted := NavGenerate k (pg\<lparr>gd_formData := set_field f (control_value (field_control f) v) (gd_formData pg)\<rparr>)\<rparr>
      | _ \<Rightarrow> s)"
| "nav_step s NavSubmit = nav_submit (nav_mounted s) s"
| "nav_step s NavCopy =
     (case nav_mounted s of
        NavProfile k pg \<Rightarrow>
          (if truthy (up_suggestions pg) then
             s\<lparr>nav_clipboard := nav_clipboard s @ [up_suggestions pg],
               nav_toasts := nav_toasts s @ [success_toast ''Copied!'' (JStr ''Suggestions copied to clipboard.'')]\<rparr>
           else s)
      | _ \<Rightarrow> s)"
| "nav_step s NavDownloadCV = nav_download ''cv_path'' ''CV.docx'' (nav_mounted s) s"
| "nav_step s NavDownloadLetter = nav_download ''cover_letter_path'' ''CoverLetter.docx'' (nav_mounted s) s"
| "nav_step s (NavSettle i out) =
     (if i < length (nav_inflight s) then
        (let (k, c, rq) = nav_inflight s ! i;
             r = axios_settle (req_response_type rq) out;
             s' = s\<lparr>nav_inflight := remove_nth i (nav_inflight s)\<rparr>
         in case c of
              DownloadCall n \<Rightarrow>
                (let (h', t) = handleDownload_resume r n (nav_host s)
                 in s'\<lparr>nav_host := h', nav_toasts := nav_toasts s @ [t]\<rparr>)
            | _ \<Rightarrow>
                (let (pg', t) = nav_resume k c r (nav_mounted s)
                 in s'\<lparr>nav_mounted := pg', nav_toasts := nav_toasts s @ [t]\<rparr>))
      else s)"

fun nav_run :: "nav_sys \<Rightarrow> nav_event list \<Rightarrow> nav_sys" where
  "nav_run s [] = s"
| "nav_run s (e # es) = nav_run (nav_step s e) es"

section \<open>Invariant\<close>

definition nav_op_ids :: "(nat \<times> nav_call \<times> http_request) list \<Rightarrow> nat list" where
  "nav_op_ids cs = map fst (filter (\<lambda>c. is_op_call (fst (snd c))) cs)"

text \<open>The calls of instance \<open>k\<close> that a mounted page of each kind may have
  outstanding: its own operation, and for the document view its downloads.\<close>

fun page_call_ok :: "nav_page \<Rightarrow> nav_call \<Rightarrow> bool" where
  "page_call_ok (NavApply k pg) c = (c = ApplyCall)"
| "page_call_ok (NavProfile k pg) c = (c = ProfileCall)"
| "page_call_ok (NavGenerate k pg) c = (c = GenerateCall \<or> \<not> is_op_call c)"
| "page_call_ok (NavOther v) c = True"

fun page_id :: "nav_page \<Rightarrow> nat option" where
  "page_id (NavApply k pg) = Some k"
| "page_id (NavProfile k pg) = Some k"
| "page_id (NavGenerate k pg) = Some k"
| "page_id (NavOther v) = None"

fun page_loading :: "nav_page \<Rightarrow> bool" where
  "page_loading (NavApply k pg) = aj_loading pg"
| "page_loading (NavProfile k pg) = up_loading pg"
| "page_loading (NavGenerate k pg) = gd_loading pg"
| "page_loading (NavOther v) = False"

text \<open>Instance numbers are fresh; every instance has at most one operation
  outstanding; the mounted instance is loading exactly while it has one, and
  only calls of its own kind carry its number; the host holds no blob URL and
  no anchor between events.\<close>

definition nav_inv :: "nav_sys \<Rightarrow> bool" where
  "nav_inv s \<longleftrightarrow>
     list_all (\<lambda>c. fst c < nav_next s) (nav_inflight s) \<and> distinct (nav_op_ids (nav_inflight s)) \<and>
     (case page_id (nav_mounted s) of
        None \<Rightarrow> True
      | Some k \<Rightarrow> k < nav_next s \<and>
          (page_loading (nav_mounted s) \<longleftrightarrow> k \<in> set (nav_op_ids (nav_inflight s))) \<and>
          list_all (\<lambda>c. fst c = k \<longrightarrow> page_call_ok (nav_mounted s) (fst (snd c))) (nav_inflight s)) \<and>
     object_urls (nav_host s) = [] \<and> body_children (nav_host s) = []"

text \<open>Download calls read their answer as a \<open>Blob\<close>.\<close>

definition nav_dl_ok :: "nav_sys \<Rightarrow> bool" where
  "nav_dl_ok s \<longleftrightarrow> (\<forall>k n rq. (k, DownloadCall n, rq) \<in> set (nav_inflight s) \<longrightarrow> req_response_type rq = RT_blob)"

text \<open>A schedule of the specification's download flow: fill the form,
  generate documents, and start the CV download.\<close>

definition nav_generate_download :: "nav_event list" where
  "nav_generate_download =
     map (\<lambda>e. case e of GdInput f v \<Rightarrow> NavGenInput f v | _ \<Rightarrow> NavSubmit) filled_form @
     [NavSubmit, NavSettle 0 (Response 200 generated_body), NavDownloadCV]"

section \<open>Lemmas\<close>

lemma nav_op_ids_snoc [simp]:
  "nav_op_ids (xs @ [(k, c, rq)]) = nav_op_ids xs @ (if is_op_call c then [k] else [])"
  by (simp add: nav_op_ids_def)

lemma nav_op_ids_single [simp]: "nav_op_ids [(k, c, rq)] = (if is_op_call c then [k] else [])"
  by (simp add: nav_op_ids_def)

lemma nav_op_ids_split:
  assumes "i < length xs"
  shows "nav_op_ids xs = nav_op_ids (take i xs) @ nav_op_ids [xs ! i] @ nav_op_ids (drop (Suc i) xs)"
    and "nav_op_ids (remove_nth i xs) = nav_op_ids (take i xs) @ nav_op_ids (drop (Suc i) xs)"
proof -
  have "xs = take i xs @ xs ! i # drop (Suc i) xs" using assms by (rule id_take_nth_drop)
  then show "nav_op_ids xs = nav_op_ids (take i xs) @ nav_op_ids [xs ! i] @ nav_op_ids (drop (Suc i) xs)"
    by (metis (no_types) append.simps filter_append map_append nav_op_ids_def)
  show "nav_op_ids (remove_nth i xs) = nav_op_ids (take i xs) @ nav_op_ids (drop (Suc i) xs)"
    by (simp add: nav_op_ids_def remove_nth_def)
qed

lemma nav_op_ids_remove_nth:
  assumes i: "i < length xs" and d: "distinct (nav_op_ids xs)" and c: "xs ! i = (k, c, rq)"
  shows "distinct (nav_op_ids (remove_nth i xs))"
    and "set (nav_op_ids (remove_nth i xs)) = set (nav_op_ids xs) - (if is_op_call c then {k} else {})"
  using d nav_op_ids_split [OF i] c by auto


lemma nav_resume_id [simp]: "page_id (fst (nav_resume k c r pg)) = page_id pg"
  by (cases "(k, c, r, pg)" rule: nav_resume.cases) (simp_all add: Let_def split: prod.splits)

lemma nav_resume_call_ok [simp]: "page_call_ok (fst (nav_resume k c r pg)) = page_call_ok pg"
  by (cases "(k, c, r, pg)" rule: nav_resume.cases) (auto simp: Let_def split: prod.splits)

lemma nav_resume_other: "page_id pg \<noteq> Some k \<Longrightarrow> fst (nav_resume k c r pg) = pg"
  by (cases "(k, c, r, pg)" rule: nav_resume.cases) simp_all

lemma nav_resume_same:
  "page_id pg = Some k \<Longrightarrow> page_call_ok pg c \<Longrightarrow> is_op_call c \<Longrightarrow> \<not> page_loading (fst (nav_resume k c r pg))"
  by (cases "(k, c, r, pg)" rule: nav_resume.cases)
     (auto simp: Let_def split: prod.splits dest: aj_resume_loading up_resume_loading gd_resume_loading)


lemma nav_inv_path [simp]: "nav_inv (s\<lparr>nav_path := p\<rparr>) = nav_inv s"
  by (simp add: nav_inv_def split: option.split)

lemma nav_mount_fresh:
  "page_id (nav_mount k v) \<in> {None, Some k} \<and> \<not> page_loading (nav_mount k v)"
  by (cases v) (simp_all add: nav_mount_def applyjob_init_def updateprofile_init_def generatedocs_init_def)

lemma nav_init_inv: "nav_inv (nav_init p)"
  using nav_mount_fresh [of 0 "app_content p"]
  by (auto simp: nav_inv_def nav_init_def nav_op_ids_def host0_def split: option.splits)

lemma nav_navigate_inv:
  assumes inv: "nav_inv s" shows "nav_inv (nav_navigate p s)"
proof (cases "app_content p = app_content (nav_path s)")
  case True
  then show ?thesis using inv by (simp add: nav_navigate_def)
next
  case False
  have fresh: "list_all (\<lambda>c. fst c \<noteq> nav_next s) (nav_inflight s)"
    "nav_next s \<notin> set (nav_op_ids (nav_inflight s))"
    using inv by (auto simp: nav_inv_def list_all_iff nav_op_ids_def)
  show ?thesis
    using False inv fresh nav_mount_fresh [of "nav_next s" "app_content p"]
    by (auto simp: nav_navigate_def nav_inv_def list_all_iff split: option.splits)
qed


lemma nav_dispatch_op_inv:
  assumes inv: "nav_inv s" and id: "page_id (nav_mounted s) = Some k" and nl: "\<not> page_loading (nav_mounted s)"
    and id': "page_id pg' = Some k" and l': "page_loading pg'"
    and ok: "page_call_ok pg' = page_call_ok (nav_mounted s)" and okc: "page_call_ok pg' c" and op: "is_op_call c"
  shows "nav_inv (nav_dispatch k c rq (s\<lparr>nav_mounted := pg'\<rparr>))"
proof -
  have "k \<notin> set (nav_op_ids (nav_inflight s))" "k < nav_next s"
    using inv id nl by (auto simp: nav_inv_def)
  then show ?thesis using inv id id' l' ok okc op
    by (auto simp: nav_inv_def nav_dispatch_def list_all_iff)
qed

lemma nav_dispatch_download_inv:
  assumes inv: "nav_inv s" and id: "page_id (nav_mounted s) = Some k"
    and okc: "page_call_ok (nav_mounted s) c" and op: "\<not> is_op_call c"
  shows "nav_inv (nav_dispatch k c rq s)"
  using inv id okc op by (auto simp: nav_inv_def nav_dispatch_def list_all_iff)

lemma nav_submit_inv:
  assumes inv: "nav_inv s" shows "nav_inv (nav_step s NavSubmit)"
proof (cases "nav_mounted s")
  case (NavApply k pg)
  then show ?thesis using inv
    by (auto simp: aj_can_submit_def aj_handleSubmit_def intro!: nav_dispatch_op_inv)
next
  case (NavProfile k pg)
  then show ?thesis using inv
    by (auto simp: up_can_submit_def up_handleSubmit_def intro!: nav_dispatch_op_inv)
next
  case (NavGenerate k pg)
  then show ?thesis using inv
    by (auto simp: gd_can_submit_def gd_handleSubmit_def intro!: nav_dispatch_op_inv)
qed (simp add: inv)

lemma nav_input_inv:
  assumes inv: "nav_inv s"
  shows "nav_inv (nav_step s (NavApplyInput v))" "nav_inv (nav_step s (NavProfileInput v))"
    "nav_inv (nav_step s (NavGenInput f v))"
  using inv by (cases "nav_mounted s"; simp add: nav_inv_def)+

lemma nav_copy_inv:
  assumes inv: "nav_inv s" shows "nav_inv (nav_step s NavCopy)"
  using inv by (cases "nav_mounted s") (simp_all add: nav_inv_def)

lemma nav_download_inv:
  assumes inv: "nav_inv s" shows "nav_inv (nav_download key n (nav_mounted s) s)"
proof (cases "nav_mounted s")
  case (NavGenerate k pg)
  then show ?thesis using inv
    by (auto intro!: nav_dispatch_download_inv split: sum.splits)
qed (simp_all add: inv)


lemma nav_settle_eq:
  assumes "i < length (nav_inflight s)" "nav_inflight s ! i = (k, c, rq)"
  shows "nav_step s (NavSettle i out) =
     (let r = axios_settle (req_response_type rq) out;
          s' = s\<lparr>nav_inflight := remove_nth i (nav_inflight s)\<rparr>
      in case c of
           DownloadCall n \<Rightarrow>
             (let (h', t) = handleDownload_resume r n (nav_host s)
              in s'\<lparr>nav_host := h', nav_toasts := nav_toasts s @ [t]\<rparr>)
         | _ \<Rightarrow>
             (let (pg', t) = nav_resume k c r (nav_mounted s)
              in s'\<lparr>nav_mounted := pg', nav_toasts := nav_toasts s @ [t]\<rparr>))"
  using assms by (simp add: Let_def)

lemma nav_settle_inv:
  assumes inv: "nav_inv s" shows "nav_inv (nav_step s (NavSettle i out))"
proof (cases "i < length (nav_inflight s)")
  case True
  obtain k c rq where ci: "nav_inflight s ! i = (k, c, rq)" by (cases "nav_inflight s ! i") auto
  define r where "r = axios_settle (req_response_type rq) out"
  have d: "distinct (nav_op_ids (nav_inflight s))" using inv by (simp add: nav_inv_def)
  note ids = nav_op_ids_remove_nth [OF True d ci]
  have mem: "(k, c, rq) \<in> set (nav_inflight s)" using True ci by (metis nth_mem)
  have lt: "list_all (\<lambda>c. fst c < nav_next s) (remove_nth i (nav_inflight s))"
    using inv set_remove_nth_subset [of i "nav_inflight s"] by (auto simp: nav_inv_def list_all_iff)
  have ok: "list_all (\<lambda>x. fst x = k' \<longrightarrow> page_call_ok (nav_mounted s) (fst (snd x))) (remove_nth i (nav_inflight s))"
    if "page_id (nav_mounted s) = Some k'" for k'
    using inv that set_remove_nth_subset [of i "nav_inflight s"] by (auto simp: nav_inv_def list_all_iff)
  note eq = nav_settle_eq [OF True ci, of out, folded r_def]
  show ?thesis
  proof (cases "is_op_call c")
    case False
    then obtain n where c: "c = DownloadCall n" by (cases c) auto
    obtain h' t where h: "handleDownload_resume r n (nav_host s) = (h', t)" by fastforce
    have "object_urls (nav_host s) = []" "body_children (nav_host s) = []"
      using inv by (simp_all add: nav_inv_def)
    then have "object_urls h' = [] \<and> body_children h' = []"
      using h by (rule handleDownload_resume_clean)
    then show ?thesis
      using inv lt ok ids c h False unfolding eq by (auto simp: nav_inv_def Let_def split: option.splits)
  next
    case True
    then have eq': "nav_step s (NavSettle i out) =
        s\<lparr>nav_inflight := remove_nth i (nav_inflight s), nav_mounted := fst (nav_resume k c r (nav_mounted s)),
          nav_toasts := nav_toasts s @ [snd (nav_resume k c r (nav_mounted s))]\<rparr>"
      unfolding eq by (cases c) (simp_all add: Let_def split: prod.splits)
    show ?thesis
    proof (cases "page_id (nav_mounted s) = Some k")
      case same: True
      then have "page_call_ok (nav_mounted s) c" using inv mem by (auto simp: nav_inv_def list_all_iff)
      then have "\<not> page_loading (fst (nav_resume k c r (nav_mounted s)))"
        using nav_resume_same same True by blast
      then show ?thesis using inv lt ok [OF same] ids True same unfolding eq' by (auto simp: nav_inv_def)
    next
      case other: False
      then show ?thesis using inv lt ok ids True nav_resume_other [OF other]
        unfolding eq' by (auto simp: nav_inv_def split: option.splits)
    qed
  qed
qed (simp add: inv)

lemma nav_step_inv: "nav_inv s \<Longrightarrow> nav_inv (nav_step s e)"
proof (cases e)
  case (NavSettle i out)
  assume "nav_inv s"
  then show ?thesis unfolding NavSettle by (rule nav_settle_inv)
qed (auto simp del: nav_step.simps intro: nav_navigate_inv nav_input_inv nav_submit_inv nav_copy_inv
       nav_download_inv [unfolded] simp: nav_step.simps(1,7,8))

lemma nav_run_inv: "nav_inv s \<Longrightarrow> nav_inv (nav_run s es)"
  by (induction es arbitrary: s) (simp_all add: nav_step_inv)

lemma nav_reachable_inv: "nav_inv (nav_run (nav_init p) es)"
  by (rule nav_run_inv [OF nav_init_inv])

lemma nav_run_append: "nav_run s (xs @ ys) = nav_run (nav_run s xs) ys"
  by (induction xs arbitrary: s) simp_all

lemma nav_settle_first_length:
  assumes "nav_inflight s \<noteq> []"
  shows "length (nav_inflight (nav_step s (NavSettle 0 out))) = length (nav_inflight s) - 1"
proof -
  obtain k c rq where c: "nav_inflight s ! 0 = (k, c, rq)" by (cases "nav_inflight s ! 0") auto
  from assms have "0 < length (nav_inflight s)" by simp
  from nav_settle_eq [OF this c] show ?thesis
    using assms by (cases c) (simp_all add: Let_def split: prod.split)
qed

lemma nav_drain:
  "length outs = length (nav_inflight s) \<Longrightarrow> nav_inflight (nav_run s (map (NavSettle 0) outs)) = []"
proof (induction outs arbitrary: s)
  case Nil
  then show ?case by simp
next
  case (Cons out outs)
  then have "nav_inflight s \<noteq> []" by auto
  with Cons.prems have "length outs = length (nav_inflight (nav_step s (NavSettle 0 out)))"
    using nav_settle_first_length [of s out] by (simp del: nav_step.simps)
  from Cons.IH [OF this] show ?case by simp
qed

lemma nav_dl_ok_step: "nav_dl_ok s \<Longrightarrow> nav_dl_ok (nav_step s e)"
proof (cases e)
  case (NavSettle i out)
  assume ok: "nav_dl_ok s"
  show ?thesis
  proof (cases "i < length (nav_inflight s)")
    case True
    obtain k c rq where c: "nav_inflight s ! i = (k, c, rq)" by (cases "nav_inflight s ! i") auto
    have sub: "set (remove_nth i (nav_inflight s)) \<subseteq> set (nav_inflight s)" by (rule set_remove_nth_subset)
    have "nav_dl_ok (nav_step s (NavSettle i out))"
      unfolding nav_settle_eq [OF True c] using ok sub
      by (cases c) (auto simp: nav_dl_ok_def Let_def split: prod.splits)
    with NavSettle show ?thesis by simp
  qed (use NavSettle ok in simp)
next
  case NavSubmit
  assume ok: "nav_dl_ok s"
  then show ?thesis using NavSubmit
    by (cases "nav_mounted s")
       (auto simp: nav_dl_ok_def nav_dispatch_def Let_def split: prod.splits)
next
  case NavDownloadCV
  assume ok: "nav_dl_ok s"
  then show ?thesis using NavDownloadCV
    by (cases "nav_mounted s") (auto simp: nav_dl_ok_def nav_dispatch_def split: sum.splits)
next
  case NavDownloadLetter
  assume ok: "nav_dl_ok s"
  then show ?thesis using NavDownloadLetter
    by (cases "nav_mounted s") (auto simp: nav_dl_ok_def nav_dispatch_def split: sum.splits)
qed (auto simp: nav_dl_ok_def nav_navigate_def split: nav_page.splits)

lemma nav_reachable_dl_ok: "nav_dl_ok (nav_run (nav_init p) es)"
proof -
  have "nav_dl_ok s \<Longrightarrow> nav_dl_ok (nav_run s es)" for s
    by (induction es arbitrary: s) (simp_all add: nav_dl_ok_step)
  moreover have "nav_dl_ok (nav_init p)" by (simp add: nav_dl_ok_def nav_init_def)
  ultimately show ?thesis by blast
qed

section \<open>Properties\<close>

text \<open>C8: with all three views under navigation, no instance of any of them
  ever has two of its operations outstanding, after any schedule of
  navigation, input, submissions, downloads and answers.\<close>

theorem nav_instance_single_flight: "distinct (nav_op_ids (nav_inflight (nav_run (nav_init p) es)))"
  using nav_reachable_inv [of p es] by (simp add: nav_inv_def)

text \<open>C28: downloads release what they acquire even when the document view
  is left before their answer: between events no blob URL is alive and no
  anchor is left in the document body.\<close>

theorem nav_downloads_release_resources:
  "object_urls (nav_host (nav_run (nav_init p) es)) = [] \<and> body_children (nav_host (nav_run (nav_init p) es)) = []"
  using nav_reachable_inv [of p es] by (simp add: nav_inv_def)

text \<open>C20: the view on screen shows its loading state exactly while one of its
  own operations is outstanding, whichever view it is and however often it
  was left and mounted again.\<close>

theorem nav_mounted_loading:
  "(case page_id (nav_mounted (nav_run (nav_init p) es)) of
      None \<Rightarrow> True
    | Some k \<Rightarrow> page_loading (nav_mounted (nav_run (nav_init p) es)) \<longleftrightarrow>
                k \<in> set (nav_op_ids (nav_inflight (nav_run (nav_init p) es))))"
  using nav_reachable_inv [of p es] by (simp add: nav_inv_def split: option.splits)

text \<open>C31: leaving the document view keeps its downloads but loses its
  documents: in every reachable state with a download outstanding, when the
  user moves to another view and the download's 2xx answer then arrives, the
  file is still saved and reported; on coming back the view is a fresh
  instance with \<open>results\<close> \<open>null\<close>, whose Download CV sends nothing.\<close>

theorem nav_leave_generate:
  assumes "i < length (nav_inflight (nav_run (nav_init p) es))"
    and "nav_inflight (nav_run (nav_init p) es) ! i = (k, DownloadCall n, rq)"
    and "app_content q \<noteq> VGenerate" and "200 \<le> st" and "st < 300"
  shows "saves (nav_host (nav_run (nav_init p) (es @ [NavGo q, NavSettle i (Response st b)]))) =
           saves (nav_host (nav_run (nav_init p) es)) @ [(n, b)] \<and>
         last (nav_toasts (nav_run (nav_init p) (es @ [NavGo q, NavSettle i (Response st b)]))) =
           success_toast ''Downloaded'' (JStr (n @ '' downloaded successfully.'')) \<and>
         nav_mounted (nav_run (nav_init p) (es @ [NavGo q, NavSettle i (Response st b), NavGo ''/generate''])) =
           NavGenerate (nav_next (nav_run (nav_init p) (es @ [NavGo q, NavSettle i (Response st b)]))) generatedocs_init \<and>
         nav_run (nav_init p) (es @ [NavGo q, NavSettle i (Response st b), NavGo ''/generate'', NavDownloadCV]) =
           nav_run (nav_init p) (es @ [NavGo q, NavSettle i (Response st b), NavGo ''/generate''])"
proof -
  let ?s = "nav_run (nav_init p) es"
  let ?s1 = "nav_navigate q ?s"
  have inv: "nav_inv ?s" by (rule nav_reachable_inv)
  have rt: "req_response_type rq = RT_blob"
    using nav_reachable_dl_ok [of p es] assms(1,2) nth_mem [OF assms(1)] by (auto simp: nav_dl_ok_def)
  have i1: "i < length (nav_inflight ?s1)" and c1: "nav_inflight ?s1 ! i = (k, DownloadCall n, rq)"
    and h1: "nav_host ?s1 = nav_host ?s" and t1: "nav_next ?s1 \<le> Suc (nav_next ?s)"
    and p1: "app_content (nav_path ?s1) \<noteq> VGenerate"
    using assms(1-3) by (auto simp: nav_navigate_def)
  have u: "next_url (nav_host ?s) \<notin> fst ` set (object_urls (nav_host ?s))"
    and e: "next_elem (nav_host ?s) \<notin> set (body_children (nav_host ?s))"
    using inv by (simp_all add: nav_inv_def)
  have g: "app_content ''/generate'' = VGenerate" by code_simp
  let ?s2 = "nav_step ?s1 (NavSettle i (Response st b))"
  have s2: "?s2 = ?s1\<lparr>nav_inflight := remove_nth i (nav_inflight ?s1),
                       nav_host := fst (handleDownload_resume (Inr (JBlob b)) n (nav_host ?s)),
                       nav_toasts := nav_toasts ?s1 @ [snd (handleDownload_resume (Inr (JBlob b)) n (nav_host ?s))]\<rparr>"
    using nav_settle_eq [OF i1 c1] rt assms(4,5) h1
    by (simp add: Let_def axios_settle_def transform_response_def split: prod.split)
  have n2: "nav_next ?s2 = nav_next ?s1" and pth2: "nav_path ?s2 = nav_path ?s1" using s2 by simp_all
  show ?thesis
    unfolding nav_run_append
    using s2 handleDownload_resume_blob [OF u e, of b n] g p1 pth2 n2
    by (auto simp: nav_navigate_def nav_mount_def generatedocs_init_def)
qed

theorem nav_leave_generate_witness:
  "saves (nav_host (nav_run (nav_init ''/generate'') (nav_generate_download @ [NavGo ''/dashboard'', NavSettle 0 (Response 200 [1, 2])]))) =
     saves (nav_host (nav_run (nav_init ''/generate'') nav_generate_download)) @ [(''CV.docx'', [1, 2])]"
proof -
  have l: "0 < length (nav_inflight (nav_run (nav_init ''/generate'') nav_generate_download))"
    and c: "case nav_inflight (nav_run (nav_init ''/generate'') nav_generate_download) ! 0 of
              (k, c, rq) \<Rightarrow> c = DownloadCall ''CV.docx''"
    by code_simp+
  obtain k rq where c': "nav_inflight (nav_run (nav_init ''/generate'') nav_generate_download) ! 0 = (k, DownloadCall ''CV.docx'', rq)"
    using c by (auto split: prod.splits)
  have d: "app_content ''/dashboard'' \<noteq> VGenerate" by code_simp
  show ?thesis using nav_leave_generate [OF l c' d, of 200 "[1, 2]"] by simp
qed

text \<open>C21: no view is left loading once the network has answered: from any
  state reached under navigation, answering each outstanding call in turn,
  with any outcome (no response included), leaves nothing outstanding and the
  view on screen not loading (spec section 8: never pending after the
  promise settles).\<close>

theorem nav_answers_end_loading:
  assumes "length outs = length (nav_inflight (nav_run (nav_init p) es))"
  shows "nav_inflight (nav_run (nav_init p) (es @ map (NavSettle 0) outs)) = [] \<and>
         \<not> page_loading (nav_mounted (nav_run (nav_init p) (es @ map (NavSettle 0) outs)))"
proof -
  let ?s = "nav_run (nav_init p) (es @ map (NavSettle 0) outs)"
  have e: "nav_inflight ?s = []" using nav_drain [OF assms] by (simp add: nav_run_append)
  have "nav_inv ?s" by (rule nav_reachable_inv)
  with e show ?thesis
    by (cases "nav_mounted ?s") (simp_all add: nav_inv_def nav_op_ids_def)
qed

theorem nav_answers_end_loading_witness:
  "nav_inflight (nav_run (nav_init ''/apply'') ([NavApplyInput ''https://x/y'', NavSubmit, NavGo ''/profile'',
      NavProfileInput ''https://x/me'', NavSubmit] @ map (NavSettle 0) [NoResponse, Response 500 []])) = [] \<and>
   \<not> page_loading (nav_mounted (nav_run (nav_init ''/apply'') ([NavApplyInput ''https://x/y'', NavSubmit, NavGo ''/profile'',
      NavProfileInput ''https://x/me'', NavSubmit] @ map (NavSettle 0) [NoResponse, Response 500 []])))"
proof -
  have "length [NoResponse, Response 500 []] = length (nav_inflight (nav_run (nav_init ''/apply'')
      [NavApplyInput ''https://x/y'', NavSubmit, NavGo ''/profile'', NavProfileInput ''https://x/me'', NavSubmit]))"
    by code_simp
  then show ?thesis by (rule nav_answers_end_loading)
qed

end
