(* ===== verification/Settings.thy ===== *)
theory Settings
  imports Browser
begin

text \<open>
  The settings view, \<open>src/pages/Settings.tsx\<close>.  Its inputs are uncontrolled:
  what the user types lives in the DOM (\<open>settings_page\<close>, each value
  sanitised by its control; the password input sanitises like a text input),
  the backend URL starting from its \<open>defaultValue\<close>.  The switch calls
  \<open>toggleTheme\<close> of the theme context, and \<open>Save Settings\<close> runs
  \<open>handleSave\<close>, which only issues a toast: no input is read, so nothing is
  stored and the transport keeps its constant base URL
  (\<open>API_BASE_URL\<close> of \<open>Transport\<close>).
\<close>

section \<open>State and handlers\<close>

text \<open>The theme context's state and \<open>toggleTheme\<close>: \<open>contexts/ThemeContext\<close>
  is imported but not part of the repository, so it is modelled from its use:
  the switch is checked exactly when the theme is dark, and toggling flips it.\<close>

datatype theme = Light | Dark

fun toggle_theme :: "theme \<Rightarrow> theme" where
  "toggle_theme Light = Dark"
| "toggle_theme Dark = Light"

datatype settings_field = FApiKey | FBackendUrl | FDisplayName | FSettingsEmail

record settings_page =
  st_apiKey :: string
  st_backendUrl :: string
  st_displayName :: string
  st_email :: string

definition settings_page_init :: settings_page where
  "settings_page_init =
     \<lparr>st_apiKey = [], st_backendUrl = ''http://localhost:8080'', st_displayName = [], st_email = []\<rparr>"

fun settings_control :: "settings_field \<Rightarrow> control" where
  "settings_control FSettingsEmail = EmailInput"
| "settings_control f = TextInput"

fun set_setting :: "settings_field \<Rightarrow> string \<Rightarrow> settings_page \<Rightarrow> settings_page" where
  "set_setting FApiKey v p = p\<lparr>st_apiKey := v\<rparr>"
| "set_setting FBackendUrl v p = p\<lparr>st_backendUrl := v\<rparr>"
| "set_setting FDisplayName v p = p\<lparr>st_displayName := v\<rparr>"
| "set_setting FSettingsEmail v p = p\<lparr>st_email := v\<rparr>"

definition settings_saved_toast :: toast where
  "settings_saved_toast =
     success_toast ''Settings Saved'' (JStr ''Your preferences have been updated successfully.'')"

record settings_sys =
  st_page :: settings_page
  st_theme :: theme
  st_toasts :: "toast list"

definition settings_init :: "theme \<Rightarrow> settings_sys" where
  "settings_init th = \<lparr>st_page = settings_page_init, st_theme = th, st_toasts = []\<rparr>"

definition handleSave :: "settings_sys \<Rightarrow> settings_sys" where
  "handleSave s = s\<lparr>st_toasts := st_toasts s @ [settings_saved_toast]\<rparr>"

datatype settings_event = StInput settings_field string | StToggleTheme | StSave

fun settings_step :: "settings_sys \<Rightarrow> settings_event \<Rightarrow> settings_sys" where
  "settings_step s (StInput f v) =
     s\<lparr>st_page := set_setting f (control_value (settings_control f) v) (st_page s)\<rparr>"
| "settings_step s StToggleTheme = s\<lparr>st_theme := toggle_theme (st_theme s)\<rparr>"
| "settings_step s StSave = handleSave s"

fun settings_run :: "settings_sys \<Rightarrow> settings_event list \<Rightarrow> settings_sys" where
  "settings_run s [] = s"
| "settings_run s (e # es) = settings_run (settings_step s e) es"

section \<open>Lemmas\<close>

text \<open>Without a click on Save, the toasts play no part in a run.\<close>

lemma settings_run_toasts:
  "StSave \<notin> set es \<Longrightarrow> settings_run (s\<lparr>st_toasts := ts\<rparr>) es = (settings_run s es)\<lparr>st_toasts := ts\<rparr>"
proof (induction es arbitrary: s)
  case (Cons e es)
  have "settings_step (s\<lparr>st_toasts := ts\<rparr>) e = (settings_step s e)\<lparr>st_toasts := ts\<rparr>"
    using Cons.prems by (cases e) simp_all
  with Cons.IH [of "settings_step s e"] Cons.prems show ?case by simp
qed simp

section \<open>Properties\<close>

text \<open>C34: the save button checks nothing and stores nothing: after any
  schedule of typing, toggling and saving, the toasts are exactly one
  \<open>Settings Saved\<close> per click on the button, whatever was typed (an
  invalid e-mail included), and apart from these toasts the state is the one
  the same schedule without the clicks reaches.\<close>

theorem settings_save_unvalidated:
  "st_toasts (settings_run s es) = st_toasts s @ replicate (count_list es StSave) settings_saved_toast \<and>
   settings_run s es =
     (settings_run s (removeAll StSave es))\<lparr>st_toasts := st_toasts s @ replicate (count_list es StSave) settings_saved_toast\<rparr>"
proof (induction es arbitrary: s)
  case (Cons e es)
  then show ?case
    by (cases e) (simp_all add: handleSave_def replicate_append_same [symmetric] settings_run_toasts)
qed simp

end
