(* ===== verification/Shell.thy ===== *)
theory Shell
  imports App Settings
begin

text \<open>
  The shell of \<open>src/App.tsx\<close> with the state its providers hold: the
  \<open>ThemeProvider\<close> sits above the router, so the theme lives as long as the
  application; the \<open>SidebarProvider\<close> sits in the branch rendered off the
  landing page, so its open state lives while the path is not \<open>/\<close>; the
  Settings view is a routed element, so what is typed into its uncontrolled
  inputs lives while it stays mounted.  The sidebar of
  \<open>components/AppSidebar.tsx\<close> is rendered from that open state.
  \<open>SidebarProvider\<close> and \<open>SidebarTrigger\<close> come from
  \<open>components/ui/sidebar\<close>, which is not part of the repository: as used
  here the provider starts open (\<open>defaultOpen\<close>) and the trigger flips it.
\<close>

section \<open>State and steps\<close>

record shell =
  sh_path :: string
  sh_theme :: theme
  sh_sidebar_open :: "bool option"
  sh_settings :: "settings_page option"
  sh_toasts :: "toast list"

definition sidebar_mount :: "string \<Rightarrow> bool option \<Rightarrow> bool option" where
  "sidebar_mount p old = (if is_landing_page p then None else case old of None \<Rightarrow> Some True | Some b \<Rightarrow> Some b)"

definition shell_init :: "string \<Rightarrow> theme \<Rightarrow> shell" where
  "shell_init p th =
     \<lparr>sh_path = p, sh_theme = th, sh_sidebar_open = sidebar_mount p None,
      sh_settings = (if app_content p = VSettings then Some settings_page_init else None), sh_toasts = []\<rparr>"

definition shell_go :: "string \<Rightarrow> shell \<Rightarrow> shell" where
  "shell_go p s =
     s\<lparr>sh_path := p, sh_sidebar_open := sidebar_mount p (sh_sidebar_open s),
       sh_settings := (if app_content p \<noteq> VSettings then None
                       else if app_content (sh_path s) = VSettings then sh_settings s
                       else Some settings_page_init)\<rparr>"

definition shell_toggle_sidebar :: "shell \<Rightarrow> shell" where
  "shell_toggle_sidebar s = s\<lparr>sh_sidebar_open := map_option Not (sh_sidebar_open s)\<rparr>"

text \<open>An event of the mounted Settings view, run by its own step function
  with the theme of the context.\<close>

definition shell_settings :: "settings_event \<Rightarrow> shell \<Rightarrow> shell" where
  "shell_settings e s =
     (case sh_settings s of
        None \<Rightarrow> s
      | Some pg \<Rightarrow>
          (let st = settings_step \<lparr>st_page = pg, st_theme = sh_theme s, st_toasts = sh_toasts s\<rparr> e
           in s\<lparr>sh_settings := Some (st_page st), sh_theme := st_theme st, sh_toasts := st_toasts st\<rparr>))"

text \<open>The Navbar's theme button, on every page: \<open>onClick={toggleTheme}\<close>.\<close>

definition navbar_toggle_theme :: "shell \<Rightarrow> shell" where
  "navbar_toggle_theme s = s\<lparr>sh_theme := toggle_theme (sh_theme s)\<rparr>"

datatype shell_event = ShGo string | ShToggleSidebar | ShToggleTheme | ShSettings settings_event

fun shell_step :: "shell \<Rightarrow> shell_event \<Rightarrow> shell" where
  "shell_step s (ShGo p) = shell_go p s"
| "shell_step s ShToggleSidebar = shell_toggle_sidebar s"
| "shell_step s ShToggleTheme = navbar_toggle_theme s"
| "shell_step s (ShSettings e) = shell_settings e s"

fun shell_run :: "shell \<Rightarrow> shell_event list \<Rightarrow> shell" where
  "shell_run s [] = s"
| "shell_run s (e # es) = shell_run (shell_step s e) es"

section \<open>The sidebar\<close>

text \<open>\<open>collapsed\<close> is \<open>state === 'collapsed'\<close>, i.e. the provider is not
  open; each entry is a \<open>NavLink\<close> to its URL, highlighted when active,
  showing its title only when not collapsed.\<close>

definition sidebar_width :: "bool \<Rightarrow> string" where
  "sidebar_width opn = (if \<not> opn then ''w-14'' else ''w-60'')"

definition sidebar_render :: "bool \<Rightarrow> string \<Rightarrow> (string option \<times> string \<times> bool) list" where
  "sidebar_render opn p =
     map (\<lambda>(title, url). (if opn then Some title else None, url, navlink_active url p)) sidebar_items"

section \<open>Invariant\<close>

definition shell_inv :: "shell \<Rightarrow> bool" where
  "shell_inv s \<longleftrightarrow>
     (sh_sidebar_open s = None \<longleftrightarrow> is_landing_page (sh_path s)) \<and>
     (sh_settings s = None \<longleftrightarrow> app_content (sh_path s) \<noteq> VSettings)"

section \<open>Lemmas\<close>

lemma shell_step_inv: "shell_inv s \<Longrightarrow> shell_inv (shell_step s e)"
  by (cases e)
     (auto simp: shell_inv_def shell_go_def sidebar_mount_def shell_toggle_sidebar_def shell_settings_def navbar_toggle_theme_def
           Let_def split: option.splits)

lemma shell_run_inv: "shell_inv s \<Longrightarrow> shell_inv (shell_run s es)"
  by (induction es arbitrary: s) (simp_all add: shell_step_inv)

lemma shell_init_inv: "shell_inv (shell_init p th)"
  by (simp add: shell_inv_def shell_init_def sidebar_mount_def)

lemma shell_run_append [simp]: "shell_run s (xs @ ys) = shell_run (shell_run s xs) ys"
  by (induction xs arbitrary: s) simp_all

lemma shell_go_theme [simp]: "sh_theme (shell_go p s) = sh_theme s"
  by (simp add: shell_go_def)

section \<open>Properties\<close>

text \<open>The sidebar's open state lives in the provider of the non-landing
  branch: a visit to the landing page unmounts it, and on the way back the
  sidebar is open again, whatever it was.\<close>

theorem sidebar_reopens_after_landing:
  "\<not> is_landing_page q \<Longrightarrow> sh_sidebar_open (shell_run s (es @ [ShGo ''/'', ShGo q])) = Some True"
  by (simp add: shell_go_def sidebar_mount_def is_landing_page_def)

theorem sidebar_reopens_after_landing_witness:
  "sh_sidebar_open (shell_run (shell_init ''/apply'' Light) [ShToggleSidebar, ShGo ''/'', ShGo ''/apply'']) = Some True"
  using sidebar_reopens_after_landing [of "''/apply''" "shell_init ''/apply'' Light" "[ShToggleSidebar]"]
  by (simp add: is_landing_page_def)

end
