(* ===== verification/Spec2Isabelle.thy ===== *)
theory Spec2Isabelle
  imports Navigation Shell
begin

text \<open>
  \<^bold>\<open>A verification development of AI-Job-flow's client.\<close>

  The program (\<open>src/ai-job-flow-25-main/src\<close>) is a React client of a remote
  document and job-application service.  Its behaviour beyond layout lives
  in \<open>services/api.ts\<close> (one axios instance, four request functions), in the
  handlers of three views, \<open>pages/GenerateDocuments.tsx\<close> (\<open>handleSubmit\<close>,
  \<open>handleDownload\<close>), \<open>pages/ApplyJob.tsx\<close> and \<open>pages/UpdateProfile.tsx\<close>
  (\<open>handleSubmit\<close>, \<open>handleCopy\<close>), and in the shell \<open>App.tsx\<close> with
  \<open>components/Navbar.tsx\<close> and \<open>components/AppSidebar.tsx\<close>, which route a
  path to a view.  A view holds React state; its submit handler sets
  \<open>loading\<close>, dispatches a request through the transport, and when the
  promise settles updates its state, issues one toast and clears
  \<open>loading\<close>; \<open>disabled={loading}\<close> on the button is the only
  single-flight guard.

  \<^bold>\<open>Theories.\<close>
  \<^item> \<open>Prelude\<close>: bytes and blobs (\<open>8 word\<close>), byte/char conversion and
    generic list lemmas (\<open>find\<close>, prefixes, filters).
  \<^item> \<open>JsValue\<close>: untyped JavaScript values (\<open>response.data\<close> is not checked
    against its TypeScript type), property access that throws on \<open>null\<close>
    and \<open>undefined\<close>, truthiness, \<open>String(v)\<close>.
  \<^item> \<open>Json\<close>: \<open>JSON.stringify\<close> (\<open>json_ser\<close>) and a recursive-descent
    \<open>JSON.parse\<close> (\<open>json_parse\<close>), the wire format; the round trip
    \<open>json_parse_json_ser\<close> for every value without \<open>undefined\<close>, blobs or
    repeated keys.
  \<^item> \<open>JsonFuel\<close>: the parser's totality: every call consumes input
    (\<open>parse_shorter\<close>), fuel beyond \<open>2 * length s + 1\<close> changes no
    result (\<open>parse_fuel_stable\<close>), and every result is a well-formed JSON
    value (\<open>parse_wf\<close>).
  \<^item> \<open>Transport\<close>: \<open>api.ts\<close> with the axios behaviour it relies on (URL
    joining, headers, body serialisation, \<open>validateStatus\<close>, silent JSON
    parsing).  Each request function is split at its \<open>await\<close> into the
    request it dispatches (\<open>*_req\<close>) and the settlement
    (\<open>axios_settle\<close>); the composites take the network as a function.
    The response interfaces the functions declare are predicates on values
    (\<open>is_ApplyJobResponse\<close>, ...): TypeScript does not check them at
    run time.
  \<^item> \<open>Browser\<close>: toasts, HTML value sanitisation and constraint
    validation (\<open>required\<close>, \<open>type=email\<close>), and the host objects of a
    download: blob URLs, \<open>document.body\<close>, save-as; and how React
    renders a value as a child (\<open>render_child\<close>: strings and numbers
    show, \<open>null\<close>, \<open>undefined\<close> and booleans show nothing, an object
    throws), with the \<open>c && el\<close> idiom (\<open>render_and\<close>).
  \<^item> \<open>Lifecycle\<close>: the specification's operation state machine
    (idle, pending, success, failure), which the views refine.
  \<^item> \<open>ApplyJob\<close>, \<open>UpdateProfile\<close>, \<open>GenerateDocuments\<close>: each view as a
    system of its React state, its outstanding requests, the requests it
    dispatched, the toasts it issued (and, for GenerateDocuments, the host);
    a deterministic step function over user and network events whose event
    list is the schedule, i.e. the interleaving of user actions and answers;
    ApplyJob also renders its message banner (\<open>aj_render_banner\<close>),
    UpdateProfile its message and suggestions cards (\<open>up_render\<close>),
    GenerateDocuments its preview cards (\<open>gd_render_results\<close>).
  \<^item> \<open>App\<close>: the route tables with react-router's matching
    (case-insensitive, trailing slashes ignored), every link target, the
    sidebar's \<open>NavLink\<close> highlighting, and the ApplyJob view under
    navigation: leaving its route unmounts the instance, returning mounts a
    fresh one, and an answer to an unmounted instance still toasts.
  \<^item> \<open>Navigation\<close>: the three request-issuing views together under
    the router (\<open>nav_step\<close>): each mount is an instance numbered by a
    fresh counter with its view's initial state, the handlers are those of
    the view theories, and the continuations of unmounted instances still
    toast and act on the host while their state updates are dropped.
  \<^item> \<open>Shell\<close>: which state the providers of \<open>App.tsx\<close> hold across
    navigation (\<open>shell_step\<close>): the theme above the router, the
    sidebar's open state in the branch off the landing page, the Settings
    view's typed inputs while it is mounted (its events run by
    \<open>settings_step\<close>), the Navbar's theme button, and \<open>AppSidebar\<close>'s
    collapsed rendering.  The provider placement is written into
    \<open>shell_go\<close> from the structure of \<open>App.tsx\<close>; it carries no claim.
  \<^item> \<open>Settings\<close>: the settings view's uncontrolled inputs, the theme
    switch and \<open>handleSave\<close>, which issues a toast and reads nothing.

  \<^bold>\<open>Properties.\<close>  Every property is stated over all inputs, or over every
  reachable state (the run of the view's step function from its initial state
  on any schedule), with the conditions of a scenario as hypotheses and a
  witness instantiating them.  Invariants of every reachable state: single
  flight, \<open>loading\<close> exactly while a request is outstanding, every request
  reported once, every download's blob URL and anchor released, \<open>results\<close>
  always a JSON value (\<open>gd_results_json\<close>), and downloads naming only
  artifacts an answer to a generation request of the same run carried
  (\<open>gd_downloads_name_received_artifacts\<close>, over the states and events of
  the run, \<open>gd_steps\<close>).  Refinement of the abstract lifecycle by ApplyJob
  and UpdateProfile, and stability of terminal states under every event but a
  submission (\<open>terminal_states_stable\<close>, this theory).  Functional and
  error behaviour of the handlers in every state: the submit guard of the
  document form in terms of its seven required fields; a download's failure
  on every non-2xx status; a failed generation keeping stale \<open>results\<close>; 2xx
  answers that are \<open>null\<close> or not JSON; answers whose fields cannot be
  rendered crashing ApplyJob and UpdateProfile after their success toast,
  while answers of the declared interfaces render (\<open>typed_answers_render\<close>,
  this theory).  The transport: the exact requests sent, their bodies parsing
  back to the form's fields, resolution exactly on 2xx for every operation.
  Routing: the routed view is a lookup in the literal route table of
  \<open>App.tsx\<close>, and no link leads to the not-found view.  Under navigation
  (\<open>App\<close>, \<open>Navigation\<close>): the single-flight guard is per mounted instance,
  so whenever an application is pending, leaving and returning lets a second
  one be sent, the number outstanding being bounded by the number of
  \<open>ApplyJob\<close> mounts; no instance ever has two operations outstanding, the
  view on screen is loading exactly while one of its own is, answering every
  outstanding call leaves nothing pending, downloads release their resources,
  and leaving the document view loses its documents while a started download
  still saves.  Saving the settings validates and stores nothing, whatever
  was typed.

  \<^bold>\<open>Bounds and fuel.\<close>  \<open>json_parse s\<close> runs its parser with fuel
  \<open>2 * length s + 2\<close>; every value needs at most its serialised length in
  fuel (\<open>jw_le_length\<close>), so the round trip never runs out; and on any
  input every call consumes a character, so fuel \<open>2 * length s + 1\<close>
  already gives the result of any larger amount (\<open>parse_fuel_stable\<close>,
  \<open>json_parse_fuel\<close>): the fuel never cuts a parse short.  No other loop
  needs fuel: every other function is structurally recursive.

  \<^bold>\<open>Not modelled.\<close>  Layout, animation and markup are display only; the
  static pages Landing and Dashboard are modelled only through their links.
  \<open>contexts/ThemeContext\<close> and \<open>pages/NotFound\<close> are imported but not part
  of the repository: the theme is modelled from its use in Settings (a
  two-valued state that \<open>toggleTheme\<close> flips), NotFound as a view without
  behaviour.  Numbers
  are integral; characters are bytes (no UTF-8 decoding); object keys that
  look like array indices are not reordered (the program never enumerates
  keys); react-router's percent-decoding of paths is not modelled.
  In \<open>Navigation\<close> the Settings and Dashboard views are mounted as views
  without requests; Settings' own state under navigation is in \<open>Shell\<close>.
  \<open>components/GlassCard.tsx\<close> only computes class names through
  \<open>cn\<close> of \<open>lib/utils\<close> (not in the repository; tailwind-merge) and
  chooses an animated or plain \<open>div\<close>: display only.  The hard-coded
  statistics and activity list of Dashboard and the texts of Landing are
  display only.  The \<open>components/ui\<close> library (sidebar, toaster, inputs)
  is not in the repository: the sidebar provider is modelled from its use,
  toasts as the list of notifications issued.
\<close>

section \<open>Scenarios\<close>

text \<open>A failed attempt in each of the two views with a lifecycle: a URL is
  typed, submitted, and answered with status 500 (ApplyJob) or not at all
  (UpdateProfile).\<close>

definition failed_attempt_aj :: "aj_event list" where
  "failed_attempt_aj = [AjInput ''https://x/y'', AjSubmit, AjSettle 0 (Response 500 [])]"

definition failed_attempt_up :: "up_event list" where
  "failed_attempt_up = [UpInput ''https://x/me'', UpSubmit, UpSettle 0 NoResponse]"

text \<open>An answer carrying every property of all three response interfaces.\<close>

definition typed_answer :: jsval where
  "typed_answer = JObj [(''message'', JStr ''ok''), (''profile_suggestions'', JStr []),
     (''cv_path'', JStr ''cv.docx''), (''cover_letter_path'', JStr ''cl.docx''),
     (''cv_preview'', JStr ''CV''), (''cover_letter_preview'', JStr ''Letter'')]"

section \<open>Answers of the declared types\<close>

text \<open>C37: the response interfaces of \<open>api.ts\<close> are what the views need
  to render: an answer of its declared type is shown without throwing, the
  ApplyJob banner showing the message, UpdateProfile the message and the
  suggestions (each only when non-empty), GenerateDocuments both previews.\<close>

theorem typed_answers_render:
  "(is_ApplyJobResponse v \<longrightarrow>
      (\<exists>m. get_prop v ''message'' = Inr (JStr m) \<and>
           aj_render_banner (aj_message (fst (aj_resume (Inr v) p1))) = Inr (if m = [] then NothingShown else Shown m))) \<and>
   (is_UpdateProfileResponse v \<longrightarrow>
      (\<exists>m sg. get_prop v ''message'' = Inr (JStr m) \<and> get_prop v ''profile_suggestions'' = Inr (JStr sg) \<and>
           up_render (fst (up_resume (Inr v) p2)) =
             Inr (if m = [] then NothingShown else Shown m, if sg = [] then NothingShown else Shown sg))) \<and>
   (is_GenerateDocumentsResponse v \<longrightarrow>
      (\<exists>cv cl. get_prop v ''cv_preview'' = Inr (JStr cv) \<and> get_prop v ''cover_letter_preview'' = Inr (JStr cl) \<and>
           gd_render_results (gd_results (fst (gd_resume (Inr v) p3))) = Inr (Previews cv cl)))"
proof (intro conjI impI)
  assume "is_ApplyJobResponse v"
  then obtain m where "get_prop v ''message'' = Inr (JStr m)"
    unfolding is_ApplyJobResponse_def by (elim has_string_propE)
  then show "\<exists>m. get_prop v ''message'' = Inr (JStr m) \<and>
           aj_render_banner (aj_message (fst (aj_resume (Inr v) p1))) = Inr (if m = [] then NothingShown else Shown m)"
    by (simp add: aj_resume_def aj_render_banner_def render_and_def)
next
  assume "is_UpdateProfileResponse v"
  then obtain m sg where "get_prop v ''message'' = Inr (JStr m)" "get_prop v ''profile_suggestions'' = Inr (JStr sg)"
    unfolding is_UpdateProfileResponse_def by (auto elim!: has_string_propE)
  then show "\<exists>m sg. get_prop v ''message'' = Inr (JStr m) \<and> get_prop v ''profile_suggestions'' = Inr (JStr sg) \<and>
           up_render (fst (up_resume (Inr v) p2)) =
             Inr (if m = [] then NothingShown else Shown m, if sg = [] then NothingShown else Shown sg)"
    by (simp add: up_resume_def up_render_def render_and_def)
next
  assume "is_GenerateDocumentsResponse v"
  then obtain cv cl where "get_prop v ''cv_preview'' = Inr (JStr cv)" "get_prop v ''cover_letter_preview'' = Inr (JStr cl)"
    unfolding is_GenerateDocumentsResponse_def by (auto elim!: has_string_propE)
  moreover have "truthy v"
    using \<open>get_prop v ''cv_preview'' = Inr (JStr cv)\<close> by (cases v) auto
  ultimately show "\<exists>cv cl. get_prop v ''cv_preview'' = Inr (JStr cv) \<and> get_prop v ''cover_letter_preview'' = Inr (JStr cl) \<and>
           gd_render_results (gd_results (fst (gd_resume (Inr v) p3))) = Inr (Previews cv cl)"
    by (simp add: gd_resume_def gd_render_results_def render_prop_def)
qed

theorem typed_answers_render_witness:
  "aj_render_banner (aj_message (fst (aj_resume (Inr typed_answer) applyjob_init))) = Inr (Shown ''ok'') \<and>
   up_render (fst (up_resume (Inr typed_answer) updateprofile_init)) = Inr (Shown ''ok'', NothingShown) \<and>
   gd_render_results (gd_results (fst (gd_resume (Inr typed_answer) generatedocs_init))) = Inr (Previews ''CV'' ''Letter'')"
  using typed_answers_render [of typed_answer applyjob_init updateprofile_init generatedocs_init]
  by (simp add: typed_answer_def is_ApplyJobResponse_def is_UpdateProfileResponse_def
      is_GenerateDocumentsResponse_def has_string_prop_def)

section \<open>Terminal states\<close>

text \<open>C29: terminal states are stable (spec section 8): once the job
  application or the profile update is not pending, any events other than a
  submission, i.e. typing, copying and answers to nothing outstanding, leave
  the lifecycle state exactly as it is and send no request.\<close>

theorem terminal_states_stable:
  "(aj_abs (aj_run aj_init es) \<noteq> Pending \<longrightarrow> AjSubmit \<notin> set es' \<longrightarrow>
      aj_abs (aj_run (aj_run aj_init es) es') = aj_abs (aj_run aj_init es) \<and>
      aj_sent (aj_run (aj_run aj_init es) es') = aj_sent (aj_run aj_init es)) \<and>
   (up_abs (up_run up_init fs) \<noteq> Pending \<longrightarrow> UpSubmit \<notin> set fs' \<longrightarrow>
      up_abs (up_run (up_run up_init fs) fs') = up_abs (up_run up_init fs) \<and>
      up_sent (up_run (up_run up_init fs) fs') = up_sent (up_run up_init fs))"
  using aj_terminal_stable [OF _ aj_reachable_inv] up_terminal_stable [OF _ up_reachable_inv] by blast

theorem terminal_states_stable_witness:
  "aj_abs (aj_run (aj_run aj_init failed_attempt_aj) [AjInput ''other'', AjSettle 0 (Response 200 [])]) = Failure \<and>
   up_abs (up_run (up_run up_init failed_attempt_up) [UpCopy, UpSettle 0 NoResponse]) = Failure"
proof -
  have a: "aj_abs (aj_run aj_init failed_attempt_aj) = Failure" by code_simp
  have u: "up_abs (up_run up_init failed_attempt_up) = Failure" by code_simp
  show ?thesis
    using terminal_states_stable [of failed_attempt_aj "[AjInput ''other'', AjSettle 0 (Response 200 [])]"
        failed_attempt_up "[UpCopy, UpSettle 0 NoResponse]"] a u by simp
qed

end
